theory Spec2Isabelle
  imports Main "HOL-Library.AList"
begin

section \<open>Tokens, locations and diagnostics\<close>

text \<open>
  A text position is a pair (line, character); a location is a file path with a start
  and an end position. A token carries its text and its location. The diagnostic sink
  (\<open>diagnostic.addError\<close>, \<open>analyzerDiagnostic.error\<close>) is a global list in the source;
  here it is a list of (location, message) pairs that each operation returns extended.
\<close>

type_synonym Position = "nat \<times> nat"

record TextLocation =
  path :: string
  locStart :: Position
  locEnd :: Position

record ParsedToken =
  tokenText :: string
  location :: TextLocation

type_synonym Diagnostic = "TextLocation \<times> string"

definition addError :: "TextLocation \<Rightarrow> string \<Rightarrow> Diagnostic list \<Rightarrow> Diagnostic list" where
  "addError loc msg ds = ds @ [(loc, msg)]"

section \<open>Analysis resolver: rescheduling the delayed task\<close>

text \<open>
  Modelled from the spec: the class \<open>AnalysisQueue\<close> (analysisQueue.ts) is used by the
  resolver but is not part of the sources at hand. The spec gives it three FIFO tiers:
  direct, indirect and lazy-indirect; \<open>hasDirect\<close>, \<open>hasIndirect\<close> and
  \<open>hasLazyIndirect\<close> say whether the tier is non-empty, \<open>pushDirect\<close> appends to the
  direct tier.
\<close>

record 'r AnalysisQueue =
  directQueue :: "'r list"
  indirectQueue :: "'r list"
  lazyIndirectQueue :: "'r list"

definition hasDirect :: "'r AnalysisQueue \<Rightarrow> bool" where
  "hasDirect q = (directQueue q \<noteq> [])"

definition hasIndirect :: "'r AnalysisQueue \<Rightarrow> bool" where
  "hasIndirect q = (indirectQueue q \<noteq> [])"

definition hasLazyIndirect :: "'r AnalysisQueue \<Rightarrow> bool" where
  "hasLazyIndirect q = (lazyIndirectQueue q \<noteq> [])"

definition pushDirect :: "'r \<Rightarrow> 'r AnalysisQueue \<Rightarrow> 'r AnalysisQueue" where
  "pushDirect x q = q\<lparr>directQueue := directQueue q @ [x]\<rparr>"

text \<open>The three wait times of the resolver, in milliseconds.\<close>

definition mediumWaitTime :: nat where "mediumWaitTime = 500"
definition shortWaitTime :: nat where "shortWaitTime = 100"
definition veryShortWaitTime :: nat where "veryShortWaitTime = 10"

text \<open>
  The resolver owns one \<open>DelayedTask\<close>; its callback is always \<open>handleAnalyze\<close>, so the
  pending timer is represented by its wait time (\<open>None\<close>: nothing is scheduled).
  \<open>reschedule\<close> replaces whatever was pending.
\<close>

record 'r AnalysisResolver =
  analysisQueue :: "'r AnalysisQueue"
  analyzerTask :: "nat option"

definition reschedule :: "nat \<Rightarrow> 'r AnalysisResolver \<Rightarrow> 'r AnalysisResolver" where
  "reschedule waitTime r = r\<lparr>analyzerTask := Some waitTime\<rparr>"

definition rescheduleAnalyze :: "'r AnalysisResolver \<Rightarrow> 'r AnalysisResolver" where
  "rescheduleAnalyze r =
     (if hasDirect (analysisQueue r) then reschedule veryShortWaitTime r
      else if hasIndirect (analysisQueue r) then reschedule shortWaitTime r
      else if hasLazyIndirect (analysisQueue r) then reschedule mediumWaitTime r
      else r)"

text \<open>
  \<open>request\<close> pushes the record on the direct tier (with \<open>shouldReanalyze\<close> set) and
  reschedules. \<open>handleAnalyze\<close> is the timer's callback: the timer has fired, so nothing
  is pending any more; it pops and analyzes one element and reschedules. What
  \<open>popAndAnalyze\<close> does to the queue (a pop, and pushes on the indirect tiers for
  dependent files) depends on the file system; it is a parameter here.
\<close>

definition request :: "'r \<Rightarrow> ('r \<times> bool) AnalysisResolver \<Rightarrow> ('r \<times> bool) AnalysisResolver" where
  "request rcd r =
     rescheduleAnalyze (r\<lparr>analysisQueue := pushDirect (rcd, True) (analysisQueue r)\<rparr>)"

definition handleAnalyze ::
  "('r AnalysisQueue \<Rightarrow> 'r AnalysisQueue) \<Rightarrow> 'r AnalysisResolver \<Rightarrow> 'r AnalysisResolver" where
  "handleAnalyze popAndAnalyze r =
     rescheduleAnalyze (r\<lparr>analysisQueue := popAndAnalyze (analysisQueue r), analyzerTask := None\<rparr>)"

section \<open>Scope trees (symbolScopes.ts)\<close>

text \<open>
  A \<open>SymbolScope\<close> has an optional owner node, a key, a table of child scopes and a table
  of symbols. Both tables are JavaScript \<open>Map\<close>s: association lists in insertion order,
  where \<open>set\<close> on a present key replaces the value in place (\<open>AList.update\<close>) and
  \<open>get\<close> is \<open>map_of\<close>. The parent back-reference is the nesting of the tree itself.
  Owner nodes are compared by reference in the source (\<open>!==\<close>); the type \<open>'n\<close> stands
  for node references, and its equality for reference identity. The lists
  \<open>referencedList\<close> and \<open>completionHints\<close> are created empty and are not touched by any
  function below.
\<close>

record SymbolObject =
  declaredPlace :: ParsedToken

datatype 'n SymbolScope =
  SymbolScope (ownerNode: "'n option") (key: string)
    (childScopes: "(string \<times> 'n SymbolScope) list")
    (symbolMap: "(string \<times> SymbolObject) list")

definition setOwnerNode :: "'n option \<Rightarrow> 'n SymbolScope \<Rightarrow> 'n SymbolScope" where
  "setOwnerNode n s = SymbolScope n (key s) (childScopes s) (symbolMap s)"

definition setChildScope :: "string \<Rightarrow> 'n SymbolScope \<Rightarrow> 'n SymbolScope \<Rightarrow> 'n SymbolScope" where
  "setChildScope k c s =
     SymbolScope (ownerNode s) (key s) (AList.update k c (childScopes s)) (symbolMap s)"

definition setSymbol :: "string \<Rightarrow> SymbolObject \<Rightarrow> 'n SymbolScope \<Rightarrow> 'n SymbolScope" where
  "setSymbol k v s =
     SymbolScope (ownerNode s) (key s) (childScopes s) (AList.update k v (symbolMap s))"

definition findScopeShallowly :: "'n SymbolScope \<Rightarrow> string \<Rightarrow> 'n SymbolScope option" where
  "findScopeShallowly scope identifier = map_of (childScopes scope) identifier"

definition createSymbolScope :: "'n option \<Rightarrow> string \<Rightarrow> 'n SymbolScope" where
  "createSymbolScope owner k = SymbolScope owner k [] []"

text \<open>
  The functions below mutate the parent scope in the source. Here they return the
  updated parent together with the scope the source returns.
\<close>

definition createSymbolScopeAndInsert ::
  "'n option \<Rightarrow> 'n SymbolScope \<Rightarrow> string \<Rightarrow> 'n SymbolScope \<times> 'n SymbolScope" where
  "createSymbolScopeAndInsert owner parentScope identifier =
     (let scope = createSymbolScope owner identifier
      in (setChildScope identifier scope parentScope, scope))"

definition findScopeShallowlyThenInsertByIdentifier ::
  "'n option \<Rightarrow> 'n SymbolScope \<Rightarrow> string \<Rightarrow> 'n SymbolScope \<times> 'n SymbolScope" where
  "findScopeShallowlyThenInsertByIdentifier owner scope identifier =
     (case map_of (childScopes scope) identifier of
        None \<Rightarrow> createSymbolScopeAndInsert owner scope identifier
      | Some found \<Rightarrow>
          (if owner = None then (scope, found)
           else if ownerNode found = None
             then (let found' = setOwnerNode owner found
                   in (setChildScope identifier found' scope, found'))
           else (scope, found)))"

definition alreadyDefinedMessage :: "string \<Rightarrow> string" where
  "alreadyDefinedMessage t = ''Symbol '' @ t @ [CHR 0x27] @ '' is already defined.''"

definition findScopeShallowlyOrInsert ::
  "'n option \<Rightarrow> 'n SymbolScope \<Rightarrow> ParsedToken \<Rightarrow> Diagnostic list
     \<Rightarrow> 'n SymbolScope \<times> 'n SymbolScope \<times> Diagnostic list" where
  "findScopeShallowlyOrInsert owner scope identifierToken ds =
     (let (scope', found) = findScopeShallowlyThenInsertByIdentifier owner scope (tokenText identifierToken)
      in if owner \<noteq> None \<and> owner \<noteq> ownerNode found
         then (scope', found,
               addError (location identifierToken) (alreadyDefinedMessage (tokenText identifierToken)) ds)
         else (scope', found, ds))"

text \<open>
  Copying symbols between scope trees. \<open>getPathOfScope\<close> (symbolUtils.ts) is not part of the
  sources at hand and is a parameter: any function from scopes to optional paths.
  The destination scope is mutated in the source; here the updated destination is returned.
\<close>

record CopySymbolOptions =
  targetSrcPath :: "string option"
  excludeSrcPath :: "string option"

definition canCopy :: "CopySymbolOptions \<Rightarrow> SymbolObject \<Rightarrow> bool" where
  "canCopy option symbol =
     (\<not> (targetSrcPath option \<noteq> None
          \<and> Some (path (location (declaredPlace symbol))) \<noteq> targetSrcPath option)
      \<and> \<not> (excludeSrcPath option \<noteq> None
          \<and> Some (path (location (declaredPlace symbol))) = excludeSrcPath option))"

fun copySymbolEntries ::
  "CopySymbolOptions \<Rightarrow> (string \<times> SymbolObject) list \<Rightarrow> 'n SymbolScope \<Rightarrow> 'n SymbolScope" where
  "copySymbolEntries option [] destScope = destScope"
| "copySymbolEntries option ((k, symbol) # rest) destScope =
     copySymbolEntries option rest
       (if canCopy option symbol then setSymbol k symbol destScope else destScope)"

definition skipChildScope :: "CopySymbolOptions \<Rightarrow> string option \<Rightarrow> bool" where
  "skipChildScope option scopePath =
     (scopePath \<noteq> None \<and>
       ((targetSrcPath option \<noteq> None \<and> scopePath \<noteq> targetSrcPath option)
        \<or> (excludeSrcPath option \<noteq> None \<and> scopePath = excludeSrcPath option)))"

fun copySymbolsInScope ::
  "('n SymbolScope \<Rightarrow> string option) \<Rightarrow> CopySymbolOptions \<Rightarrow> 'n SymbolScope \<Rightarrow> 'n SymbolScope
     \<Rightarrow> 'n SymbolScope"
and copyChildScopes ::
  "('n SymbolScope \<Rightarrow> string option) \<Rightarrow> CopySymbolOptions \<Rightarrow> (string \<times> 'n SymbolScope) list
     \<Rightarrow> 'n SymbolScope \<Rightarrow> 'n SymbolScope" where
  "copySymbolsInScope getPathOfScope option (SymbolScope owner k children symbols) destScope =
     copyChildScopes getPathOfScope option children (copySymbolEntries option symbols destScope)"
| "copyChildScopes getPathOfScope option [] destScope = destScope"
| "copyChildScopes getPathOfScope option ((k, child) # rest) destScope =
     (if skipChildScope option (getPathOfScope child)
      then copyChildScopes getPathOfScope option rest destScope
      else (let (destScope', destChild) =
                  findScopeShallowlyThenInsertByIdentifier (ownerNode child) destScope k;
                destChild' = copySymbolsInScope getPathOfScope option child destChild
            in copyChildScopes getPathOfScope option rest (setChildScope k destChild' destScope')))"

fun allSymbols :: "'n SymbolScope \<Rightarrow> SymbolObject list" where
  "allSymbols (SymbolScope owner k children symbols) =
     map snd symbols @ concat (map (\<lambda>c. allSymbols (snd c)) children)"

record 'n AnalyzedScope =
  filePath :: string
  fullScope :: "'n SymbolScope"
  pureBuffer :: "'n SymbolScope option"

definition newAnalyzedScope :: "string \<Rightarrow> 'n SymbolScope \<Rightarrow> 'n AnalyzedScope" where
  "newAnalyzedScope p full = \<lparr>filePath = p, fullScope = full, pureBuffer = None\<rparr>"

definition pureScope ::
  "('n SymbolScope \<Rightarrow> string option) \<Rightarrow> 'n AnalyzedScope \<Rightarrow> 'n AnalyzedScope \<times> 'n SymbolScope" where
  "pureScope getPathOfScope a =
     (case pureBuffer a of
        None \<Rightarrow>
          (let buffer = createSymbolScope (ownerNode (fullScope a)) (key (fullScope a));
               buffer' = copySymbolsInScope getPathOfScope
                           \<lparr>targetSrcPath = Some (filePath a), excludeSrcPath = None\<rparr>
                           (fullScope a) buffer
           in (a\<lparr>pureBuffer := Some buffer'\<rparr>, buffer'))
      | Some buffer \<Rightarrow> (a, buffer))"

section \<open>Anonymous identifiers (symbolScopes.ts)\<close>

text \<open>
  The module-level counter \<open>s_uniqueIdentifier\<close> starts at \<open>-1\<close>; every call of
  \<open>createAnonymousIdentifier\<close> increments it and returns \<open>~\<close> followed by the decimal
  numeral of the new value. The counter is a JavaScript number, a double with an integer
  value: \<open>++\<close> adds one exactly below \<open>2^53\<close>, and at \<open>2^53\<close> the sum rounds back to
  \<open>2^53\<close>, so the counter stays there; it takes no value above. The template literal
  prints an integer of this size in decimal, with a minus sign when negative.
\<close>

definition digitChar :: "nat \<Rightarrow> char" where
  "digitChar d = char_of (48 + d)"

fun showNat :: "nat \<Rightarrow> string" where
  "showNat n = (if n < 10 then [digitChar n] else showNat (n div 10) @ [digitChar (n mod 10)])"

definition numberToString :: "int \<Rightarrow> string" where
  "numberToString i = (if i < 0 then CHR ''-'' # showNat (nat (- i)) else showNat (nat i))"

definition startsWith :: "string \<Rightarrow> string \<Rightarrow> bool" where
  "startsWith s p = (take (length p) s = p)"

definition initialUniqueIdentifier :: int where
  "initialUniqueIdentifier = - 1"

definition maxExactInteger :: int where
  "maxExactInteger = 2 ^ 53"

definition increment :: "int \<Rightarrow> int" where
  "increment n = (if n < maxExactInteger then n + 1 else n)"

definition createAnonymousIdentifier :: "int \<Rightarrow> string \<times> int" where
  "createAnonymousIdentifier s_uniqueIdentifier =
     (let s = increment s_uniqueIdentifier in (CHR ''~'' # numberToString s, s))"

definition isAnonymousIdentifier :: "string \<Rightarrow> bool" where
  "isAnonymousIdentifier identifier = startsWith identifier ''~''"

text \<open>The identifiers returned by \<open>k\<close> successive calls, from a given counter value.\<close>

fun anonymousIdentifiers :: "nat \<Rightarrow> int \<Rightarrow> string list" where
  "anonymousIdentifiers 0 c = []"
| "anonymousIdentifiers (Suc k) c =
     (let (identifier, c') = createAnonymousIdentifier c
      in identifier # anonymousIdentifiers k c')"

text \<open>The value a decimal numeral denotes; it is used to show that printing is injective.\<close>

definition readNat :: "string \<Rightarrow> nat" where
  "readNat s = foldl (\<lambda>a c. 10 * a + (of_char c - 48)) 0 s"

section \<open>Hoisting (hoist.ts): syntax tree, symbols and scopes\<close>

text \<open>
  The syntax tree as the hoist pass reads it. Types, statement blocks and initializers are
  only handed on to the analyzer and are kept as their identifying token or range. Every
  declaration node carries its tokens (with their locations), so two nodes of one parse
  differ as values exactly when they are different objects.
\<close>

datatype AccessModifier = Private | Protected

type_synonym NodeRange = "ParsedToken \<times> ParsedToken"

datatype NodeType = NodeType (getIdentifierInNodeType: ParsedToken)

datatype NodeStatBlock = NodeStatBlock NodeRange

datatype NodeInitializer = NodeInitializer NodeRange

record ParsedParam =
  paramType :: NodeType
  paramIdentifier :: "ParsedToken option"

type_synonym NodeParamList = "ParsedParam list"

datatype FuncHead = funcHeadDestructor | funcHeadConstructor | FuncHeadReturnValue NodeType

record FuncAttr =
  isProperty :: bool

record NodeFunc =
  funcIdentifier :: ParsedToken
  funcAccessor :: "AccessModifier option"
  head :: FuncHead
  funcTypeTemplates :: "NodeType list option"
  funcParamList :: NodeParamList
  funcAttr :: "FuncAttr option"
  funcStatBlock :: NodeStatBlock

record ParsedVariableInit =
  varIdentifier :: ParsedToken
  initializer :: "NodeInitializer option"

record NodeVar =
  varAccessor :: "AccessModifier option"
  varType :: NodeType
  variables :: "ParsedVariableInit list"

record ParsedGetterSetter =
  statBlock :: "NodeStatBlock option"

record NodeVirtualProp =
  propAccessor :: "AccessModifier option"
  propType :: NodeType
  propIdentifier :: ParsedToken
  getter :: "ParsedGetterSetter option"
  setter :: "ParsedGetterSetter option"

record NodeFuncDef =
  funcDefIdentifier :: ParsedToken
  funcDefReturnType :: NodeType
  funcDefParamList :: NodeParamList

record NodeIntfMethod =
  intfMethodIdentifier :: ParsedToken
  intfMethodReturnType :: NodeType
  intfMethodParamList :: NodeParamList

record NodeEnum =
  enumIdentifier :: ParsedToken
  enumMemberList :: "ParsedToken list"

record NodeTypeDef =
  typeDefType :: ParsedToken
  typeDefIdentifier :: ParsedToken

datatype ClassMember =
  MemberVirtualProp NodeVirtualProp
| MemberFunc NodeFunc
| MemberVar NodeVar
| MemberFuncDef NodeFuncDef

record NodeClass =
  classIdentifier :: ParsedToken
  classTypeTemplates :: "NodeType list option"
  classBaseList :: "ParsedToken list"
  classMemberList :: "ClassMember list"
  classNodeRange :: NodeRange

datatype InterfaceMember =
  IntfMemberVirtualProp NodeVirtualProp
| IntfMemberMethod NodeIntfMethod

record NodeInterface =
  interfaceIdentifier :: ParsedToken
  interfaceBaseList :: "ParsedToken list"
  interfaceMemberList :: "InterfaceMember list"
  interfaceNodeRange :: NodeRange

text \<open>
  A script is a list of statements; a namespace holds a nested script. \<open>OtherStatement\<close>
  stands for the statements \<open>hoistScript\<close> passes over (imports, stray semicolons).
\<close>

datatype Statement =
  Enum NodeEnum
| TypeDef NodeTypeDef
| Class NodeClass
| Mixin NodeClass
| Interface NodeInterface
| FuncDef NodeFuncDef
| VirtualProp NodeVirtualProp
| Var NodeVar
| Func NodeFunc
| Namespace "ParsedToken list" "Statement list" NodeRange
| OtherStatement

type_synonym NodeScript = "Statement list"

datatype LinkedNode =
  LinkedEnum NodeEnum
| LinkedClass NodeClass
| LinkedInterface NodeInterface
| LinkedFunc NodeFunc
| LinkedFuncDef NodeFuncDef
| LinkedIntfMethod NodeIntfMethod
| LinkedVirtualProp NodeVirtualProp
| LinkedBuiltin ParsedToken

text \<open>
  Symbols are objects that the source mutates after they have been put into a table
  (\<open>assignMembersScopePath\<close>, \<open>assignBaseList\<close>, \<open>assignParameterTypes\<close>) and shares between
  tables (a base member copied into a derived class is the same object). They live in a
  store, addressed by a number; tables and resolved types hold these addresses. A scope
  is addressed by its path from the global scope (the empty path).
\<close>

type_synonym ScopePath = "string list"

type_synonym SymbolId = nat

datatype ResolvedType = ResolvedType (typeOrFunc: SymbolId)

datatype SymbolObj =
  isType: SymbolType
    (identifierToken: ParsedToken) (scopePath: ScopePath) (linkedNode: "LinkedNode option")
    (membersScopePath: "ScopePath option") (templateTypes: "ParsedToken list option")
    (baseList: "ResolvedType option list option") (isTypeParameter: bool)
| isVariable: SymbolVariable
    (identifierToken: ParsedToken) (scopePath: ScopePath) (variableType: "ResolvedType option")
    (isInstanceMember: bool) (accessRestriction: "AccessModifier option")
| isFunction: SymbolFunction
    (identifierToken: ParsedToken) (scopePath: ScopePath) (returnType: "ResolvedType option")
    (parameterTypes: "ResolvedType option list") (linkedNode: "LinkedNode option")
    (functionScopePath: "ScopePath option") (isInstanceMember: bool)
    (accessRestriction: "AccessModifier option") (templateTypes: "ParsedToken list option")

text \<open>
  A symbol holder is a single symbol (a type or a variable) or a function holder, the
  non-empty list of the overloads of one identifier: its first overload and the others.
\<close>

datatype SymbolHolder = SingleSymbol SymbolId | FunctionHolder SymbolId "SymbolId list"

fun toList :: "SymbolHolder \<Rightarrow> SymbolId list" where
  "toList (SingleSymbol s) = [s]"
| "toList (FunctionHolder f fs) = f # fs"

fun firstSymbol :: "SymbolHolder \<Rightarrow> SymbolId" where
  "firstSymbol (SingleSymbol s) = s"
| "firstSymbol (FunctionHolder f fs) = f"

fun isFunctionHolder :: "SymbolHolder \<Rightarrow> bool" where
  "isFunctionHolder (SingleSymbol s) = False"
| "isFunctionHolder (FunctionHolder f fs) = True"

fun pushOverload :: "SymbolId \<Rightarrow> SymbolHolder \<Rightarrow> SymbolHolder" where
  "pushOverload s (FunctionHolder f fs) = FunctionHolder f (fs @ [s])"
| "pushOverload s (SingleSymbol x) = SingleSymbol x"

record SymbolScopeRec =
  scopeLinkedNode :: "LinkedNode option"
  symbolTable :: "(string \<times> SymbolHolder) list"
  childScopeTable :: "string list"
  namespaceNodes :: "(NodeRange \<times> ParsedToken) list"

text \<open>
  The closures that the hoist pass pushes on its two queues, one constructor per closure
  of the source, holding the variables the closure captures. The two queues are arrays
  that \<open>hoistNamespace\<close> passes on under both names, so a function receives references
  to the arrays, not the arrays.
\<close>

datatype QueueRef = HoistArray | AnalyzeArray

datatype AnalyzeTask =
  TaskAnalyzeFunc ScopePath NodeFunc
| TaskAnalyzeVarInitializers ScopePath "ResolvedType option" NodeVar
| TaskAnalyzeStatBlock ScopePath NodeStatBlock

datatype Task =
  TaskHoistClassMembers ScopePath NodeClass QueueRef QueueRef SymbolId
| TaskCopyBaseAndSuper ScopePath SymbolId
| TaskHoistInterfaceMembers ScopePath NodeInterface QueueRef QueueRef "ResolvedType option list option"
| TaskAssignParameterTypes SymbolId ScopePath NodeParamList
| TaskFuncDefReturnType SymbolId ScopePath NodeFuncDef
| TaskFuncDefParameterTypes SymbolId ScopePath NodeFuncDef
| TaskAnalyze AnalyzeTask

text \<open>
  Everything the pass mutates: the scopes and symbols reachable from the active global
  scope, the analyzer's diagnostic sink, the reference list and scope regions kept on the
  global scope, and the counter of anonymous identifiers; a hoist run adds its two queues.
\<close>

record AnalyzerData =
  scopeStore :: "ScopePath \<Rightarrow> SymbolScopeRec"
  symbolStore :: "SymbolId \<Rightarrow> SymbolObj"
  nextSymbol :: SymbolId
  diagnostics :: "Diagnostic list"
  referenceList :: "(SymbolId \<times> ParsedToken) list"
  scopeRegions :: "(ScopePath \<times> NodeRange) list"
  uniqueIdentifier :: int

record HoistState = AnalyzerData +
  hoistArray :: "Task list"
  analyzeArray :: "Task list"

text \<open>
  Functions of other modules that the pass calls and that are not part of the sources at
  hand are parameters. They read the current scopes and symbols; \<open>analyzeType\<close> yields a
  resolved type (or none) together with the diagnostics and reference entries it records;
  the analyzer's body functions, which the analyze closures call, may change the data but
  have no access to the queues.
\<close>

record HoistEnv =
  analyzeType :: "AnalyzerData \<Rightarrow> ScopePath \<Rightarrow> NodeType
     \<Rightarrow> ResolvedType option \<times> Diagnostic list \<times> (SymbolId \<times> ParsedToken) list"
  findSymbolWithParent :: "AnalyzerData \<Rightarrow> ScopePath \<Rightarrow> string \<Rightarrow> SymbolId option"
  tryGetBuiltinType :: "ParsedToken \<Rightarrow> LinkedNode option option"
  findConstructorOfType :: "AnalyzerData \<Rightarrow> ResolvedType option \<Rightarrow> SymbolHolder option"
  explicitPropertyAccessor :: bool
  runAnalyzeTask :: "AnalyzeTask \<Rightarrow> AnalyzerData \<Rightarrow> AnalyzerData"

section \<open>Hoisting (hoist.ts): scope and symbol operations\<close>

definition analyzerError :: "TextLocation \<Rightarrow> string \<Rightarrow> HoistState \<Rightarrow> HoistState" where
  "analyzerError loc msg st = st\<lparr>diagnostics := addError loc msg (diagnostics st)\<rparr>"

definition putScope :: "ScopePath \<Rightarrow> SymbolScopeRec \<Rightarrow> HoistState \<Rightarrow> HoistState" where
  "putScope p scope st = st\<lparr>scopeStore := (scopeStore st)(p := scope)\<rparr>"

definition putSymbol :: "SymbolId \<Rightarrow> SymbolObj \<Rightarrow> HoistState \<Rightarrow> HoistState" where
  "putSymbol s symbol st = st\<lparr>symbolStore := (symbolStore st)(s := symbol)\<rparr>"

text \<open>Creating a symbol object (\<open>SymbolType.create\<close> and its like) takes a fresh address.\<close>

definition newSymbol :: "SymbolObj \<Rightarrow> HoistState \<Rightarrow> SymbolId \<times> HoistState" where
  "newSymbol symbol st =
     (nextSymbol st,
      st\<lparr>symbolStore := (symbolStore st)(nextSymbol st := symbol), nextSymbol := Suc (nextSymbol st)\<rparr>)"

fun assignMembersScopePath :: "ScopePath \<Rightarrow> SymbolObj \<Rightarrow> SymbolObj" where
  "assignMembersScopePath p (SymbolType t sp ln ms tt bl tp) = SymbolType t sp ln (Some p) tt bl tp"
| "assignMembersScopePath p symbol = symbol"

fun assignBaseList :: "ResolvedType option list option \<Rightarrow> SymbolObj \<Rightarrow> SymbolObj" where
  "assignBaseList b (SymbolType t sp ln ms tt bl tp) = SymbolType t sp ln ms tt b tp"
| "assignBaseList b symbol = symbol"

fun assignTemplateTypes :: "ParsedToken list \<Rightarrow> SymbolObj \<Rightarrow> SymbolObj" where
  "assignTemplateTypes ts (SymbolType t sp ln ms tt bl tp) = SymbolType t sp ln ms (Some ts) bl tp"
| "assignTemplateTypes ts (SymbolFunction t sp rt pts ln fs im ar tt) =
     SymbolFunction t sp rt pts ln fs im ar (Some ts)"
| "assignTemplateTypes ts symbol = symbol"

fun assignReturnType :: "ResolvedType option \<Rightarrow> SymbolObj \<Rightarrow> SymbolObj" where
  "assignReturnType r (SymbolFunction t sp rt pts ln fs im ar tt) =
     SymbolFunction t sp r pts ln fs im ar tt"
| "assignReturnType r symbol = symbol"

fun assignParameterTypes :: "ResolvedType option list \<Rightarrow> SymbolObj \<Rightarrow> SymbolObj" where
  "assignParameterTypes ps (SymbolFunction t sp rt pts ln fs im ar tt) =
     SymbolFunction t sp rt ps ln fs im ar tt"
| "assignParameterTypes ps symbol = symbol"

definition mutateSymbol :: "SymbolId \<Rightarrow> (SymbolObj \<Rightarrow> SymbolObj) \<Rightarrow> HoistState \<Rightarrow> HoistState" where
  "mutateSymbol s f st = putSymbol s (f (symbolStore st s)) st"

definition toHolder :: "SymbolObj \<Rightarrow> SymbolId \<Rightarrow> SymbolHolder" where
  "toHolder symbol s = (if isFunction symbol then FunctionHolder s [] else SingleSymbol s)"

definition emptyScope :: "LinkedNode option \<Rightarrow> SymbolScopeRec" where
  "emptyScope node =
     \<lparr>scopeLinkedNode = node, symbolTable = [], childScopeTable = [], namespaceNodes = []\<rparr>"

text \<open>
  Modelled from the spec: the methods of the class \<open>SymbolScope\<close> (symbolScope.ts), which
  is not part of the sources at hand. \<open>insert-scope\<close> returns the existing child if
  present (reusing the linked node if it was missing), else creates one;
  \<open>insert-scope-and-check\<close> does the same and adds a duplicate-symbol diagnostic at the
  token when the found scope already has a different linked node; \<open>insert-symbol\<close>
  installs the symbol when no holder exists at its identifier and returns none, appends
  an overload when a function holder exists and the symbol is a function and returns
  none, and otherwise returns the existing holder; \<open>insert-symbol-and-check\<close> does the
  same, adds a duplicate-symbol diagnostic on a collision and returns whether it
  succeeded; \<open>resolve-scope\<close> walks from the global scope segment by segment.
\<close>

definition insertScope ::
  "ScopePath \<Rightarrow> string \<Rightarrow> LinkedNode option \<Rightarrow> HoistState \<Rightarrow> ScopePath \<times> HoistState" where
  "insertScope p identifier node st =
     (let scope = scopeStore st p; child = p @ [identifier]
      in if identifier \<in> set (childScopeTable scope)
         then (if node \<noteq> None \<and> scopeLinkedNode (scopeStore st child) = None
               then (child, putScope child ((scopeStore st child)\<lparr>scopeLinkedNode := node\<rparr>) st)
               else (child, st))
         else (child,
               putScope child (emptyScope node)
                 (putScope p (scope\<lparr>childScopeTable := childScopeTable scope @ [identifier]\<rparr>) st)))"

definition duplicateSymbolMessage :: "string \<Rightarrow> string" where
  "duplicateSymbolMessage t = ''Symbol '' @ [CHR 0x27] @ t @ [CHR 0x27] @ '' is already defined''"

definition insertScopeAndCheck ::
  "ScopePath \<Rightarrow> ParsedToken \<Rightarrow> LinkedNode option \<Rightarrow> HoistState \<Rightarrow> ScopePath \<times> HoistState" where
  "insertScopeAndCheck p tok node st =
     (let (child, st') = insertScope p (tokenText tok) node st
      in if node \<noteq> None \<and> node \<noteq> scopeLinkedNode (scopeStore st' child)
         then (child, analyzerError (location tok)
                        (duplicateSymbolMessage (tokenText tok)) st')
         else (child, st'))"

definition lookupSymbol :: "HoistState \<Rightarrow> ScopePath \<Rightarrow> string \<Rightarrow> SymbolHolder option" where
  "lookupSymbol st p identifier = map_of (symbolTable (scopeStore st p)) identifier"

definition setSymbolTable ::
  "ScopePath \<Rightarrow> (string \<times> SymbolHolder) list \<Rightarrow> HoistState \<Rightarrow> HoistState" where
  "setSymbolTable p table st = putScope p ((scopeStore st p)\<lparr>symbolTable := table\<rparr>) st"

definition insertSymbol :: "ScopePath \<Rightarrow> SymbolId \<Rightarrow> HoistState \<Rightarrow> SymbolHolder option \<times> HoistState" where
  "insertSymbol p s st =
     (let symbol = symbolStore st s;
          identifier = tokenText (identifierToken symbol);
          table = symbolTable (scopeStore st p)
      in case map_of table identifier of
           None \<Rightarrow> (None, setSymbolTable p (table @ [(identifier, toHolder symbol s)]) st)
         | Some alreadyExists \<Rightarrow>
             (if isFunction symbol \<and> isFunctionHolder alreadyExists
              then (None, setSymbolTable p
                      (AList.update identifier (pushOverload s alreadyExists) table) st)
              else (Some alreadyExists, st)))"

definition insertSymbolAndCheck :: "ScopePath \<Rightarrow> SymbolId \<Rightarrow> HoistState \<Rightarrow> bool \<times> HoistState" where
  "insertSymbolAndCheck p s st =
     (case insertSymbol p s st of
        (None, st') \<Rightarrow> (True, st')
      | (Some alreadyExists, st') \<Rightarrow>
          (False, analyzerError (location (identifierToken (symbolStore st s)))
                    (duplicateSymbolMessage (tokenText (identifierToken (symbolStore st s)))) st'))"

fun resolveScopeFrom :: "(ScopePath \<Rightarrow> SymbolScopeRec) \<Rightarrow> ScopePath \<Rightarrow> string list \<Rightarrow> ScopePath option" where
  "resolveScopeFrom store p [] = Some p"
| "resolveScopeFrom store p (k # ks) =
     (if k \<in> set (childScopeTable (store p)) then resolveScopeFrom store (p @ [k]) ks else None)"

definition tryResolveActiveScope :: "HoistState \<Rightarrow> ScopePath option \<Rightarrow> ScopePath option" where
  "tryResolveActiveScope st p =
     (case p of None \<Rightarrow> None | Some q \<Rightarrow> resolveScopeFrom (scopeStore st) [] q)"

definition pushNamespaceNode :: "ScopePath \<Rightarrow> NodeRange \<Rightarrow> ParsedToken \<Rightarrow> HoistState \<Rightarrow> HoistState" where
  "pushNamespaceNode p node tok st =
     putScope p ((scopeStore st p)\<lparr>namespaceNodes := namespaceNodes (scopeStore st p) @ [(node, tok)]\<rparr>) st"

text \<open>
  Modelled from the spec: \<open>pushScopeRegionInfo\<close> and \<open>insertVariables\<close> (analyzer.ts, not
  part of the sources at hand). The first records a scope-region hint (scope, node range)
  on the global scope; the second inserts one variable symbol per declared variable into
  the current scope, of the resolved type and with the declaration's access restriction.
\<close>

definition pushScopeRegionInfo :: "ScopePath \<Rightarrow> NodeRange \<Rightarrow> HoistState \<Rightarrow> HoistState" where
  "pushScopeRegionInfo p r st = st\<lparr>scopeRegions := scopeRegions st @ [(p, r)]\<rparr>"

fun insertVariableList ::
  "ScopePath \<Rightarrow> ResolvedType option \<Rightarrow> AccessModifier option \<Rightarrow> bool \<Rightarrow> ParsedVariableInit list
     \<Rightarrow> HoistState \<Rightarrow> HoistState" where
  "insertVariableList p t acc inst [] st = st"
| "insertVariableList p t acc inst (v # vs) st =
     (let (s, st1) = newSymbol (SymbolVariable (varIdentifier v) p t inst acc) st;
          (ok, st2) = insertSymbolAndCheck p s st1
      in insertVariableList p t acc inst vs st2)"

definition insertVariables ::
  "ScopePath \<Rightarrow> ResolvedType option \<Rightarrow> NodeVar \<Rightarrow> bool \<Rightarrow> HoistState \<Rightarrow> HoistState" where
  "insertVariables p t nodeVar inst st =
     insertVariableList p t (varAccessor nodeVar) inst (variables nodeVar) st"

text \<open>Calling the parameters on the current data, and recording what \<open>analyzeType\<close> reports.\<close>

definition callAnalyzeType ::
  "HoistEnv \<Rightarrow> ScopePath \<Rightarrow> NodeType \<Rightarrow> HoistState \<Rightarrow> ResolvedType option \<times> HoistState" where
  "callAnalyzeType env p t st =
     (let (r, ds, refs) = analyzeType env (AnalyzerData.truncate st) p t
      in (r, st\<lparr>diagnostics := diagnostics st @ ds, referenceList := referenceList st @ refs\<rparr>))"

definition pushTask :: "QueueRef \<Rightarrow> Task \<Rightarrow> HoistState \<Rightarrow> HoistState" where
  "pushTask q t st =
     (case q of
        HoistArray \<Rightarrow> st\<lparr>hoistArray := hoistArray st @ [t]\<rparr>
      | AnalyzeArray \<Rightarrow> st\<lparr>analyzeArray := analyzeArray st @ [t]\<rparr>)"

definition nextAnonymousIdentifier :: "HoistState \<Rightarrow> string \<times> HoistState" where
  "nextAnonymousIdentifier st =
     (let (identifier, c) = createAnonymousIdentifier (uniqueIdentifier st)
      in (identifier, st\<lparr>uniqueIdentifier := c\<rparr>))"

definition createVirtual :: "string \<Rightarrow> NodeRange \<Rightarrow> ParsedToken" where
  "createVirtual t r = \<lparr>tokenText = t, location = location (fst r)\<rparr>"

definition builtinThisToken :: ParsedToken where
  "builtinThisToken = \<lparr>tokenText = ''this'', location = \<lparr>path = '''', locStart = (0, 0), locEnd = (0, 0)\<rparr>\<rparr>"

definition builtinSetterValueToken :: ParsedToken where
  "builtinSetterValueToken =
     \<lparr>tokenText = ''value'', location = \<lparr>path = '''', locStart = (0, 0), locEnd = (0, 0)\<rparr>\<rparr>"

section \<open>Hoisting (hoist.ts): the pass\<close>

text \<open>
  Each function takes the state and returns it updated; a function that returns a value
  in the source returns the value and the state. Loops over lists are recursive functions.
\<close>

fun hoistEnumMembers ::
  "ScopePath \<Rightarrow> ParsedToken list \<Rightarrow> ResolvedType \<Rightarrow> HoistState \<Rightarrow> HoistState" where
  "hoistEnumMembers parentScope [] t st = st"
| "hoistEnumMembers parentScope (member # memberList) t st =
     (let (s, st1) = newSymbol (SymbolVariable member parentScope (Some t) False None) st;
          (ok, st2) = insertSymbolAndCheck parentScope s st1
      in hoistEnumMembers parentScope memberList t st2)"

definition hoistEnum :: "ScopePath \<Rightarrow> NodeEnum \<Rightarrow> HoistState \<Rightarrow> HoistState" where
  "hoistEnum parentScope nodeEnum st =
     (let (symbol, st1) = newSymbol (SymbolType (enumIdentifier nodeEnum) parentScope
                             (Some (LinkedEnum nodeEnum)) None None None False) st;
          (ok, st2) = insertSymbolAndCheck parentScope symbol st1
      in if \<not> ok then st2
         else (let (scope, st3) = insertScopeAndCheck parentScope (enumIdentifier nodeEnum)
                                    (Some (LinkedEnum nodeEnum)) st2;
                   st4 = mutateSymbol symbol (assignMembersScopePath scope) st3
               in hoistEnumMembers scope (enumMemberList nodeEnum) (ResolvedType symbol) st4))"

fun hoistTemplateTypeList ::
  "ScopePath \<Rightarrow> NodeType list \<Rightarrow> HoistState \<Rightarrow> ParsedToken list \<times> HoistState" where
  "hoistTemplateTypeList scope [] st = ([], st)"
| "hoistTemplateTypeList scope (t # types) st =
     (let (s, st1) = newSymbol (SymbolType (getIdentifierInNodeType t) scope None None None None True) st;
          (ok, st2) = insertSymbolAndCheck scope s st1;
          (templateTypes, st3) = hoistTemplateTypeList scope types st2
      in (getIdentifierInNodeType t # templateTypes, st3))"

definition hoistClassTemplateTypes ::
  "ScopePath \<Rightarrow> NodeType list option \<Rightarrow> HoistState \<Rightarrow> ParsedToken list \<times> HoistState" where
  "hoistClassTemplateTypes scope types st =
     hoistTemplateTypeList scope (case types of None \<Rightarrow> [] | Some ts \<Rightarrow> ts) st"

definition notDefinedTypeMessage :: "string \<Rightarrow> string" where
  "notDefinedTypeMessage t = [CHR 0x27] @ t @ [CHR 0x27] @ '' is not defined type''"

definition notClassOrInterfaceMessage :: "string \<Rightarrow> string" where
  "notClassOrInterfaceMessage t = [CHR 0x27] @ t @ [CHR 0x27] @ '' is not class or interface''"

fun hoistBaseIdentifiers ::
  "HoistEnv \<Rightarrow> ScopePath \<Rightarrow> ParsedToken list \<Rightarrow> HoistState
     \<Rightarrow> ResolvedType option list \<times> HoistState" where
  "hoistBaseIdentifiers env scope [] st = ([], st)"
| "hoistBaseIdentifiers env scope (baseIdentifier # rest) st =
     (let (b, st1) =
            (case findSymbolWithParent env (AnalyzerData.truncate st) scope (tokenText baseIdentifier) of
               None \<Rightarrow>
                 (None, analyzerError (location baseIdentifier)
                          (notDefinedTypeMessage (tokenText baseIdentifier)) st)
             | Some baseType \<Rightarrow>
                 (if \<not> isType (symbolStore st baseType)
                  then (None, analyzerError (location baseIdentifier)
                                (notClassOrInterfaceMessage (tokenText baseIdentifier)) st)
                  else (Some (ResolvedType baseType),
                        st\<lparr>referenceList := referenceList st @ [(baseType, baseIdentifier)]\<rparr>)));
          (bs, st2) = hoistBaseIdentifiers env scope rest st1
      in (b # bs, st2))"

definition hoistBaseList ::
  "HoistEnv \<Rightarrow> ScopePath \<Rightarrow> ParsedToken list \<Rightarrow> HoistState
     \<Rightarrow> ResolvedType option list option \<times> HoistState" where
  "hoistBaseList env scope nodeBaseList st =
     (if length nodeBaseList = 0 then (None, st)
      else (let (bs, st1) = hoistBaseIdentifiers env scope nodeBaseList st in (Some bs, st1)))"

text \<open>
  \<open>copyBaseMembers\<close>: three nested loops, over the base types, over the entries of the
  base scope's symbol table (as it stands when the loop over it starts) and over the
  symbols of each holder. \<open>membersScopePath\<close> is a property of type symbols only; read
  from any other symbol it is undefined.
\<close>

definition membersScopePathOf :: "SymbolObj \<Rightarrow> ScopePath option" where
  "membersScopePathOf symbol = (if isType symbol then membersScopePath symbol else None)"

definition isPrivateMember :: "SymbolObj \<Rightarrow> bool" where
  "isPrivateMember symbol =
     ((isFunction symbol \<or> isVariable symbol) \<and> accessRestriction symbol = Some Private)"

definition duplicatedSymbolMessage :: "string \<Rightarrow> string" where
  "duplicatedSymbolMessage k = ''Duplicated symbol '' @ [CHR 0x27] @ k @ [CHR 0x27]"

fun copyHolderSymbols :: "ScopePath \<Rightarrow> string \<Rightarrow> SymbolId list \<Rightarrow> HoistState \<Rightarrow> HoistState" where
  "copyHolderSymbols scope k [] st = st"
| "copyHolderSymbols scope k (symbol # rest) st =
     (if isPrivateMember (symbolStore st symbol) then copyHolderSymbols scope k rest st
      else (case insertSymbol scope symbol st of
              (None, st1) \<Rightarrow> copyHolderSymbols scope k rest st1
            | (Some alreadyExists, st1) \<Rightarrow>
                copyHolderSymbols scope k rest
                  (analyzerError
                     (location (identifierToken (symbolStore st1 (firstSymbol alreadyExists))))
                     (duplicatedSymbolMessage k) st1)))"

fun copyBaseEntries ::
  "ScopePath \<Rightarrow> (string \<times> SymbolHolder) list \<Rightarrow> HoistState \<Rightarrow> HoistState" where
  "copyBaseEntries scope [] st = st"
| "copyBaseEntries scope ((k, symbolHolder) # rest) st =
     (if k = ''this'' then copyBaseEntries scope rest st
      else copyBaseEntries scope rest (copyHolderSymbols scope k (toList symbolHolder) st))"

fun copyBaseMembers :: "ScopePath \<Rightarrow> ResolvedType option list \<Rightarrow> HoistState \<Rightarrow> HoistState" where
  "copyBaseMembers scope [] st = st"
| "copyBaseMembers scope (baseType # bases) st =
     (case baseType of
        None \<Rightarrow> copyBaseMembers scope bases st
      | Some b \<Rightarrow>
          (if isFunction (symbolStore st (typeOrFunc b)) then copyBaseMembers scope bases st
           else (case tryResolveActiveScope st (membersScopePathOf (symbolStore st (typeOrFunc b))) of
                   None \<Rightarrow> copyBaseMembers scope bases st
                 | Some baseScope \<Rightarrow>
                     copyBaseMembers scope bases
                       (copyBaseEntries scope (symbolTable (scopeStore st baseScope)) st))))"

fun hoistParamList ::
  "HoistEnv \<Rightarrow> ScopePath \<Rightarrow> NodeParamList \<Rightarrow> HoistState \<Rightarrow> ResolvedType option list \<times> HoistState" where
  "hoistParamList env scope [] st = ([], st)"
| "hoistParamList env scope (param # paramList) st =
     (let (t, st1) = callAnalyzeType env scope (paramType param) st;
          st2 = (case paramIdentifier param of
                   None \<Rightarrow> st1
                 | Some identifier \<Rightarrow>
                     (let (s, sa) = newSymbol (SymbolVariable identifier scope t False None) st1;
                          (ok, sb) = insertSymbolAndCheck scope s sa
                      in sb));
          (resolvedTypes, st3) = hoistParamList env scope paramList st2
      in (t # resolvedTypes, st3))"

definition propertyAccessorMessage :: string where
  "propertyAccessorMessage =
     ''Property accessor must start with '' @ [CHR 0x22] @ ''get_'' @ [CHR 0x22] @ '' or ''
       @ [CHR 0x22] @ ''set_'' @ [CHR 0x22]"

definition hasPropertyAttr :: "NodeFunc \<Rightarrow> bool" where
  "hasPropertyAttr nodeFunc = (case funcAttr nodeFunc of None \<Rightarrow> False | Some a \<Rightarrow> isProperty a)"

text \<open>
  \<open>hoistFunc\<close> in three parts, in the order of the source: the function-holder scope, the
  anonymous scope of the overload and the function symbol with its template types and
  return type, up to the insertion of the symbol into the parent scope
  (\<open>hoistFuncSymbol\<close>, which returns the symbol, the function scope, the return type and
  whether the insertion succeeded); the check for a virtual property setter or getter
  (\<open>hoistPropertyAccessor\<close>); and the two pushes.
\<close>

definition hoistFuncSymbol ::
  "HoistEnv \<Rightarrow> ScopePath \<Rightarrow> NodeFunc \<Rightarrow> bool \<Rightarrow> HoistState
     \<Rightarrow> (SymbolId \<times> ScopePath \<times> ResolvedType option \<times> bool) \<times> HoistState" where
  "hoistFuncSymbol env parentScope nodeFunc instanceMember st =
     (let (funcionHolderScope, st1) =
            insertScope parentScope (tokenText (funcIdentifier nodeFunc)) None st;
          (anonymous, st2) = nextAnonymousIdentifier st1;
          (functionScope, st3) =
            insertScope funcionHolderScope anonymous (Some (LinkedFunc nodeFunc)) st2;
          (symbol, st4) =
            newSymbol (SymbolFunction (funcIdentifier nodeFunc) parentScope None []
                         (Some (LinkedFunc nodeFunc)) (Some functionScope) instanceMember
                         (funcAccessor nodeFunc) None) st3;
          (templates, st5) = hoistClassTemplateTypes functionScope (funcTypeTemplates nodeFunc) st4;
          st6 = (if length templates > 0 then mutateSymbol symbol (assignTemplateTypes templates) st5
                 else st5);
          (rt, st7) =
            (case head nodeFunc of
               FuncHeadReturnValue t \<Rightarrow> callAnalyzeType env functionScope t st6
             | _ \<Rightarrow> (None, st6));
          st8 = mutateSymbol symbol (assignReturnType rt) st7;
          (ok, st9) = insertSymbolAndCheck parentScope symbol st8
      in ((symbol, functionScope, rt, ok), st9))"

definition hoistPropertyAccessor ::
  "HoistEnv \<Rightarrow> ScopePath \<Rightarrow> NodeFunc \<Rightarrow> ResolvedType option \<Rightarrow> bool \<Rightarrow> HoistState \<Rightarrow> HoistState" where
  "hoistPropertyAccessor env parentScope nodeFunc rt instanceMember st =
     (if startsWith (tokenText (funcIdentifier nodeFunc)) ''get_''
         \<or> startsWith (tokenText (funcIdentifier nodeFunc)) ''set_''
      then
        (if hasPropertyAttr nodeFunc \<or> \<not> explicitPropertyAccessor env
         then
           (let identifier =
                  createVirtual (drop 4 (tokenText (funcIdentifier nodeFunc)))
                    (funcIdentifier nodeFunc, funcIdentifier nodeFunc);
                (variable, sa) =
                  newSymbol (SymbolVariable identifier parentScope rt instanceMember
                               (funcAccessor nodeFunc)) st;
                (existing, sb) = insertSymbol parentScope variable sa
            in sb)
         else st)
      else if hasPropertyAttr nodeFunc
        then analyzerError (location (funcIdentifier nodeFunc)) propertyAccessorMessage st
      else st)"

definition hoistFunc ::
  "HoistEnv \<Rightarrow> ScopePath \<Rightarrow> NodeFunc \<Rightarrow> QueueRef \<Rightarrow> QueueRef \<Rightarrow> bool \<Rightarrow> HoistState \<Rightarrow> HoistState" where
  "hoistFunc env parentScope nodeFunc analyzeQueue hoistQueue instanceMember st =
     (if head nodeFunc = funcHeadDestructor then st
      else
        (let ((symbol, functionScope, rt, ok), st9) =
               hoistFuncSymbol env parentScope nodeFunc instanceMember st
         in if \<not> ok then st9
            else
              (let st10 = hoistPropertyAccessor env parentScope nodeFunc rt instanceMember st9;
                   st11 = pushTask hoistQueue
                            (TaskAssignParameterTypes symbol functionScope (funcParamList nodeFunc)) st10
               in pushTask analyzeQueue (TaskAnalyze (TaskAnalyzeFunc functionScope nodeFunc)) st11)))"

definition hoistVar ::
  "HoistEnv \<Rightarrow> ScopePath \<Rightarrow> NodeVar \<Rightarrow> QueueRef \<Rightarrow> bool \<Rightarrow> HoistState \<Rightarrow> HoistState" where
  "hoistVar env scope nodeVar analyzeQueue instanceMember st =
     (let (t, st1) = callAnalyzeType env scope (varType nodeVar) st;
          st2 = pushTask analyzeQueue (TaskAnalyze (TaskAnalyzeVarInitializers scope t nodeVar)) st1
      in insertVariables scope t nodeVar instanceMember st2)"

definition hoistFuncDef ::
  "ScopePath \<Rightarrow> NodeFuncDef \<Rightarrow> QueueRef \<Rightarrow> QueueRef \<Rightarrow> HoistState \<Rightarrow> HoistState" where
  "hoistFuncDef parentScope funcDef analyzeQueue hoistQueue st =
     (let (symbol, st1) =
            newSymbol (SymbolFunction (funcDefIdentifier funcDef) parentScope None []
                         (Some (LinkedFuncDef funcDef)) None False None None) st;
          (ok, st2) = insertSymbolAndCheck parentScope symbol st1
      in if \<not> ok then st2
         else pushTask hoistQueue (TaskFuncDefParameterTypes symbol parentScope funcDef)
                (pushTask hoistQueue (TaskFuncDefReturnType symbol parentScope funcDef) st2))"

definition hasStatBlock :: "ParsedGetterSetter option \<Rightarrow> NodeStatBlock option" where
  "hasStatBlock g = (case g of None \<Rightarrow> None | Some x \<Rightarrow> statBlock x)"

definition hoistVirtualProp ::
  "HoistEnv \<Rightarrow> ScopePath \<Rightarrow> NodeVirtualProp \<Rightarrow> QueueRef \<Rightarrow> QueueRef \<Rightarrow> bool \<Rightarrow> HoistState
     \<Rightarrow> HoistState" where
  "hoistVirtualProp env parentScope virtualProp analyzeQueue hoistQueue instanceMember st =
     (let (t, st1) = callAnalyzeType env parentScope (propType virtualProp) st;
          identifier = propIdentifier virtualProp;
          (symbol, st2) =
            newSymbol (SymbolVariable identifier parentScope t instanceMember
                         (propAccessor virtualProp)) st1;
          (ok, st3) = insertSymbolAndCheck parentScope symbol st2;
          st4 = (case hasStatBlock (getter virtualProp) of
                   None \<Rightarrow> st3
                 | Some block \<Rightarrow>
                     (let (getterScope, sa) =
                            insertScope parentScope (''get_'' @ tokenText identifier)
                              (Some (LinkedVirtualProp virtualProp)) st3
                      in pushTask analyzeQueue (TaskAnalyze (TaskAnalyzeStatBlock getterScope block)) sa))
      in case hasStatBlock (setter virtualProp) of
           None \<Rightarrow> st4
         | Some block \<Rightarrow>
             (let (setterScope, sa) =
                    insertScope parentScope (''set_'' @ tokenText identifier)
                      (Some (LinkedVirtualProp virtualProp)) st4;
                  sb = (case t of
                          None \<Rightarrow> sa
                        | Some rt \<Rightarrow>
                            (let (valueVariable, sc) =
                                   newSymbol (SymbolVariable builtinSetterValueToken parentScope
                                                (Some (ResolvedType (typeOrFunc rt))) False
                                                (propAccessor virtualProp)) sa;
                                 (ok2, sd) = insertSymbolAndCheck setterScope valueVariable sc
                             in sd))
              in pushTask analyzeQueue (TaskAnalyze (TaskAnalyzeStatBlock setterScope block)) sb))"

definition hoistIntfMethod :: "HoistEnv \<Rightarrow> ScopePath \<Rightarrow> NodeIntfMethod \<Rightarrow> HoistState \<Rightarrow> HoistState" where
  "hoistIntfMethod env parentScope intfMethod st =
     (let (rt, st1) = callAnalyzeType env parentScope (intfMethodReturnType intfMethod) st;
          (symbol, st2) =
            newSymbol (SymbolFunction (intfMethodIdentifier intfMethod) parentScope rt []
                         (Some (LinkedIntfMethod intfMethod)) None True None None) st1;
          (ok, st3) = insertSymbolAndCheck parentScope symbol st2
      in st3)"

definition hoistTypeDef :: "HoistEnv \<Rightarrow> ScopePath \<Rightarrow> NodeTypeDef \<Rightarrow> HoistState \<Rightarrow> HoistState" where
  "hoistTypeDef env parentScope typeDef st =
     (case tryGetBuiltinType env (typeDefType typeDef) of
        None \<Rightarrow> st
      | Some builtInLinkedNode \<Rightarrow>
          (let (symbol, st1) =
                 newSymbol (SymbolType (typeDefIdentifier typeDef) parentScope builtInLinkedNode
                              None None None False) st;
               (ok, st2) = insertSymbolAndCheck parentScope symbol st1
           in st2))"

fun hoistClassMemberList ::
  "HoistEnv \<Rightarrow> ScopePath \<Rightarrow> ClassMember list \<Rightarrow> QueueRef \<Rightarrow> QueueRef \<Rightarrow> HoistState \<Rightarrow> HoistState" where
  "hoistClassMemberList env scope [] analyzeQueue hoistQueue st = st"
| "hoistClassMemberList env scope (member # rest) analyzeQueue hoistQueue st =
     hoistClassMemberList env scope rest analyzeQueue hoistQueue
       (case member of
          MemberVirtualProp p \<Rightarrow> hoistVirtualProp env scope p analyzeQueue hoistQueue True st
        | MemberFunc f \<Rightarrow> hoistFunc env scope f analyzeQueue hoistQueue True st
        | MemberVar v \<Rightarrow> hoistVar env scope v analyzeQueue True st
        | MemberFuncDef d \<Rightarrow> hoistFuncDef scope d analyzeQueue hoistQueue st)"

definition hoistClassMembers ::
  "HoistEnv \<Rightarrow> ScopePath \<Rightarrow> NodeClass \<Rightarrow> QueueRef \<Rightarrow> QueueRef \<Rightarrow> HoistState \<Rightarrow> HoistState" where
  "hoistClassMembers env scope nodeClass analyzeQueue hoistQueue st =
     hoistClassMemberList env scope (classMemberList nodeClass) analyzeQueue hoistQueue st"

fun hoistInterfaceMemberList ::
  "HoistEnv \<Rightarrow> ScopePath \<Rightarrow> InterfaceMember list \<Rightarrow> QueueRef \<Rightarrow> QueueRef \<Rightarrow> HoistState
     \<Rightarrow> HoistState" where
  "hoistInterfaceMemberList env scope [] analyzeQueue hoistQueue st = st"
| "hoistInterfaceMemberList env scope (member # rest) analyzeQueue hoistQueue st =
     hoistInterfaceMemberList env scope rest analyzeQueue hoistQueue
       (case member of
          IntfMemberVirtualProp p \<Rightarrow> hoistVirtualProp env scope p analyzeQueue hoistQueue True st
        | IntfMemberMethod m \<Rightarrow> hoistIntfMethod env scope m st)"

definition hoistInterfaceMembers ::
  "HoistEnv \<Rightarrow> ScopePath \<Rightarrow> NodeInterface \<Rightarrow> QueueRef \<Rightarrow> QueueRef \<Rightarrow> HoistState \<Rightarrow> HoistState" where
  "hoistInterfaceMembers env scope nodeInterface analyzeQueue hoistQueue st =
     hoistInterfaceMemberList env scope (interfaceMemberList nodeInterface) analyzeQueue hoistQueue st"

definition hoistClass ::
  "HoistEnv \<Rightarrow> ScopePath \<Rightarrow> NodeClass \<Rightarrow> QueueRef \<Rightarrow> QueueRef \<Rightarrow> HoistState \<Rightarrow> HoistState" where
  "hoistClass env parentScope nodeClass analyzeQueue hoistQueue st =
     (let (symbol, st1) =
            newSymbol (SymbolType (classIdentifier nodeClass) parentScope
                         (Some (LinkedClass nodeClass)) None None None False) st;
          (ok, st2) = insertSymbolAndCheck parentScope symbol st1
      in if \<not> ok then st2
         else
           (let (scope, st3) = insertScopeAndCheck parentScope (classIdentifier nodeClass)
                                 (Some (LinkedClass nodeClass)) st2;
                st4 = mutateSymbol symbol (assignMembersScopePath scope) st3;
                (thisVariable, st5) =
                  newSymbol (SymbolVariable builtinThisToken parentScope
                               (Some (ResolvedType symbol)) False (Some Private)) st4;
                (ok2, st6) = insertSymbolAndCheck scope thisVariable st5;
                (templates, st7) = hoistClassTemplateTypes scope (classTypeTemplates nodeClass) st6;
                st8 = (if length templates > 0
                       then mutateSymbol symbol (assignTemplateTypes templates) st7 else st7);
                (bases, st9) = hoistBaseList env scope (classBaseList nodeClass) st8;
                st10 = mutateSymbol symbol (assignBaseList bases) st9;
                st11 = pushTask hoistQueue
                         (TaskHoistClassMembers scope nodeClass analyzeQueue hoistQueue symbol) st10
            in pushScopeRegionInfo scope (classNodeRange nodeClass) st11))"

definition hoistMixin ::
  "HoistEnv \<Rightarrow> ScopePath \<Rightarrow> NodeClass \<Rightarrow> QueueRef \<Rightarrow> QueueRef \<Rightarrow> HoistState \<Rightarrow> HoistState" where
  "hoistMixin env parentScope mixinClass analyzeQueue hoistQueue st =
     hoistClass env parentScope mixinClass analyzeQueue hoistQueue st"

definition hoistInterface ::
  "HoistEnv \<Rightarrow> ScopePath \<Rightarrow> NodeInterface \<Rightarrow> QueueRef \<Rightarrow> QueueRef \<Rightarrow> HoistState \<Rightarrow> HoistState" where
  "hoistInterface env parentScope nodeInterface analyzeQueue hoistQueue st =
     (let (symbol, st1) =
            newSymbol (SymbolType (interfaceIdentifier nodeInterface) parentScope
                         (Some (LinkedInterface nodeInterface)) None None None False) st;
          (ok, st2) = insertSymbolAndCheck parentScope symbol st1
      in if \<not> ok then st2
         else
           (let (scope, st3) = insertScopeAndCheck parentScope (interfaceIdentifier nodeInterface)
                                 (Some (LinkedInterface nodeInterface)) st2;
                st4 = mutateSymbol symbol (assignMembersScopePath scope) st3;
                (bases, st5) = hoistBaseList env scope (interfaceBaseList nodeInterface) st4;
                st6 = (if bases \<noteq> None then mutateSymbol symbol (assignBaseList bases) st5 else st5);
                st7 = pushTask hoistQueue
                        (TaskHoistInterfaceMembers scope nodeInterface analyzeQueue hoistQueue bases) st6
            in pushScopeRegionInfo scope (interfaceNodeRange nodeInterface) st7))"

fun insertNamespaceScopes ::
  "ScopePath \<Rightarrow> ParsedToken list \<Rightarrow> NodeRange \<Rightarrow> HoistState \<Rightarrow> ScopePath \<times> HoistState" where
  "insertNamespaceScopes scopeIterator [] nodeNamespace st = (scopeIterator, st)"
| "insertNamespaceScopes scopeIterator (namespaceToken # rest) nodeNamespace st =
     (let (next, st1) = insertScopeAndCheck scopeIterator namespaceToken None st
      in insertNamespaceScopes next rest nodeNamespace
           (pushNamespaceNode next nodeNamespace namespaceToken st1))"

text \<open>
  \<open>hoistScript\<close> and \<open>hoistNamespace\<close> call each other. \<open>hoistNamespace\<close> receives one
  queue and hands it to \<open>hoistScript\<close> both as the analyze queue and as the hoist queue.
\<close>

fun hoistScript ::
  "HoistEnv \<Rightarrow> ScopePath \<Rightarrow> Statement list \<Rightarrow> QueueRef \<Rightarrow> QueueRef \<Rightarrow> HoistState \<Rightarrow> HoistState"
and hoistStatement ::
  "HoistEnv \<Rightarrow> ScopePath \<Rightarrow> Statement \<Rightarrow> QueueRef \<Rightarrow> QueueRef \<Rightarrow> HoistState \<Rightarrow> HoistState"
and hoistNamespace ::
  "HoistEnv \<Rightarrow> ScopePath \<Rightarrow> ParsedToken list \<Rightarrow> Statement list \<Rightarrow> NodeRange \<Rightarrow> QueueRef
     \<Rightarrow> HoistState \<Rightarrow> HoistState" where
  "hoistScript env parentScope [] analyzeQueue hoistQueue st = st"
| "hoistScript env parentScope (statement # ast) analyzeQueue hoistQueue st =
     hoistScript env parentScope ast analyzeQueue hoistQueue
       (hoistStatement env parentScope statement analyzeQueue hoistQueue st)"
| "hoistStatement env parentScope (Enum n) analyzeQueue hoistQueue st = hoistEnum parentScope n st"
| "hoistStatement env parentScope (TypeDef n) analyzeQueue hoistQueue st =
     hoistTypeDef env parentScope n st"
| "hoistStatement env parentScope (Class n) analyzeQueue hoistQueue st =
     hoistClass env parentScope n analyzeQueue hoistQueue st"
| "hoistStatement env parentScope (Mixin n) analyzeQueue hoistQueue st =
     hoistMixin env parentScope n analyzeQueue hoistQueue st"
| "hoistStatement env parentScope (Interface n) analyzeQueue hoistQueue st =
     hoistInterface env parentScope n analyzeQueue hoistQueue st"
| "hoistStatement env parentScope (FuncDef n) analyzeQueue hoistQueue st =
     hoistFuncDef parentScope n analyzeQueue hoistQueue st"
| "hoistStatement env parentScope (VirtualProp n) analyzeQueue hoistQueue st =
     hoistVirtualProp env parentScope n analyzeQueue hoistQueue False st"
| "hoistStatement env parentScope (Var n) analyzeQueue hoistQueue st =
     hoistVar env parentScope n analyzeQueue False st"
| "hoistStatement env parentScope (Func n) analyzeQueue hoistQueue st =
     hoistFunc env parentScope n analyzeQueue hoistQueue False st"
| "hoistStatement env parentScope (Namespace namespaceList script nodeRange) analyzeQueue hoistQueue st =
     hoistNamespace env parentScope namespaceList script nodeRange analyzeQueue st"
| "hoistStatement env parentScope OtherStatement analyzeQueue hoistQueue st = st"
| "hoistNamespace env parentScope namespaceList script nodeRange queue st =
     (if length namespaceList = 0 then st
      else (let (scopeIterator, st1) = insertNamespaceScopes parentScope namespaceList nodeRange st;
                st2 = hoistScript env scopeIterator script queue queue st1
            in pushScopeRegionInfo scopeIterator nodeRange st2))"

text \<open>
  The closures. The second deferred step of a class copies the base members and then
  inserts the \<open>super\<close> constructors: one clone per constructor of the first base, renamed
  to \<open>super\<close> and made private. \<open>baseList\<close> is a property of type symbols only.
\<close>

definition baseListOf :: "SymbolObj \<Rightarrow> ResolvedType option list option" where
  "baseListOf symbol = (if isType symbol then baseList symbol else None)"

fun cloneAsSuper :: "SymbolObj \<Rightarrow> SymbolObj" where
  "cloneAsSuper (SymbolFunction t sp rt pts ln fs im ar tt) =
     SymbolFunction (createVirtual ''super'' (t, t)) sp rt pts ln fs im (Some Private) tt"
| "cloneAsSuper (SymbolVariable t sp vt im ar) =
     SymbolVariable (createVirtual ''super'' (t, t)) sp vt im (Some Private)"
| "cloneAsSuper (SymbolType t sp ln ms tt bl tp) =
     SymbolType (createVirtual ''super'' (t, t)) sp ln ms tt bl tp"

fun insertSuperConstructors :: "ScopePath \<Rightarrow> SymbolId list \<Rightarrow> HoistState \<Rightarrow> HoistState" where
  "insertSuperConstructors scope [] st = st"
| "insertSuperConstructors scope (baseConstructor # rest) st =
     (let (superConstructor, st1) = newSymbol (cloneAsSuper (symbolStore st baseConstructor)) st;
          (existing, st2) = insertSymbol scope superConstructor st1
      in insertSuperConstructors scope rest st2)"

definition copyBaseAndSuper :: "HoistEnv \<Rightarrow> ScopePath \<Rightarrow> SymbolId \<Rightarrow> HoistState \<Rightarrow> HoistState" where
  "copyBaseAndSuper env scope symbol st =
     (case baseListOf (symbolStore st symbol) of
        None \<Rightarrow> st
      | Some bases \<Rightarrow>
          (let st1 = copyBaseMembers scope bases st;
               primeBase = (if length bases \<ge> 1 then bases ! 0 else None)
           in case findConstructorOfType env (AnalyzerData.truncate st1) primeBase of
                None \<Rightarrow> st1
              | Some baseConstructorHolder \<Rightarrow>
                  (if isFunctionHolder baseConstructorHolder
                   then insertSuperConstructors scope (toList baseConstructorHolder) st1
                   else st1)))"

fun analyzeParamTypes ::
  "HoistEnv \<Rightarrow> ScopePath \<Rightarrow> NodeParamList \<Rightarrow> HoistState \<Rightarrow> ResolvedType option list \<times> HoistState" where
  "analyzeParamTypes env scope [] st = ([], st)"
| "analyzeParamTypes env scope (param # rest) st =
     (let (t, st1) = callAnalyzeType env scope (paramType param) st;
          (ts, st2) = analyzeParamTypes env scope rest st1
      in (t # ts, st2))"

text \<open>
  An analyze closure runs a body function of the analyzer on the data; the queues stay as
  they are.
\<close>

definition installData :: "AnalyzerData \<Rightarrow> HoistState \<Rightarrow> HoistState" where
  "installData d st =
     st\<lparr>scopeStore := scopeStore d, symbolStore := symbolStore d, nextSymbol := nextSymbol d,
        diagnostics := diagnostics d, referenceList := referenceList d,
        scopeRegions := scopeRegions d, uniqueIdentifier := uniqueIdentifier d\<rparr>"

fun runTask :: "HoistEnv \<Rightarrow> Task \<Rightarrow> HoistState \<Rightarrow> HoistState" where
  "runTask env (TaskHoistClassMembers scope nodeClass analyzeQueue hoistQueue symbol) st =
     pushTask hoistQueue (TaskCopyBaseAndSuper scope symbol)
       (hoistClassMembers env scope nodeClass analyzeQueue hoistQueue st)"
| "runTask env (TaskCopyBaseAndSuper scope symbol) st = copyBaseAndSuper env scope symbol st"
| "runTask env (TaskHoistInterfaceMembers scope nodeInterface analyzeQueue hoistQueue bases) st =
     (let st1 = hoistInterfaceMembers env scope nodeInterface analyzeQueue hoistQueue st
      in case bases of None \<Rightarrow> st1 | Some bs \<Rightarrow> copyBaseMembers scope bs st1)"
| "runTask env (TaskAssignParameterTypes symbol functionScope paramList) st =
     (let (ts, st1) = hoistParamList env functionScope paramList st
      in mutateSymbol symbol (assignParameterTypes ts) st1)"
| "runTask env (TaskFuncDefReturnType symbol parentScope funcDef) st =
     (let (t, st1) = callAnalyzeType env parentScope (funcDefReturnType funcDef) st
      in mutateSymbol symbol (assignReturnType t) st1)"
| "runTask env (TaskFuncDefParameterTypes symbol parentScope funcDef) st =
     (let (ts, st1) = analyzeParamTypes env parentScope (funcDefParamList funcDef) st
      in mutateSymbol symbol (assignParameterTypes ts) st1)"
| "runTask env (TaskAnalyze t) st = installData (runAnalyzeTask env t (AnalyzerData.truncate st)) st"

section \<open>Hoisting (hoist.ts): \<open>hoistAfterParsed\<close>\<close>

text \<open>
  The weight of a closure bounds the number of closures that running it, and then running
  what it pushed, can add to a queue: a class-members step pushes at most two closures per
  member and then the base-copy step; every other closure pushes nothing that pushes again.
\<close>

fun memberWeight :: "ClassMember \<Rightarrow> nat" where
  "memberWeight (MemberVirtualProp p) = 2"
| "memberWeight (MemberFunc f) = 2"
| "memberWeight (MemberVar v) = 1"
| "memberWeight (MemberFuncDef d) = 2"

fun interfaceMemberWeight :: "InterfaceMember \<Rightarrow> nat" where
  "interfaceMemberWeight (IntfMemberVirtualProp p) = 2"
| "interfaceMemberWeight (IntfMemberMethod m) = 0"

fun taskWeight :: "Task \<Rightarrow> nat" where
  "taskWeight (TaskHoistClassMembers scope nodeClass analyzeQueue hoistQueue symbol) =
     2 + sum_list (map memberWeight (classMemberList nodeClass))"
| "taskWeight (TaskHoistInterfaceMembers scope nodeInterface analyzeQueue hoistQueue bases) =
     1 + sum_list (map interfaceMemberWeight (interfaceMemberList nodeInterface))"
| "taskWeight (TaskCopyBaseAndSuper scope symbol) = 1"
| "taskWeight (TaskAssignParameterTypes symbol functionScope paramList) = 1"
| "taskWeight (TaskFuncDefReturnType symbol parentScope funcDef) = 1"
| "taskWeight (TaskFuncDefParameterTypes symbol parentScope funcDef) = 1"
| "taskWeight (TaskAnalyze t) = 1"

definition queueWeight :: "Task list \<Rightarrow> nat" where
  "queueWeight ts = sum_list (map taskWeight ts)"

text \<open>
  The loop of \<open>hoistAfterParsed\<close>: while the hoist queue is not empty, shift its first
  closure and run it. A closure may push on the queue it is being drained from.
\<close>

function drainHoistQueue :: "HoistEnv \<Rightarrow> HoistState \<Rightarrow> HoistState" where
  "drainHoistQueue env st =
     (case hoistArray st of
        [] \<Rightarrow> st
      | next # rest \<Rightarrow> drainHoistQueue env (runTask env next (st\<lparr>hoistArray := rest\<rparr>)))"
  by pat_completeness auto

text \<open>What each operation does to the two queues.\<close>

lemma queues_analyzerError [simp]:
  "hoistArray (analyzerError loc msg st) = hoistArray st"
  "analyzeArray (analyzerError loc msg st) = analyzeArray st"
  by (simp_all add: analyzerError_def)

lemma queues_putScope [simp]:
  "hoistArray (putScope p scope st) = hoistArray st"
  "analyzeArray (putScope p scope st) = analyzeArray st"
  by (simp_all add: putScope_def)

lemma queues_putSymbol [simp]:
  "hoistArray (putSymbol s symbol st) = hoistArray st"
  "analyzeArray (putSymbol s symbol st) = analyzeArray st"
  by (simp_all add: putSymbol_def)

lemma queues_mutateSymbol [simp]:
  "hoistArray (mutateSymbol s f st) = hoistArray st"
  "analyzeArray (mutateSymbol s f st) = analyzeArray st"
  by (simp_all add: mutateSymbol_def)

lemma queues_newSymbol [simp]:
  "hoistArray (snd (newSymbol symbol st)) = hoistArray st"
  "analyzeArray (snd (newSymbol symbol st)) = analyzeArray st"
  by (simp_all add: newSymbol_def)

lemma queues_insertScope [simp]:
  "hoistArray (snd (insertScope p identifier node st)) = hoistArray st"
  "analyzeArray (snd (insertScope p identifier node st)) = analyzeArray st"
  by (simp_all add: insertScope_def Let_def)

lemma queues_insertScopeAndCheck [simp]:
  "hoistArray (snd (insertScopeAndCheck p tok node st)) = hoistArray st"
  "analyzeArray (snd (insertScopeAndCheck p tok node st)) = analyzeArray st"
  using queues_insertScope[of p "tokenText tok" node st]
  by (simp_all add: insertScopeAndCheck_def Let_def split_def del: queues_insertScope)

lemma queues_setSymbolTable [simp]:
  "hoistArray (setSymbolTable p table st) = hoistArray st"
  "analyzeArray (setSymbolTable p table st) = analyzeArray st"
  by (simp_all add: setSymbolTable_def)

lemma queues_insertSymbol [simp]:
  "hoistArray (snd (insertSymbol p s st)) = hoistArray st"
  "analyzeArray (snd (insertSymbol p s st)) = analyzeArray st"
  by (simp_all add: insertSymbol_def Let_def split: option.splits)

lemma queues_insertSymbolAndCheck [simp]:
  "hoistArray (snd (insertSymbolAndCheck p s st)) = hoistArray st"
  "analyzeArray (snd (insertSymbolAndCheck p s st)) = analyzeArray st"
  using queues_insertSymbol[of p s st]
  by (auto simp: insertSymbolAndCheck_def split: prod.splits option.splits simp del: queues_insertSymbol)

lemma queues_pushNamespaceNode [simp]:
  "hoistArray (pushNamespaceNode p node tok st) = hoistArray st"
  "analyzeArray (pushNamespaceNode p node tok st) = analyzeArray st"
  by (simp_all add: pushNamespaceNode_def)

lemma queues_pushScopeRegionInfo [simp]:
  "hoistArray (pushScopeRegionInfo p r st) = hoistArray st"
  "analyzeArray (pushScopeRegionInfo p r st) = analyzeArray st"
  by (simp_all add: pushScopeRegionInfo_def)

lemma queues_callAnalyzeType [simp]:
  "hoistArray (snd (callAnalyzeType env p t st)) = hoistArray st"
  "analyzeArray (snd (callAnalyzeType env p t st)) = analyzeArray st"
  by (simp_all add: callAnalyzeType_def split_def Let_def)

lemma queues_nextAnonymousIdentifier [simp]:
  "hoistArray (snd (nextAnonymousIdentifier st)) = hoistArray st"
  "analyzeArray (snd (nextAnonymousIdentifier st)) = analyzeArray st"
  by (simp_all add: nextAnonymousIdentifier_def split_def Let_def)

lemma queues_installData [simp]:
  "hoistArray (installData d st) = hoistArray st"
  "analyzeArray (installData d st) = analyzeArray st"
  by (simp_all add: installData_def)

lemma queues_insertVariableList [simp]:
  "hoistArray (insertVariableList p t acc inst vs st) = hoistArray st"
  "analyzeArray (insertVariableList p t acc inst vs st) = analyzeArray st"
  by (induction vs arbitrary: st; simp add: split_def Let_def)+

lemma queues_hoistTemplateTypeList [simp]:
  "hoistArray (snd (hoistTemplateTypeList scope types st)) = hoistArray st"
  "analyzeArray (snd (hoistTemplateTypeList scope types st)) = analyzeArray st"
  by (induction types arbitrary: st; simp add: split_def Let_def)+

lemma queues_hoistClassTemplateTypes [simp]:
  "hoistArray (snd (hoistClassTemplateTypes scope types st)) = hoistArray st"
  "analyzeArray (snd (hoistClassTemplateTypes scope types st)) = analyzeArray st"
  by (simp_all add: hoistClassTemplateTypes_def)

lemma queues_copyHolderSymbols [simp]:
  "hoistArray (copyHolderSymbols scope k ss st) = hoistArray st"
  "analyzeArray (copyHolderSymbols scope k ss st) = analyzeArray st"
proof (induction ss arbitrary: st)
  case Nil
  { case 1 show ?case by simp next case 2 show ?case by simp }
next
  case (Cons s ss)
  { case 1
    show ?case
      using queues_insertSymbol(1)[of scope s st]
      by (auto simp: Cons.IH split: prod.splits option.splits simp del: queues_insertSymbol)
  next
    case 2
    show ?case
      using queues_insertSymbol(2)[of scope s st]
      by (auto simp: Cons.IH split: prod.splits option.splits simp del: queues_insertSymbol) }
qed

lemma queues_copyBaseEntries [simp]:
  "hoistArray (copyBaseEntries scope entries st) = hoistArray st"
  "analyzeArray (copyBaseEntries scope entries st) = analyzeArray st"
  by (induction scope entries st rule: copyBaseEntries.induct; simp)+

lemma queues_copyBaseMembers [simp]:
  "hoistArray (copyBaseMembers scope bases st) = hoistArray st"
  "analyzeArray (copyBaseMembers scope bases st) = analyzeArray st"
  by (induction scope bases st rule: copyBaseMembers.induct; simp split: option.splits)+

lemma queues_hoistParamList [simp]:
  "hoistArray (snd (hoistParamList env scope ps st)) = hoistArray st"
  "analyzeArray (snd (hoistParamList env scope ps st)) = analyzeArray st"
  by (induction ps arbitrary: st; simp add: split_def Let_def split: option.splits)+

lemma queues_analyzeParamTypes [simp]:
  "hoistArray (snd (analyzeParamTypes env scope ps st)) = hoistArray st"
  "analyzeArray (snd (analyzeParamTypes env scope ps st)) = analyzeArray st"
  by (induction ps arbitrary: st; simp add: split_def Let_def)+

lemma queues_insertSuperConstructors [simp]:
  "hoistArray (insertSuperConstructors scope cs st) = hoistArray st"
  "analyzeArray (insertSuperConstructors scope cs st) = analyzeArray st"
  by (induction cs arbitrary: st; simp add: split_def Let_def)+

lemma queues_copyBaseAndSuper [simp]:
  "hoistArray (copyBaseAndSuper env scope symbol st) = hoistArray st"
  "analyzeArray (copyBaseAndSuper env scope symbol st) = analyzeArray st"
  by (simp_all add: copyBaseAndSuper_def Let_def split: option.splits)

lemma queues_insertVariables [simp]:
  "hoistArray (insertVariables p t nodeVar inst st) = hoistArray st"
  "analyzeArray (insertVariables p t nodeVar inst st) = analyzeArray st"
  by (simp_all add: insertVariables_def)

lemma queues_hoistIntfMethod [simp]:
  "hoistArray (hoistIntfMethod env scope m st) = hoistArray st"
  "analyzeArray (hoistIntfMethod env scope m st) = analyzeArray st"
  by (simp_all add: hoistIntfMethod_def split_def Let_def)

text \<open>A push adds one closure; the weight of the hoist queue grows by at most its weight.\<close>

lemma queueWeight_append [simp]: "queueWeight (xs @ ys) = queueWeight xs + queueWeight ys"
  by (simp add: queueWeight_def)

lemma queueWeight_Cons [simp]: "queueWeight (x # xs) = taskWeight x + queueWeight xs"
  by (simp add: queueWeight_def)

lemma queueWeight_Nil [simp]: "queueWeight [] = 0"
  by (simp add: queueWeight_def)

lemma hoistArray_pushTask [simp]:
  "hoistArray (pushTask q t st) = (if q = HoistArray then hoistArray st @ [t] else hoistArray st)"
  by (cases q) (simp_all add: pushTask_def)

lemma analyzeArray_pushTask [simp]:
  "analyzeArray (pushTask q t st) = (if q = AnalyzeArray then analyzeArray st @ [t] else analyzeArray st)"
  by (cases q) (simp_all add: pushTask_def)

lemma queues_insertScope_eq:
  "insertScope p i node st = (c, st') \<Longrightarrow>
     hoistArray st' = hoistArray st \<and> analyzeArray st' = analyzeArray st"
  using queues_insertScope[of p i node st] by simp

lemma queues_insertScopeAndCheck_eq:
  "insertScopeAndCheck p tok node st = (c, st') \<Longrightarrow>
     hoistArray st' = hoistArray st \<and> analyzeArray st' = analyzeArray st"
  using queues_insertScopeAndCheck[of p tok node st] by simp

lemma queues_insertSymbol_eq:
  "insertSymbol p s st = (r, st') \<Longrightarrow>
     hoistArray st' = hoistArray st \<and> analyzeArray st' = analyzeArray st"
  using queues_insertSymbol[of p s st] by simp

lemma queues_insertSymbolAndCheck_eq:
  "insertSymbolAndCheck p s st = (r, st') \<Longrightarrow>
     hoistArray st' = hoistArray st \<and> analyzeArray st' = analyzeArray st"
  using queues_insertSymbolAndCheck[of p s st] by simp

lemma queues_newSymbol_eq:
  "newSymbol symbol st = (s, st') \<Longrightarrow>
     hoistArray st' = hoistArray st \<and> analyzeArray st' = analyzeArray st"
  using queues_newSymbol[of symbol st] by simp

lemma queues_callAnalyzeType_eq:
  "callAnalyzeType env p t st = (r, st') \<Longrightarrow>
     hoistArray st' = hoistArray st \<and> analyzeArray st' = analyzeArray st"
  using queues_callAnalyzeType[of env p t st] by simp

lemma queues_nextAnonymousIdentifier_eq:
  "nextAnonymousIdentifier st = (r, st') \<Longrightarrow>
     hoistArray st' = hoistArray st \<and> analyzeArray st' = analyzeArray st"
  using queues_nextAnonymousIdentifier[of st] by simp

lemma queues_hoistClassTemplateTypes_eq:
  "hoistClassTemplateTypes scope types st = (r, st') \<Longrightarrow>
     hoistArray st' = hoistArray st \<and> analyzeArray st' = analyzeArray st"
  using queues_hoistClassTemplateTypes[of scope types st] by simp

lemmas queues_eqs =
  queues_insertScope_eq queues_insertScopeAndCheck_eq queues_insertSymbol_eq
  queues_insertSymbolAndCheck_eq queues_newSymbol_eq queues_callAnalyzeType_eq
  queues_nextAnonymousIdentifier_eq queues_hoistClassTemplateTypes_eq

lemma queues_hoistFuncSymbol [simp]:
  "hoistArray (snd (hoistFuncSymbol env scope f inst st)) = hoistArray st"
  "analyzeArray (snd (hoistFuncSymbol env scope f inst st)) = analyzeArray st"
  unfolding hoistFuncSymbol_def Let_def
  by (auto split: prod.splits FuncHead.splits dest!: queues_eqs)

lemma queues_hoistPropertyAccessor [simp]:
  "hoistArray (hoistPropertyAccessor env scope f rt inst st) = hoistArray st"
  "analyzeArray (hoistPropertyAccessor env scope f rt inst st) = analyzeArray st"
  unfolding hoistPropertyAccessor_def Let_def
  by (auto split: prod.splits dest!: queues_eqs)

lemma weight_hoistFunc:
  "queueWeight (hoistArray (hoistFunc env scope f aq hq inst st)) \<le> queueWeight (hoistArray st) + 2"
proof -
  obtain r st9 where e: "hoistFuncSymbol env scope f inst st = (r, st9)"
    by (cases "hoistFuncSymbol env scope f inst st")
  then have "hoistArray st9 = hoistArray st"
    using queues_hoistFuncSymbol(1)[of env scope f inst st] by simp
  then show ?thesis
    by (simp add: hoistFunc_def Let_def e split: prod.splits)
qed

lemma weight_hoistVar:
  "queueWeight (hoistArray (hoistVar env scope v aq inst st)) \<le> queueWeight (hoistArray st) + 1"
  unfolding hoistVar_def Let_def
  by (auto split: prod.splits dest!: queues_eqs)

lemma weight_hoistFuncDef:
  "queueWeight (hoistArray (hoistFuncDef scope d aq hq st)) \<le> queueWeight (hoistArray st) + 2"
  unfolding hoistFuncDef_def Let_def
  by (auto split: prod.splits dest!: queues_eqs)

lemma weight_hoistVirtualProp:
  "queueWeight (hoistArray (hoistVirtualProp env scope p aq hq inst st)) \<le> queueWeight (hoistArray st) + 2"
  unfolding hoistVirtualProp_def Let_def
  by (auto split: prod.splits option.splits dest!: queues_eqs)

lemma weight_hoistClassMemberList:
  "queueWeight (hoistArray (hoistClassMemberList env scope ms aq hq st))
     \<le> queueWeight (hoistArray st) + sum_list (map memberWeight ms)"
proof (induction ms arbitrary: st)
  case Nil
  then show ?case by simp
next
  case (Cons m ms)
  show ?case
  proof (cases m)
    case (MemberVirtualProp p)
    then show ?thesis
      using Cons.IH[of "hoistVirtualProp env scope p aq hq True st"]
        weight_hoistVirtualProp[of env scope p aq hq True st] by simp
  next
    case (MemberFunc f)
    then show ?thesis
      using Cons.IH[of "hoistFunc env scope f aq hq True st"]
        weight_hoistFunc[of env scope f aq hq True st] by simp
  next
    case (MemberVar v)
    then show ?thesis
      using Cons.IH[of "hoistVar env scope v aq True st"]
        weight_hoistVar[of env scope v aq True st] by simp
  next
    case (MemberFuncDef d)
    then show ?thesis
      using Cons.IH[of "hoistFuncDef scope d aq hq st"]
        weight_hoistFuncDef[of scope d aq hq st] by simp
  qed
qed

lemma weight_hoistInterfaceMemberList:
  "queueWeight (hoistArray (hoistInterfaceMemberList env scope ms aq hq st))
     \<le> queueWeight (hoistArray st) + sum_list (map interfaceMemberWeight ms)"
proof (induction ms arbitrary: st)
  case Nil
  then show ?case by simp
next
  case (Cons m ms)
  show ?case
  proof (cases m)
    case (IntfMemberVirtualProp p)
    then show ?thesis
      using Cons.IH[of "hoistVirtualProp env scope p aq hq True st"]
        weight_hoistVirtualProp[of env scope p aq hq True st] by simp
  next
    case (IntfMemberMethod x)
    then show ?thesis
      using Cons.IH[of "hoistIntfMethod env scope x st"] by simp
  qed
qed

lemma weight_runTask:
  "queueWeight (hoistArray (runTask env t st)) < queueWeight (hoistArray st) + taskWeight t"
proof (cases t)
  case (TaskHoistClassMembers scope nodeClass aq hq symbol)
  then show ?thesis
    using weight_hoistClassMemberList[of env scope "classMemberList nodeClass" aq hq st]
    by (auto simp: hoistClassMembers_def)
next
  case (TaskHoistInterfaceMembers scope nodeInterface aq hq bases)
  then show ?thesis
    using weight_hoistInterfaceMemberList[of env scope "interfaceMemberList nodeInterface" aq hq st]
    by (simp add: hoistInterfaceMembers_def Let_def split: option.splits)
qed (simp_all add: split_def Let_def)

termination drainHoistQueue
proof (relation "measure (\<lambda>(env, st). queueWeight (hoistArray st))")
  show "wf (measure (\<lambda>(env, st). queueWeight (hoistArray st)))" by simp
next
  fix env :: HoistEnv and st :: HoistState and x21 x22
  assume h: "hoistArray st = x21 # x22"
  have "queueWeight (hoistArray (runTask env x21 (st\<lparr>hoistArray := x22\<rparr>)))
          < queueWeight (hoistArray (st\<lparr>hoistArray := x22\<rparr>)) + taskWeight x21"
    by (rule weight_runTask)
  then show "((env, runTask env x21 (st\<lparr>hoistArray := x22\<rparr>)), env, st)
               \<in> measure (\<lambda>(env, st). queueWeight (hoistArray st))"
    using h by simp
qed

text \<open>
  \<open>hoistAfterParsed\<close> starts with two empty queues, walks the script from the global
  scope (the empty path) and drains the hoist queue. Its result, the global scope and the
  analyze queue, is the final state.
\<close>

definition startHoist :: "AnalyzerData \<Rightarrow> HoistState" where
  "startHoist d =
     \<lparr>scopeStore = scopeStore d, symbolStore = symbolStore d, nextSymbol = nextSymbol d,
      diagnostics = diagnostics d, referenceList = referenceList d,
      scopeRegions = scopeRegions d, uniqueIdentifier = uniqueIdentifier d,
      hoistArray = [], analyzeArray = []\<rparr>"

definition hoistAfterParsed :: "HoistEnv \<Rightarrow> NodeScript \<Rightarrow> AnalyzerData \<Rightarrow> HoistState" where
  "hoistAfterParsed env ast globalScope =
     drainHoistQueue env (hoistScript env [] ast AnalyzeArray HoistArray (startHoist globalScope))"

section \<open>Hoisting: what a scope holds and what its bases offer\<close>

text \<open>
  The symbols of a scope are the symbols of the holders of its table. The members of a
  list of bases are the pairs (table key, symbol) of the symbol tables of the base
  scopes, for the bases that \<open>copyBaseMembers\<close> looks at: resolved, not a function, and
  with a members scope that resolves.
\<close>

definition scopeSymbols :: "HoistState \<Rightarrow> ScopePath \<Rightarrow> SymbolId list" where
  "scopeSymbols st p = concat (map (\<lambda>e. toList (snd e)) (symbolTable (scopeStore st p)))"





text \<open>The overloads that a scope holds under the name \<open>super\<close>.\<close>

definition superOverloads :: "HoistState \<Rightarrow> ScopePath \<Rightarrow> SymbolId list" where
  "superOverloads st scope =
     (case lookupSymbol st scope ''super'' of None \<Rightarrow> [] | Some h \<Rightarrow> toList h)"

text \<open>
  Inserting symbols changes the symbol table of one scope and nothing else: the symbol
  objects, the other scopes and the child tables (so the resolution of scope paths) stay.
\<close>

definition tableChangeOnly :: "ScopePath \<Rightarrow> HoistState \<Rightarrow> HoistState \<Rightarrow> bool" where
  "tableChangeOnly scope st st' =
     (symbolStore st' = symbolStore st \<and> nextSymbol st' = nextSymbol st
      \<and> (\<forall>q. q \<noteq> scope \<longrightarrow> scopeStore st' q = scopeStore st q)
      \<and> childScopeTable (scopeStore st' scope) = childScopeTable (scopeStore st scope)
      \<and> set (scopeSymbols st scope) \<subseteq> set (scopeSymbols st' scope)
      \<and> set (diagnostics st) \<subseteq> set (diagnostics st'))"

text \<open>
  What successive calls of \<open>hoistFunc\<close> for one function identifier do to its
  function-holder scope: each takes a fresh anonymous identifier and inserts a scope of
  that name, linked to its function node, under the holder. The result lists the scopes
  that \<open>insertScope\<close> returned.
\<close>

fun insertAnonymousScopes ::
  "ScopePath \<Rightarrow> LinkedNode option list \<Rightarrow> HoistState \<Rightarrow> ScopePath list \<times> HoistState" where
  "insertAnonymousScopes holder [] st = ([], st)"
| "insertAnonymousScopes holder (node # nodes) st =
     (let (anonymous, st1) = nextAnonymousIdentifier st;
          (functionScope, st2) = insertScope holder anonymous node st1;
          (rest, st3) = insertAnonymousScopes holder nodes st2
      in (functionScope # rest, st3))"

section \<open>Hoisting: a concrete environment and example scripts\<close>

text \<open>
  Modelled from the spec: the lookups that the parameters of the pass stand for, used to
  run the pass on example scripts. \<open>lookup-symbol-with-parent\<close> looks a name up in a
  scope and then in its parents, up to the global scope; a type resolves by such a
  lookup of its identifier; the constructors of a type are the functions that its members
  scope holds under the type's own name; the built-in types are those of the global
  scope below.
\<close>

definition parentChain :: "ScopePath \<Rightarrow> ScopePath list" where
  "parentChain p = map (\<lambda>n. take n p) (rev [0..<Suc (length p)])"

fun lookupInScopes :: "(ScopePath \<Rightarrow> SymbolScopeRec) \<Rightarrow> ScopePath list \<Rightarrow> string \<Rightarrow> SymbolHolder option" where
  "lookupInScopes store [] identifier = None"
| "lookupInScopes store (p # ps) identifier =
     (case map_of (symbolTable (store p)) identifier of
        None \<Rightarrow> lookupInScopes store ps identifier
      | Some h \<Rightarrow> Some h)"

definition lookupSymbolWithParent :: "AnalyzerData \<Rightarrow> ScopePath \<Rightarrow> string \<Rightarrow> SymbolId option" where
  "lookupSymbolWithParent d p identifier =
     map_option firstSymbol (lookupInScopes (scopeStore d) (parentChain p) identifier)"

definition constructorsOfType :: "AnalyzerData \<Rightarrow> ResolvedType option \<Rightarrow> SymbolHolder option" where
  "constructorsOfType d t =
     (case t of
        None \<Rightarrow> None
      | Some b \<Rightarrow>
          (case membersScopePathOf (symbolStore d (typeOrFunc b)) of
             None \<Rightarrow> None
           | Some p \<Rightarrow>
               map_of (symbolTable (scopeStore d p))
                 (tokenText (identifierToken (symbolStore d (typeOrFunc b))))))"

definition exampleEnv :: "bool \<Rightarrow> HoistEnv" where
  "exampleEnv explicit =
     \<lparr>analyzeType = (\<lambda>d p t.
         (map_option ResolvedType
            (lookupSymbolWithParent d p (tokenText (getIdentifierInNodeType t))), [], [])),
      findSymbolWithParent = lookupSymbolWithParent,
      tryGetBuiltinType = (\<lambda>t. if tokenText t \<in> {''int'', ''void''} then Some None else None),
      findConstructorOfType = constructorsOfType,
      explicitPropertyAccessor = explicit,
      runAnalyzeTask = (\<lambda>t d. d)\<rparr>"

definition tokenAt :: "string \<Rightarrow> nat \<Rightarrow> ParsedToken" where
  "tokenAt t n = \<lparr>tokenText = t, location = \<lparr>path = ''a.as'', locStart = (n, 0), locEnd = (n, length t)\<rparr>\<rparr>"

definition builtinTypeSymbol :: "string \<Rightarrow> SymbolObj" where
  "builtinTypeSymbol t = SymbolType (tokenAt t 0) [] None None None None False"

definition exampleGlobalScope :: AnalyzerData where
  "exampleGlobalScope =
     \<lparr>scopeStore = (\<lambda>p. if p = []
         then \<lparr>scopeLinkedNode = None,
               symbolTable = [(''int'', SingleSymbol 0), (''void'', SingleSymbol 1)],
               childScopeTable = [], namespaceNodes = []\<rparr>
         else emptyScope None),
      symbolStore = (\<lambda>s. if s = 0 then builtinTypeSymbol ''int'' else builtinTypeSymbol ''void''),
      nextSymbol = 2, diagnostics = [], referenceList = [], scopeRegions = [],
      uniqueIdentifier = initialUniqueIdentifier\<rparr>"

definition exampleFunc :: "string \<Rightarrow> string \<Rightarrow> nat \<Rightarrow> bool \<Rightarrow> NodeFunc" where
  "exampleFunc returns name line property =
     \<lparr>funcIdentifier = tokenAt name line, funcAccessor = None,
      head = FuncHeadReturnValue (NodeType (tokenAt returns line)),
      funcTypeTemplates = None, funcParamList = [],
      funcAttr = (if property then Some \<lparr>isProperty = True\<rparr> else None),
      funcStatBlock = NodeStatBlock (tokenAt ''{'' line, tokenAt ''}'' line)\<rparr>"

definition exampleClass :: "string \<Rightarrow> nat \<Rightarrow> string list \<Rightarrow> ClassMember list \<Rightarrow> NodeClass" where
  "exampleClass name line bases members =
     \<lparr>classIdentifier = tokenAt name line, classTypeTemplates = None,
      classBaseList = map (\<lambda>b. tokenAt b line) bases, classMemberList = members,
      classNodeRange = (tokenAt ''class'' line, tokenAt ''}'' line)\<rparr>"

text \<open>
  \<open>class C { void g() {} }\<close>, at the top level and inside \<open>namespace N { ... }\<close>.
\<close>

definition scriptTopLevelClass :: NodeScript where
  "scriptTopLevelClass = [Class (exampleClass ''C'' 1 [] [MemberFunc (exampleFunc ''void'' ''g'' 2 False)])]"

definition scriptNamespacedClass :: NodeScript where
  "scriptNamespacedClass =
     [Namespace [tokenAt ''N'' 0]
        [Class (exampleClass ''C'' 1 [] [MemberFunc (exampleFunc ''void'' ''g'' 2 False)])]
        (tokenAt ''namespace'' 0, tokenAt ''}'' 3)]"

text \<open>
  The global scope after \<open>int v;\<close>; the functions \<open>int get_v() {}\<close> and \<open>void set_v() {}\<close>
  are hoisted with the setting \<open>explicitPropertyAccessor\<close> switched off; and the
  destructor of a class named \<open>get_x\<close>.
\<close>

definition globalScopeWithVariable :: AnalyzerData where
  "globalScopeWithVariable =
     \<lparr>scopeStore = (\<lambda>p. if p = []
         then \<lparr>scopeLinkedNode = None,
               symbolTable = [(''int'', SingleSymbol 0), (''void'', SingleSymbol 1), (''v'', SingleSymbol 2)],
               childScopeTable = [], namespaceNodes = []\<rparr>
         else emptyScope None),
      symbolStore = (\<lambda>s. if s = 0 then builtinTypeSymbol ''int''
                          else if s = 1 then builtinTypeSymbol ''void''
                          else SymbolVariable (tokenAt ''v'' 1) [] (Some (ResolvedType 0)) False None),
      nextSymbol = 3, diagnostics = [], referenceList = [], scopeRegions = [],
      uniqueIdentifier = initialUniqueIdentifier\<rparr>"

definition stateAfterGetter :: HoistState where
  "stateAfterGetter =
     hoistFunc (exampleEnv False) [] (exampleFunc ''int'' ''get_v'' 1 False) AnalyzeArray HoistArray False
       (startHoist exampleGlobalScope)"

definition stateAfterSetter :: HoistState where
  "stateAfterSetter =
     hoistFunc (exampleEnv False) [] (exampleFunc ''void'' ''set_v'' 2 False) AnalyzeArray HoistArray False
       (startHoist globalScopeWithVariable)"

definition exampleDestructor :: NodeFunc where
  "exampleDestructor = (exampleFunc ''void'' ''get_x'' 1 False)\<lparr>head := funcHeadDestructor\<rparr>"

text \<open>
  The state in which the second deferred step of \<open>class D : B {}\<close> runs, after
  \<open>class B { private int x; int y; B() {} }\<close>: the symbols are the two built-in types
  (0, 1), the type \<open>B\<close> (2), its \<open>this\<close> (3), its constructor (4), \<open>x\<close> (5), \<open>y\<close> (6),
  the type \<open>D\<close> (7) and its \<open>this\<close> (8). In the second state \<open>D\<close> also holds a
  variable named \<open>super\<close> (9), as the accessor \<open>int get_super() property\<close> leaves it.
\<close>

definition exampleSymbols :: "SymbolId \<Rightarrow> SymbolObj" where
  "exampleSymbols s =
     (if s = 0 then builtinTypeSymbol ''int''
      else if s = 1 then builtinTypeSymbol ''void''
      else if s = 2 then SymbolType (tokenAt ''B'' 1) [] None (Some [''B'']) None None False
      else if s = 3 then SymbolVariable builtinThisToken [] (Some (ResolvedType 2)) False (Some Private)
      else if s = 4 then SymbolFunction (tokenAt ''B'' 4) [''B''] None [] None
                           (Some [''B'', ''B'', ''~0'']) True None None
      else if s = 5 then SymbolVariable (tokenAt ''x'' 2) [''B''] (Some (ResolvedType 0)) True (Some Private)
      else if s = 6 then SymbolVariable (tokenAt ''y'' 3) [''B''] (Some (ResolvedType 0)) True None
      else if s = 7 then SymbolType (tokenAt ''D'' 6) [] None (Some [''D'']) None
                           (Some [Some (ResolvedType 2)]) False
      else if s = 8 then SymbolVariable builtinThisToken [] (Some (ResolvedType 7)) False (Some Private)
      else SymbolVariable (tokenAt ''super'' 7) [''D''] (Some (ResolvedType 0)) True None)"

definition exampleScopes :: "bool \<Rightarrow> ScopePath \<Rightarrow> SymbolScopeRec" where
  "exampleScopes superTaken p =
     (if p = []
      then \<lparr>scopeLinkedNode = None,
            symbolTable = [(''int'', SingleSymbol 0), (''void'', SingleSymbol 1),
                           (''B'', SingleSymbol 2), (''D'', SingleSymbol 7)],
            childScopeTable = [''B'', ''D''], namespaceNodes = []\<rparr>
      else if p = [''B'']
      then \<lparr>scopeLinkedNode = None,
            symbolTable = [(''this'', SingleSymbol 3), (''B'', FunctionHolder 4 []),
                           (''x'', SingleSymbol 5), (''y'', SingleSymbol 6)],
            childScopeTable = [''B''], namespaceNodes = []\<rparr>
      else if p = [''D'']
      then \<lparr>scopeLinkedNode = None,
            symbolTable = (if superTaken
                           then [(''this'', SingleSymbol 8), (''super'', SingleSymbol 9)]
                           else [(''this'', SingleSymbol 8)]),
            childScopeTable = [], namespaceNodes = []\<rparr>
      else emptyScope None)"

definition stateBeforeBaseCopy :: "bool \<Rightarrow> HoistState" where
  "stateBeforeBaseCopy superTaken =
     \<lparr>scopeStore = exampleScopes superTaken, symbolStore = exampleSymbols,
      nextSymbol = (if superTaken then 10 else 9), diagnostics = [], referenceList = [],
      scopeRegions = [], uniqueIdentifier = 0, hoistArray = [], analyzeArray = []\<rparr>"

section \<open>The recursive-descent parser and its reading state\<close>

text \<open>
  A token object of the tokenizer carries, besides its text and location, its kind
  (\<open>reserved\<close>, \<open>identifier\<close>, ...) and the highlight that the parser writes into it.
  Of the enumeration \<open>HighlightToken\<close> (highlight.ts, not part of the sources at hand) the
  parser uses the five values below; it never passes a modifier.
\<close>

datatype HighlightToken =
  HighlightVariable | HighlightOperator | HighlightKeyword | HighlightType | HighlightBuiltin
| HighlightOther

type_synonym HighlightModifier = string

record TokenObject = ParsedToken +
  kind :: string
  highlightToken :: HighlightToken
  highlightModifier :: "HighlightModifier option"

text \<open>
  The nodes that the parse functions build, with the arguments that the calls of their
  constructors pass (nodes.ts is not part of the sources at hand). A node holds the
  tokens as they were when it was built.
\<close>

datatype NodeDATATYPE = NodeDATATYPE TokenObject

datatype NodeTYPE = NodeTYPE bool "unit option" NodeDATATYPE "unit list" bool bool

datatype NodeEXPRTERM2 = NodeEXPRTERM2 "TokenObject option" TokenObject "TokenObject option"

datatype NodeEXPR = NodeEXPR NodeEXPRTERM2 "TokenObject option" "NodeEXPR option"

datatype NodeCONDITION = NodeCONDITION NodeEXPR "unit option" "unit option"

datatype NodeASSIGN = NodeASSIGN NodeCONDITION "TokenObject option" "NodeASSIGN option"

datatype NodeVAR = NodeVAR NodeTYPE TokenObject NodeEXPR

datatype NodeSTATEMENT =
  NodeIF NodeASSIGN NodeSTATEMENT "NodeSTATEMENT option"
| NodeFOR "NodeASSIGN + NodeVAR" NodeASSIGN "NodeASSIGN list" NodeSTATEMENT
| NodeWHILE NodeASSIGN NodeSTATEMENT
| NodeRETURN NodeASSIGN
| NodeSTATBLOCK "(NodeSTATEMENT + NodeVAR) list"
| StatementBreak
| StatementContinue
| NodeDOWHILE NodeSTATEMENT NodeASSIGN
| NodeSWITCH NodeASSIGN "NodeCASE list"
and NodeCASE = NodeCASE "NodeEXPR option" "NodeSTATEMENT list"

type_synonym NodePARAMLIST = "(NodeTYPE \<times> TokenObject option) list"

datatype NodeFunc_parsed =
  NodeFunc_parsed "unit list" "unit option" NodeTYPE "unit option" TokenObject NodePARAMLIST bool
    "unit option" "(NodeSTATEMENT + NodeVAR) list"

datatype NodeScript_parsed = NodeScript_parsed "NodeFunc_parsed list"

datatype 'a TriedParse = Mismatch | Pending | Parsed 'a

text \<open>
  The class \<open>ReadingState\<close>: the token array and the read position. \<open>arrayAt\<close> is the
  read of a JavaScript array at an index: outside of the array it yields \<open>undefined\<close>,
  here \<open>None\<close>. \<open>nextIndex\<close> is the index at which \<open>next\<close> reads: the position, or the
  last index when the position is at or past the end; for an empty array that index is
  \<open>-1\<close>.
\<close>

record ReadingState =
  tokens :: "TokenObject list"
  pos :: nat

definition isEnd :: "'a ReadingState_scheme \<Rightarrow> bool" where
  "isEnd reading = (pos reading \<ge> length (tokens reading))"

definition arrayAt :: "'a list \<Rightarrow> int \<Rightarrow> 'a option" where
  "arrayAt xs i = (if 0 \<le> i \<and> i < int (length xs) then Some (xs ! nat i) else None)"

definition nextIndex :: "'a ReadingState_scheme \<Rightarrow> int" where
  "nextIndex reading =
     (if pos reading \<ge> length (tokens reading) then int (length (tokens reading)) - 1
      else int (pos reading))"

definition nextToken :: "'a ReadingState_scheme \<Rightarrow> TokenObject option" where
  "nextToken reading = arrayAt (tokens reading) (nextIndex reading)"

definition step :: "'a ReadingState_scheme \<Rightarrow> 'a ReadingState_scheme" where
  "step reading = reading\<lparr>pos := pos reading + 1\<rparr>"

text \<open>
  The parse functions work on the reading state and on the global diagnostic sink. A run
  of a parse function ends in one of three ways: it returns a value and leaves a state;
  it reads a token outside of the array (the token is \<open>undefined\<close>, and the read of its
  text, kind, location or highlight throws), which every caller passes on; or it is cut
  off because the fuel, which bounds the depth of the recursion and the number of loop
  iterations, is used up.
\<close>

record ParserState = ReadingState +
  parserDiagnostics :: "Diagnostic list"

datatype 'a Outcome = Done 'a ParserState | OutOfRange | OutOfFuel

type_synonym 'a Parser = "ParserState \<Rightarrow> 'a Outcome"

definition result :: "'a \<Rightarrow> 'a Parser" where
  "result x = (\<lambda>s. Done x s)"

definition andThen :: "'a Parser \<Rightarrow> ('a \<Rightarrow> 'b Parser) \<Rightarrow> 'b Parser" where
  "andThen m f =
     (\<lambda>s. case m s of Done x s' \<Rightarrow> f x s' | OutOfRange \<Rightarrow> OutOfRange | OutOfFuel \<Rightarrow> OutOfFuel)"

definition outOfFuel :: "'a Parser" where
  "outOfFuel = (\<lambda>s. OutOfFuel)"

definition readIsEnd :: "bool Parser" where
  "readIsEnd = (\<lambda>s. Done (isEnd s) s)"

definition readNext :: "TokenObject Parser" where
  "readNext = (\<lambda>s. case nextToken s of None \<Rightarrow> OutOfRange | Some t \<Rightarrow> Done t s)"

definition readStep :: "unit Parser" where
  "readStep = (\<lambda>s. Done () (step s))"

definition highlighted :: "HighlightToken \<Rightarrow> HighlightModifier option \<Rightarrow> TokenObject \<Rightarrow> TokenObject" where
  "highlighted analyzeToken analyzedModifier t =
     (case analyzedModifier of
        None \<Rightarrow> t\<lparr>highlightToken := analyzeToken\<rparr>
      | Some m \<Rightarrow> t\<lparr>highlightToken := analyzeToken, highlightModifier := Some m\<rparr>)"

definition confirm :: "HighlightToken \<Rightarrow> HighlightModifier option \<Rightarrow> unit Parser" where
  "confirm analyzeToken analyzedModifier =
     (\<lambda>s. case nextToken s of
             None \<Rightarrow> OutOfRange
           | Some t \<Rightarrow>
               Done () (step (s\<lparr>tokens := (tokens s)[nat (nextIndex s) :=
                                             highlighted analyzeToken analyzedModifier t]\<rparr>)))"

text \<open>\<open>diagnostic.addError(reading.next().location, message)\<close>.\<close>

definition reportError :: "string \<Rightarrow> unit Parser" where
  "reportError message =
     andThen readNext
       (\<lambda>t s. Done () (s\<lparr>parserDiagnostics := addError (location t) message (parserDiagnostics s)\<rparr>))"

definition expect :: "string \<Rightarrow> HighlightToken \<Rightarrow> HighlightModifier option \<Rightarrow> bool Parser" where
  "expect word analyzeToken analyzedModifier =
     andThen readIsEnd (\<lambda>ended.
       if ended then andThen (reportError ''Unexpected end of file'') (\<lambda>_. result False)
       else andThen readNext (\<lambda>t.
         if kind t \<noteq> ''reserved''
         then andThen (reportError ''Expected reserved word'') (\<lambda>_. result False)
         else if tokenText t \<noteq> word
         then andThen (reportError (''Expected reserved word '' @ word)) (\<lambda>_. result False)
         else andThen (confirm analyzeToken analyzedModifier) (\<lambda>_. result True)))"

subsection \<open>Types and expressions\<close>

definition parseDATATYPE :: "NodeDATATYPE option Parser" where
  "parseDATATYPE =
     andThen readNext (\<lambda>next.
     andThen (if kind next = ''identifier'' then confirm HighlightType None
              else confirm HighlightBuiltin None) (\<lambda>_.
     result (Some (NodeDATATYPE next))))"

definition parseTYPE :: "NodeTYPE option Parser" where
  "parseTYPE =
     andThen parseDATATYPE (\<lambda>datatype.
     case datatype of
       None \<Rightarrow> result None
     | Some d \<Rightarrow> result (Some (NodeTYPE False None d [] False False)))"

definition parseEXPRVALUE :: "TokenObject option Parser" where
  "parseEXPRVALUE =
     andThen readNext (\<lambda>next.
     if kind next = ''reserved'' then result None
     else andThen readStep (\<lambda>_. result (Some next)))"

definition preops :: "string list" where
  "preops = [''-'', ''+'', ''!'', ''++'', ''--'', ''~'', ''@'']"

definition opstops :: "string list" where
  "opstops = [''.'', ''['', ''('', ''++'', ''--'']"

definition parseEXPRTERM2 :: "NodeEXPRTERM2 option Parser" where
  "parseEXPRTERM2 =
     andThen readNext (\<lambda>t.
     andThen (if tokenText t \<in> set preops
              then andThen (confirm HighlightOperator None) (\<lambda>_. result (Some t))
              else result None) (\<lambda>pre.
     andThen parseEXPRVALUE (\<lambda>exprvalue.
     case exprvalue of
       None \<Rightarrow> result None
     | Some v \<Rightarrow>
         andThen readNext (\<lambda>t2.
         andThen (if tokenText t2 \<in> set opstops
                  then andThen (confirm HighlightOperator None) (\<lambda>_. result (Some t2))
                  else result None) (\<lambda>stop.
         result (Some (NodeEXPRTERM2 pre v stop)))))))"

definition parseEXPRTERM :: "NodeEXPRTERM2 option Parser" where
  "parseEXPRTERM =
     andThen parseEXPRTERM2 (\<lambda>exprterm2.
     case exprterm2 of Some e \<Rightarrow> result (Some e) | None \<Rightarrow> result None)"

definition exprOpCandidates :: "string list" where
  "exprOpCandidates =
     [''+'', ''-'', ''*'', ''/'', ''%'', ''**'',
      ''=='', ''!='', ''<'', ''<='', ''>'', ''>='', ''is'',
      ''&&'', ''||'', ''^^'', ''and'', ''or'', ''xor'',
      ''&'', ''|'', ''^'', ''<<'', ''>>'', ''>>>'']"

definition parseEXPROP :: "TokenObject option Parser" where
  "parseEXPROP =
     andThen readNext (\<lambda>t.
     if tokenText t \<notin> set exprOpCandidates then result None
     else andThen (confirm HighlightOperator None) (\<lambda>_. result (Some t)))"

definition assignOpCandidates :: "string list" where
  "assignOpCandidates =
     [''='', ''+='', ''-='', ''*='', ''/='', ''|='', ''&='', ''^='', ''%='', ''**='',
      ''<<='', ''>>='', ''>>>='']"

definition parseASSIGNOP :: "TokenObject option Parser" where
  "parseASSIGNOP =
     andThen readNext (\<lambda>t.
     if tokenText t \<notin> set assignOpCandidates then result None
     else andThen (confirm HighlightOperator None) (\<lambda>_. result (Some t)))"

fun parseEXPR :: "nat \<Rightarrow> NodeEXPR option Parser" where
  "parseEXPR 0 = outOfFuel"
| "parseEXPR (Suc fuel) =
     andThen parseEXPRTERM (\<lambda>exprterm.
     case exprterm of
       None \<Rightarrow> result None
     | Some e \<Rightarrow>
         andThen parseEXPROP (\<lambda>exprop.
         case exprop of
           None \<Rightarrow> result (Some (NodeEXPR e None None))
         | Some op \<Rightarrow>
             andThen (parseEXPR fuel) (\<lambda>tail. result (Some (NodeEXPR e (Some op) tail)))))"

definition parseCONDITION :: "nat \<Rightarrow> NodeCONDITION option Parser" where
  "parseCONDITION fuel =
     andThen (parseEXPR fuel) (\<lambda>expr.
     case expr of
       None \<Rightarrow> result None
     | Some e \<Rightarrow> result (Some (NodeCONDITION e None None)))"

fun parseASSIGN :: "nat \<Rightarrow> NodeASSIGN option Parser" where
  "parseASSIGN 0 = outOfFuel"
| "parseASSIGN (Suc fuel) =
     andThen (parseCONDITION fuel) (\<lambda>condition.
     case condition of
       None \<Rightarrow> result None
     | Some c \<Rightarrow>
         andThen parseASSIGNOP (\<lambda>op.
         case op of
           None \<Rightarrow> result (Some (NodeASSIGN c None None))
         | Some assignOp \<Rightarrow>
             andThen (parseASSIGN fuel) (\<lambda>assign.
             result (Some (NodeASSIGN c (Some assignOp) assign)))))"

subsection \<open>Variables, parameter lists and simple statements\<close>

definition parseVAR :: "nat \<Rightarrow> NodeVAR option Parser" where
  "parseVAR fuel =
     andThen parseTYPE (\<lambda>type.
     case type of
       None \<Rightarrow> result None
     | Some ty \<Rightarrow>
         andThen readNext (\<lambda>identifier.
         andThen (confirm HighlightVariable None) (\<lambda>_.
         andThen (expect ''='' HighlightOperator None) (\<lambda>_.
         andThen (parseEXPR fuel) (\<lambda>expr.
         case expr of
           None \<Rightarrow> andThen (reportError ''Expected expression'') (\<lambda>_. result None)
         | Some e \<Rightarrow>
             andThen (expect '';'' HighlightOperator None) (\<lambda>_.
             result (Some (NodeVAR ty identifier e))))))))"

fun parsePARAMLIST_loop :: "nat \<Rightarrow> NodePARAMLIST \<Rightarrow> NodePARAMLIST Parser" where
  "parsePARAMLIST_loop 0 params = outOfFuel"
| "parsePARAMLIST_loop (Suc fuel) params =
     andThen readIsEnd (\<lambda>ended.
     if ended then result params
     else andThen readNext (\<lambda>t.
       if tokenText t = '')'' then result params
       else andThen (if params \<noteq> [] then expect '','' HighlightOperator None else result True) (\<lambda>ok.
         if \<not> ok then result params
         else andThen parseTYPE (\<lambda>type.
           case type of
             None \<Rightarrow> result params
           | Some ty \<Rightarrow>
               andThen readNext (\<lambda>t2.
               if kind t2 = ''identifier''
               then andThen readStep (\<lambda>_. parsePARAMLIST_loop fuel (params @ [(ty, Some t2)]))
               else parsePARAMLIST_loop fuel (params @ [(ty, None)]))))))"

definition parsePARAMLIST :: "nat \<Rightarrow> NodePARAMLIST Parser" where
  "parsePARAMLIST fuel =
     andThen (expect ''('' HighlightOperator None) (\<lambda>_.
     andThen (parsePARAMLIST_loop fuel []) (\<lambda>params.
     andThen (expect '')'' HighlightOperator None) (\<lambda>_.
     result params)))"

definition parseBREAK :: "NodeSTATEMENT option Parser" where
  "parseBREAK =
     andThen readNext (\<lambda>t.
     if tokenText t \<noteq> ''break'' then result None
     else andThen readStep (\<lambda>_.
          andThen (expect '';'' HighlightOperator None) (\<lambda>_.
          result (Some StatementBreak))))"

definition parseCONTINUE :: "NodeSTATEMENT option Parser" where
  "parseCONTINUE =
     andThen readNext (\<lambda>t.
     if tokenText t \<noteq> ''continue'' then result None
     else andThen readStep (\<lambda>_.
          andThen (expect '';'' HighlightOperator None) (\<lambda>_.
          result (Some StatementContinue))))"

definition parseEXPRSTAT :: "nat \<Rightarrow> NodeASSIGN option Parser" where
  "parseEXPRSTAT fuel =
     andThen readNext (\<lambda>t.
     if tokenText t = '';'' then andThen readStep (\<lambda>_. result None)
     else andThen (parseASSIGN fuel) (\<lambda>assign.
          case assign of
            None \<Rightarrow> result None
          | Some a \<Rightarrow> andThen (expect '';'' HighlightOperator None) (\<lambda>_. result (Some a))))"

definition parseRETURN :: "nat \<Rightarrow> NodeSTATEMENT TriedParse Parser" where
  "parseRETURN fuel =
     andThen readNext (\<lambda>t.
     if tokenText t \<noteq> ''return'' then result Mismatch
     else andThen readStep (\<lambda>_.
          andThen (parseASSIGN fuel) (\<lambda>assign.
          case assign of
            None \<Rightarrow> andThen (reportError ''Expected expression'') (\<lambda>_. result Pending)
          | Some a \<Rightarrow>
              andThen (expect '';'' HighlightOperator None) (\<lambda>_.
              result (Parsed (NodeRETURN a))))))"

text \<open>The loop of \<open>parseFOR\<close> that reads the increments.\<close>

fun parseFOR_increments :: "nat \<Rightarrow> NodeASSIGN list \<Rightarrow> NodeASSIGN list Parser" where
  "parseFOR_increments 0 increments = outOfFuel"
| "parseFOR_increments (Suc fuel) increments =
     andThen (if increments \<noteq> []
              then andThen readNext (\<lambda>t.
                   if tokenText t \<noteq> '','' then result False
                   else andThen readStep (\<lambda>_. result True))
              else result True) (\<lambda>goOn.
     if \<not> goOn then result increments
     else andThen (parseASSIGN fuel) (\<lambda>assign.
          case assign of
            None \<Rightarrow> result increments
          | Some a \<Rightarrow> parseFOR_increments fuel (increments @ [a])))"

subsection \<open>Statements\<close>

text \<open>
  The statement functions call each other; each call and each loop iteration takes one
  unit of fuel. The functions with the suffix \<open>loop\<close> are the loops of \<open>parseSTATBLOCK\<close>,
  \<open>parseSWITCH\<close> and \<open>parseCASE\<close>, with the array they fill as argument.
\<close>

fun parseSTATBLOCK :: "nat \<Rightarrow> (NodeSTATEMENT + NodeVAR) list option Parser"
  and parseSTATBLOCK_loop :: "nat \<Rightarrow> (NodeSTATEMENT + NodeVAR) list \<Rightarrow> (NodeSTATEMENT + NodeVAR) list Parser"
  and parseSTATEMENT :: "nat \<Rightarrow> NodeSTATEMENT TriedParse Parser"
  and parseSWITCH :: "nat \<Rightarrow> NodeSTATEMENT TriedParse Parser"
  and parseSWITCH_loop :: "nat \<Rightarrow> NodeCASE list \<Rightarrow> NodeCASE list Parser"
  and parseFOR :: "nat \<Rightarrow> NodeSTATEMENT TriedParse Parser"
  and parseWHILE :: "nat \<Rightarrow> NodeSTATEMENT TriedParse Parser"
  and parseDOWHILE :: "nat \<Rightarrow> NodeSTATEMENT TriedParse Parser"
  and parseIF :: "nat \<Rightarrow> NodeSTATEMENT TriedParse Parser"
  and parseCASE :: "nat \<Rightarrow> NodeCASE TriedParse Parser"
  and parseCASE_loop :: "nat \<Rightarrow> NodeSTATEMENT list \<Rightarrow> NodeSTATEMENT list Parser"
where
  "parseSTATBLOCK 0 = outOfFuel"
| "parseSTATBLOCK (Suc fuel) =
     andThen readNext (\<lambda>t.
     if tokenText t \<noteq> ''{'' then result None
     else andThen readStep (\<lambda>_.
          andThen (parseSTATBLOCK_loop fuel []) (\<lambda>statements.
          andThen (expect ''}'' HighlightKeyword None) (\<lambda>_.
          result (Some statements)))))"
| "parseSTATBLOCK_loop 0 statements = outOfFuel"
| "parseSTATBLOCK_loop (Suc fuel) statements =
     andThen readIsEnd (\<lambda>ended.
     if ended then result statements
     else andThen readNext (\<lambda>t.
       if tokenText t = ''}'' then result statements
       else andThen (parseSTATEMENT fuel) (\<lambda>statement.
         case statement of
           Pending \<Rightarrow> andThen readStep (\<lambda>_. parseSTATBLOCK_loop fuel statements)
         | Parsed st \<Rightarrow> parseSTATBLOCK_loop fuel (statements @ [Inl st])
         | Mismatch \<Rightarrow>
             andThen (parseVAR fuel) (\<lambda>var.
             case var of
               Some v \<Rightarrow> parseSTATBLOCK_loop fuel (statements @ [Inr v])
             | None \<Rightarrow> andThen readStep (\<lambda>_. parseSTATBLOCK_loop fuel statements)))))"
| "parseSTATEMENT 0 = outOfFuel"
| "parseSTATEMENT (Suc fuel) =
     andThen (parseIF fuel) (\<lambda>triedIf.
     case triedIf of Pending \<Rightarrow> result Pending | Parsed n \<Rightarrow> result (Parsed n) | Mismatch \<Rightarrow>
     andThen (parseFOR fuel) (\<lambda>triedFor.
     case triedFor of Pending \<Rightarrow> result Pending | Parsed n \<Rightarrow> result (Parsed n) | Mismatch \<Rightarrow>
     andThen (parseWHILE fuel) (\<lambda>triedWhile.
     case triedWhile of Pending \<Rightarrow> result Pending | Parsed n \<Rightarrow> result (Parsed n) | Mismatch \<Rightarrow>
     andThen (parseRETURN fuel) (\<lambda>triedReturn.
     case triedReturn of Pending \<Rightarrow> result Pending | Parsed n \<Rightarrow> result (Parsed n) | Mismatch \<Rightarrow>
     andThen (parseSTATBLOCK fuel) (\<lambda>statblock.
     case statblock of Some b \<Rightarrow> result (Parsed (NodeSTATBLOCK b)) | None \<Rightarrow>
     andThen parseBREAK (\<lambda>triedBreak.
     case triedBreak of Some b \<Rightarrow> result (Parsed b) | None \<Rightarrow>
     andThen parseCONTINUE (\<lambda>triedContinue.
     case triedContinue of Some c \<Rightarrow> result (Parsed c) | None \<Rightarrow>
     andThen (parseDOWHILE fuel) (\<lambda>dowhile.
     case dowhile of Pending \<Rightarrow> result Pending | Parsed n \<Rightarrow> result (Parsed n) | Mismatch \<Rightarrow>
     andThen (parseSWITCH fuel) (\<lambda>triedSwitch.
     case triedSwitch of Pending \<Rightarrow> result Pending | Parsed n \<Rightarrow> result (Parsed n)
     | Mismatch \<Rightarrow> result Mismatch)))))))))"
| "parseSWITCH 0 = outOfFuel"
| "parseSWITCH (Suc fuel) =
     andThen readNext (\<lambda>t.
     if tokenText t \<noteq> ''switch'' then result Mismatch
     else andThen readStep (\<lambda>_.
          andThen (expect ''('' HighlightOperator None) (\<lambda>_.
          andThen (parseASSIGN fuel) (\<lambda>assign.
          case assign of
            None \<Rightarrow> andThen (reportError ''Expected expression'') (\<lambda>_. result Pending)
          | Some a \<Rightarrow>
              andThen (expect '')'' HighlightOperator None) (\<lambda>_.
              andThen (expect ''{'' HighlightOperator None) (\<lambda>_.
              andThen (parseSWITCH_loop fuel []) (\<lambda>cases.
              andThen (expect ''}'' HighlightOperator None) (\<lambda>_.
              result (Parsed (NodeSWITCH a cases))))))))))"
| "parseSWITCH_loop 0 cases = outOfFuel"
| "parseSWITCH_loop (Suc fuel) cases =
     andThen readIsEnd (\<lambda>ended.
     if ended then result cases
     else andThen readNext (\<lambda>t.
       if tokenText t = ''}'' then result cases
       else andThen (parseCASE fuel) (\<lambda>triedCase.
         case triedCase of
           Mismatch \<Rightarrow> result cases
         | Pending \<Rightarrow> parseSWITCH_loop fuel cases
         | Parsed c \<Rightarrow> parseSWITCH_loop fuel (cases @ [c]))))"
| "parseFOR 0 = outOfFuel"
| "parseFOR (Suc fuel) =
     andThen readNext (\<lambda>t.
     if tokenText t \<noteq> ''for'' then result Mismatch
     else andThen readStep (\<lambda>_.
          andThen (expect ''('' HighlightOperator None) (\<lambda>_.
          andThen (andThen (parseEXPRSTAT fuel) (\<lambda>exprstat.
                   case exprstat of
                     Some a \<Rightarrow> result (Some (Inl a))
                   | None \<Rightarrow> andThen (parseVAR fuel) (\<lambda>var. result (map_option Inr var)))) (\<lambda>initial.
          case initial of
            None \<Rightarrow>
              andThen (reportError ''Expected initial expression or variable declaration'') (\<lambda>_.
              result Pending)
          | Some i \<Rightarrow>
              andThen (parseEXPRSTAT fuel) (\<lambda>condition.
              case condition of
                None \<Rightarrow> andThen (reportError ''Expected condition expression'') (\<lambda>_. result Pending)
              | Some c \<Rightarrow>
                  andThen (parseFOR_increments fuel []) (\<lambda>increments.
                  andThen (expect '')'' HighlightOperator None) (\<lambda>_.
                  andThen (parseSTATEMENT fuel) (\<lambda>statement.
                  case statement of
                    Parsed st \<Rightarrow> result (Parsed (NodeFOR i c increments st))
                  | Mismatch \<Rightarrow> result Pending
                  | Pending \<Rightarrow> result Pending))))))))"
| "parseWHILE 0 = outOfFuel"
| "parseWHILE (Suc fuel) =
     andThen readNext (\<lambda>t.
     if tokenText t \<noteq> ''while'' then result Mismatch
     else andThen readStep (\<lambda>_.
          andThen (expect ''('' HighlightOperator None) (\<lambda>_.
          andThen (parseASSIGN fuel) (\<lambda>assign.
          case assign of
            None \<Rightarrow> andThen (reportError ''Expected condition expression'') (\<lambda>_. result Pending)
          | Some a \<Rightarrow>
              andThen (expect '')'' HighlightOperator None) (\<lambda>_.
              andThen (parseSTATEMENT fuel) (\<lambda>statement.
              case statement of
                Parsed st \<Rightarrow> result (Parsed (NodeWHILE a st))
              | Mismatch \<Rightarrow> andThen (reportError ''Expected statement'') (\<lambda>_. result Pending)
              | Pending \<Rightarrow> andThen (reportError ''Expected statement'') (\<lambda>_. result Pending)))))))"
| "parseDOWHILE 0 = outOfFuel"
| "parseDOWHILE (Suc fuel) =
     andThen readNext (\<lambda>t.
     if tokenText t \<noteq> ''do'' then result Mismatch
     else andThen readStep (\<lambda>_.
          andThen (parseSTATEMENT fuel) (\<lambda>statement.
          case statement of
            Mismatch \<Rightarrow> andThen (reportError ''Expected statement'') (\<lambda>_. result Pending)
          | Pending \<Rightarrow> andThen (reportError ''Expected statement'') (\<lambda>_. result Pending)
          | Parsed st \<Rightarrow>
              andThen (expect ''while'' HighlightKeyword None) (\<lambda>_.
              andThen (expect ''('' HighlightOperator None) (\<lambda>_.
              andThen (parseASSIGN fuel) (\<lambda>assign.
              case assign of
                None \<Rightarrow> andThen (reportError ''Expected condition expression'') (\<lambda>_. result Pending)
              | Some a \<Rightarrow>
                  andThen (expect '')'' HighlightOperator None) (\<lambda>_.
                  andThen (expect '';'' HighlightOperator None) (\<lambda>_.
                  result (Parsed (NodeDOWHILE st a))))))))))"
| "parseIF 0 = outOfFuel"
| "parseIF (Suc fuel) =
     andThen readNext (\<lambda>t.
     if tokenText t \<noteq> ''if'' then result Mismatch
     else andThen readStep (\<lambda>_.
          andThen (expect ''('' HighlightOperator None) (\<lambda>_.
          andThen (parseASSIGN fuel) (\<lambda>assign.
          case assign of
            None \<Rightarrow> andThen (reportError ''Expected condition expression'') (\<lambda>_. result Pending)
          | Some a \<Rightarrow>
              andThen (expect '')'' HighlightOperator None) (\<lambda>_.
              andThen (parseSTATEMENT fuel) (\<lambda>ts.
              case ts of
                Mismatch \<Rightarrow> result Pending
              | Pending \<Rightarrow> result Pending
              | Parsed tstmt \<Rightarrow>
                  andThen readNext (\<lambda>t2.
                  if tokenText t2 = ''else''
                  then andThen (parseSTATEMENT fuel) (\<lambda>fs.
                       case fs of
                         Parsed fstmt \<Rightarrow> result (Parsed (NodeIF a tstmt (Some fstmt)))
                       | Mismatch \<Rightarrow>
                           andThen (reportError ''Expected statement'') (\<lambda>_.
                           result (Parsed (NodeIF a tstmt None)))
                       | Pending \<Rightarrow>
                           andThen (reportError ''Expected statement'') (\<lambda>_.
                           result (Parsed (NodeIF a tstmt None))))
                  else result (Parsed (NodeIF a tstmt None)))))))))"
| "parseCASE 0 = outOfFuel"
| "parseCASE (Suc fuel) =
     andThen (andThen readNext (\<lambda>t.
              if tokenText t = ''case''
              then andThen readStep (\<lambda>_.
                   andThen (parseEXPR fuel) (\<lambda>expr.
                   case expr of
                     None \<Rightarrow> andThen (reportError ''Expected expression'') (\<lambda>_. result Pending)
                   | Some e \<Rightarrow> result (Parsed (Some e))))
              else andThen readNext (\<lambda>t2.
                   if tokenText t2 = ''default'' then andThen readStep (\<lambda>_. result (Parsed None))
                   else result Mismatch))) (\<lambda>label.
     case label of
       Mismatch \<Rightarrow> result Mismatch
     | Pending \<Rightarrow> result Pending
     | Parsed expr \<Rightarrow>
         andThen (expect '':'' HighlightOperator None) (\<lambda>_.
         andThen (parseCASE_loop fuel []) (\<lambda>statements.
         result (Parsed (NodeCASE expr statements)))))"
| "parseCASE_loop 0 statements = outOfFuel"
| "parseCASE_loop (Suc fuel) statements =
     andThen (parseSTATEMENT fuel) (\<lambda>statement.
     case statement of
       Mismatch \<Rightarrow> result statements
     | Pending \<Rightarrow> parseCASE_loop fuel statements
     | Parsed st \<Rightarrow> parseCASE_loop fuel (statements @ [st]))"

subsection \<open>Functions and the script\<close>

definition parseFUNC :: "nat \<Rightarrow> NodeFunc_parsed option Parser" where
  "parseFUNC fuel =
     andThen parseTYPE (\<lambda>ret.
     case ret of
       None \<Rightarrow> result None
     | Some r \<Rightarrow>
         andThen readNext (\<lambda>identifier.
         andThen readStep (\<lambda>_.
         andThen (parsePARAMLIST fuel) (\<lambda>paramlist.
         andThen (parseSTATBLOCK fuel) (\<lambda>statblock.
         result (Some (NodeFunc_parsed [] None r None identifier paramlist False None
                         (case statblock of None \<Rightarrow> [] | Some b \<Rightarrow> b))))))))"

fun parseSCRIPT_loop :: "nat \<Rightarrow> NodeFunc_parsed list \<Rightarrow> NodeFunc_parsed list Parser" where
  "parseSCRIPT_loop 0 funcs = outOfFuel"
| "parseSCRIPT_loop (Suc fuel) funcs =
     andThen readIsEnd (\<lambda>ended.
     if ended then result funcs
     else andThen (parseFUNC fuel) (\<lambda>func.
          case func of
            None \<Rightarrow> parseSCRIPT_loop fuel funcs
          | Some f \<Rightarrow> parseSCRIPT_loop fuel (funcs @ [f])))"

definition parseSCRIPT :: "nat \<Rightarrow> NodeScript_parsed Parser" where
  "parseSCRIPT fuel = andThen (parseSCRIPT_loop fuel []) (\<lambda>funcs. result (NodeScript_parsed funcs))"

text \<open>
  \<open>parseFromTokens\<close> starts a reading state at position 0; the diagnostics that the sink
  holds before the call are a parameter.
\<close>

definition parseFromTokens :: "nat \<Rightarrow> TokenObject list \<Rightarrow> Diagnostic list \<Rightarrow> NodeScript_parsed Outcome" where
  "parseFromTokens fuel tokenList diagnosticsBefore =
     parseSCRIPT fuel \<lparr>tokens = tokenList, pos = 0, parserDiagnostics = diagnosticsBefore\<rparr>"

text \<open>
  A parser is safe when, from every state with a non-empty token array, it reads no
  token outside of the array and leaves the array non-empty.
\<close>

definition inRange :: "'a Outcome \<Rightarrow> bool" where
  "inRange r = (case r of OutOfRange \<Rightarrow> False | Done x s \<Rightarrow> True | OutOfFuel \<Rightarrow> True)"

definition nonEmptyAfter :: "'a Outcome \<Rightarrow> bool" where
  "nonEmptyAfter r = (case r of Done x s \<Rightarrow> tokens s \<noteq> [] | OutOfRange \<Rightarrow> False | OutOfFuel \<Rightarrow> True)"

definition safe :: "'a Parser \<Rightarrow> bool" where
  "safe m = (\<forall>s. tokens s \<noteq> [] \<longrightarrow> nonEmptyAfter (m s))"

text \<open>Example tokens: \<open>void f ( ) { return\<close>, a script that ends inside a function body.\<close>

definition exampleToken :: "string \<Rightarrow> string \<Rightarrow> nat \<Rightarrow> TokenObject" where
  "exampleToken k t n =
     \<lparr>tokenText = t, location = \<lparr>path = ''a.as'', locStart = (0, n), locEnd = (0, n + length t)\<rparr>,
      kind = k, highlightToken = HighlightOther, highlightModifier = None\<rparr>"

definition exampleTokens :: "TokenObject list" where
  "exampleTokens =
     [exampleToken ''reserved'' ''void'' 0, exampleToken ''identifier'' ''f'' 5,
      exampleToken ''reserved'' ''('' 6, exampleToken ''reserved'' '')'' 7,
      exampleToken ''reserved'' ''{'' 9, exampleToken ''reserved'' ''return'' 11]"

section \<open>Signature help (signatureHelp.ts)\<close>

text \<open>
  The tokens of a call are linked: a token knows its text, its location and the token
  that follows it. A token range is the pair of its first and last token. Of the node of
  the caller's arguments the service reads the range of the whole list and, per
  argument, the range of its expression (\<open>arg.assign.nodeRange\<close>).
\<close>

datatype LinkedToken =
  LinkedToken (linkedText: string) (linkedLocation: TextLocation) (linkedNext: "LinkedToken option")

record TokenRange =
  rangeStart :: LinkedToken
  rangeEnd :: LinkedToken

record NodeArgList =
  nodeRange :: TokenRange
  argList :: "TokenRange list"

text \<open>
  A complement hint of the kind \<open>FunctionCall\<close> holds the arguments node and the
  function holder of the callee; the hints of the other kinds are passed over. The
  template translator of the hint is only handed to the printing of the parameter types,
  which receives the whole hint here.
\<close>

record ComplementFunctionCall =
  callerArgumentsNode :: NodeArgList
  calleeFuncHolder :: SymbolHolder

datatype ComplementHint = FunctionCall ComplementFunctionCall | OtherComplement

record SignatureInformation =
  label :: string
  parameters :: "string list"
  activeParameter :: nat
  documentation :: string

text \<open>
  What the service calls and is not part of the sources at hand is a parameter: the
  symbol objects of the global scope; the lookup
  \<open>resolveScope(path)?.lookupSymbolWithParent(name)\<close>, which yields no holder when the
  scope or the symbol is missing; the test whether the bounding location of a range,
  extended forward by a number of tokens, holds a position; the order of positions; the
  printing of a translated parameter type; and the documentation comment of a symbol.
\<close>

record SignatureEnv =
  symbols :: "SymbolId \<Rightarrow> SymbolObj"
  lookupCallee :: "ScopePath \<Rightarrow> string \<Rightarrow> SymbolHolder option"
  positionInExtendedRange :: "TokenRange \<Rightarrow> nat \<Rightarrow> Position \<Rightarrow> bool"
  isLessThan :: "Position \<Rightarrow> Position \<Rightarrow> bool"
  stringifyTranslated :: "ComplementFunctionCall \<Rightarrow> ResolvedType option \<Rightarrow> string"
  getDocumentCommentOfSymbol :: "SymbolObj \<Rightarrow> string"

text \<open>A call either returns a value or throws a \<open>TypeError\<close>, on a read of a property of \<open>undefined\<close>.\<close>

datatype 'a Thrown = Returned 'a | TypeError

fun collect :: "'a Thrown list \<Rightarrow> 'a list Thrown" where
  "collect [] = Returned []"
| "collect (TypeError # rest) = TypeError"
| "collect (Returned x # rest) =
     (case collect rest of TypeError \<Rightarrow> TypeError | Returned xs \<Rightarrow> Returned (x # xs))"

text \<open>
  The identifier and the parameter list of the node that a function symbol links to: a
  function, a function definition or an interface method.
\<close>

definition functionNode :: "SymbolObj \<Rightarrow> (ParsedToken \<times> NodeParamList) option" where
  "functionNode symbol =
     (case linkedNode symbol of
        Some (LinkedFunc f) \<Rightarrow> Some (funcIdentifier f, funcParamList f)
      | Some (LinkedFuncDef d) \<Rightarrow> Some (funcDefIdentifier d, funcDefParamList d)
      | Some (LinkedIntfMethod m) \<Rightarrow> Some (intfMethodIdentifier m, intfMethodParamList m)
      | _ \<Rightarrow> None)"

definition readAt :: "'a option list \<Rightarrow> nat \<Rightarrow> 'a option" where
  "readAt xs i = (if i < length xs then xs ! i else None)"

definition argumentStart :: "ComplementFunctionCall \<Rightarrow> nat \<Rightarrow> Position" where
  "argumentStart hint i = locStart (linkedLocation (rangeStart (argList (callerArgumentsNode hint) ! i)))"

definition commaFollows :: "ComplementFunctionCall \<Rightarrow> nat \<Rightarrow> bool" where
  "commaFollows hint i =
     (case linkedNext (rangeEnd (argList (callerArgumentsNode hint) ! i)) of
        None \<Rightarrow> False
      | Some t \<Rightarrow> linkedText t = '','')"

text \<open>
  One round of the loop of \<open>getFunctionSignature\<close>, on the signature label, the
  parameters and the active index.
\<close>

definition signatureStep ::
  "SignatureEnv \<Rightarrow> ComplementFunctionCall \<Rightarrow> SymbolObj \<Rightarrow> NodeParamList \<Rightarrow> Position \<Rightarrow>
   string \<times> string list \<times> nat \<Rightarrow> nat \<Rightarrow> string \<times> string list \<times> nat" where
  "signatureStep env hint expectedCallee paramList caret state i =
     (let (signatureLabel, params, activeIndex) = state;
          param = paramList ! i;
          paramType = readAt (parameterTypes expectedCallee) i;
          typeLabel = stringifyTranslated env hint paramType;
          paramLabel = (case paramIdentifier param of
                          None \<Rightarrow> typeLabel
                        | Some identifier \<Rightarrow> typeLabel @ '' '' @ tokenText identifier);
          signatureLabel1 = (if i > 0 then signatureLabel @ '', '' else signatureLabel) @ paramLabel;
          activeIndex1 =
            (if i < length (argList (callerArgumentsNode hint))
                \<and> \<not> isLessThan env caret (argumentStart hint i)
             then (if commaFollows hint i then i + 1 else i)
             else activeIndex)
      in (signatureLabel1, params @ [paramLabel], activeIndex1))"

definition getFunctionSignature ::
  "SignatureEnv \<Rightarrow> ComplementFunctionCall \<Rightarrow> SymbolObj \<Rightarrow> Position \<Rightarrow> SignatureInformation Thrown" where
  "getFunctionSignature env hint expectedCallee caret =
     (case functionNode expectedCallee of
        None \<Rightarrow> TypeError
      | Some (identifier, paramList) \<Rightarrow>
          (let (signatureLabel, params, activeIndex) =
                 foldl (signatureStep env hint expectedCallee paramList caret)
                   (tokenText identifier @ ''('', [], 0) [0..<length paramList]
           in Returned \<lparr>label = signatureLabel @ '')'', parameters = params,
                        activeParameter = activeIndex,
                        documentation = getDocumentCommentOfSymbol env expectedCallee\<rparr>))"

text \<open>
  The test of \<open>provideSignatureHelp\<close> whether the caller location of a hint is at the
  caret, and the holder that its callee resolves to.
\<close>

definition coversCaret :: "SignatureEnv \<Rightarrow> Position \<Rightarrow> ComplementFunctionCall \<Rightarrow> bool" where
  "coversCaret env caret hint =
     (let range = nodeRange (callerArgumentsNode hint);
          shouldExtend = snd (locEnd (linkedLocation (rangeEnd range))) > snd caret
      in positionInExtendedRange env range (if shouldExtend then 1 else 0) caret)"

definition expectedCalleeOf :: "SignatureEnv \<Rightarrow> ComplementFunctionCall \<Rightarrow> SymbolHolder option" where
  "expectedCalleeOf env hint =
     (let callee = symbols env (firstSymbol (calleeFuncHolder hint))
      in lookupCallee env (scopePath callee) (tokenText (identifierToken callee)))"

fun provideSignatureHelp ::
  "SignatureEnv \<Rightarrow> ComplementHint list \<Rightarrow> Position \<Rightarrow> SignatureInformation list Thrown" where
  "provideSignatureHelp env [] caret = Returned []"
| "provideSignatureHelp env (OtherComplement # rest) caret = provideSignatureHelp env rest caret"
| "provideSignatureHelp env (FunctionCall hint # rest) caret =
     (if coversCaret env caret hint
      then (case expectedCalleeOf env hint of
              None \<Rightarrow> TypeError
            | Some expectedCallee \<Rightarrow>
                if \<not> isFunctionHolder expectedCallee then provideSignatureHelp env rest caret
                else collect (map (\<lambda>callee. getFunctionSignature env hint (symbols env callee) caret)
                               (toList expectedCallee)))
      else provideSignatureHelp env rest caret)"

text \<open>
  The values that the claims about the active parameter speak of. A hint is passed over
  when it is of another kind, when its caller location is not at the caret, or when its
  callee resolves to a symbol that is no function holder. The arguments that have
  started at the caret are those, among the first \<open>n\<close>, whose first token does not start
  after the caret; the active parameter for a callee of \<open>n\<close> parameters is the index of
  the last of them, plus one when a comma follows that argument, and 0 when there is
  none. The commas before the caret are the commas that follow an argument and start
  before the caret.
\<close>

definition passedOver :: "SignatureEnv \<Rightarrow> Position \<Rightarrow> ComplementHint \<Rightarrow> bool" where
  "passedOver env caret x =
     (case x of
        OtherComplement \<Rightarrow> True
      | FunctionCall hint \<Rightarrow>
          \<not> coversCaret env caret hint
          \<or> (case expectedCalleeOf env hint of None \<Rightarrow> False | Some h \<Rightarrow> \<not> isFunctionHolder h))"

definition startedArguments :: "SignatureEnv \<Rightarrow> ComplementFunctionCall \<Rightarrow> Position \<Rightarrow> nat \<Rightarrow> nat list" where
  "startedArguments env hint caret n =
     filter (\<lambda>i. \<not> isLessThan env caret (argumentStart hint i))
       [0..<min n (length (argList (callerArgumentsNode hint)))]"

definition activeParameterFor :: "SignatureEnv \<Rightarrow> ComplementFunctionCall \<Rightarrow> Position \<Rightarrow> nat \<Rightarrow> nat" where
  "activeParameterFor env hint caret n =
     (case rev (startedArguments env hint caret n) of
        [] \<Rightarrow> 0
      | j # others \<Rightarrow> if commaFollows hint j then j + 1 else j)"

definition parameterCount :: "SymbolObj \<Rightarrow> nat" where
  "parameterCount symbol = (case functionNode symbol of None \<Rightarrow> 0 | Some (identifier, paramList) \<Rightarrow> length paramList)"

definition commasBeforeCaret :: "SignatureEnv \<Rightarrow> ComplementFunctionCall \<Rightarrow> Position \<Rightarrow> nat" where
  "commasBeforeCaret env hint caret =
     length (filter (\<lambda>r. case linkedNext (rangeEnd r) of
                            None \<Rightarrow> False
                          | Some t \<Rightarrow> linkedText t = '','' \<and> isLessThan env (locStart (linkedLocation t)) caret)
               (argList (callerArgumentsNode hint)))"

text \<open>
  An example: the call \<open>f(a, b)\<close> on line 0, with \<open>f\<close> at character 0, and a callee \<open>f\<close>
  with the overloads \<open>void f(int x, int y)\<close> (symbol 0) and \<open>void f(int x)\<close> (symbol 1).
  Modelled from the spec: positions are ordered by line and then by character, and a
  position is in a range when it is neither before the start of its first token nor
  after the end of its last token, the range being extended by the tokens that follow.
\<close>

definition callToken :: "string \<Rightarrow> nat \<Rightarrow> LinkedToken option \<Rightarrow> LinkedToken" where
  "callToken t n following =
     LinkedToken t \<lparr>path = ''a.as'', locStart = (0, n), locEnd = (0, n + length t)\<rparr> following"

definition closeToken :: LinkedToken where "closeToken = callToken '')'' 6 None"
definition secondArgument :: LinkedToken where "secondArgument = callToken ''b'' 5 (Some closeToken)"
definition commaToken :: LinkedToken where "commaToken = callToken '','' 3 (Some secondArgument)"
definition firstArgument :: LinkedToken where "firstArgument = callToken ''a'' 2 (Some commaToken)"
definition openToken :: LinkedToken where "openToken = callToken ''('' 1 (Some firstArgument)"

definition exampleCall :: ComplementFunctionCall where
  "exampleCall =
     \<lparr>callerArgumentsNode =
        \<lparr>nodeRange = \<lparr>rangeStart = openToken, rangeEnd = closeToken\<rparr>,
         argList = [\<lparr>rangeStart = firstArgument, rangeEnd = firstArgument\<rparr>,
                    \<lparr>rangeStart = secondArgument, rangeEnd = secondArgument\<rparr>]\<rparr>,
      calleeFuncHolder = FunctionHolder 0 [1]\<rparr>"

definition exampleParam :: "string \<Rightarrow> ParsedParam" where
  "exampleParam name = \<lparr>paramType = NodeType (tokenAt ''int'' 9), paramIdentifier = Some (tokenAt name 9)\<rparr>"

definition exampleOverload :: "ParsedParam list \<Rightarrow> SymbolObj" where
  "exampleOverload params =
     SymbolFunction (tokenAt ''f'' 9) [] None (map (\<lambda>p. Some (ResolvedType 2)) params)
       (Some (LinkedFunc ((exampleFunc ''void'' ''f'' 9 False)\<lparr>funcParamList := params\<rparr>)))
       None False None None"

fun forward :: "nat \<Rightarrow> LinkedToken \<Rightarrow> LinkedToken" where
  "forward 0 t = t"
| "forward (Suc n) t = (case linkedNext t of None \<Rightarrow> t | Some following \<Rightarrow> forward n following)"

definition positionLess :: "Position \<Rightarrow> Position \<Rightarrow> bool" where
  "positionLess p q = (fst p < fst q \<or> (fst p = fst q \<and> snd p < snd q))"

definition exampleSignatureEnv :: SignatureEnv where
  "exampleSignatureEnv =
     \<lparr>symbols = (\<lambda>s. if s = 0 then exampleOverload [exampleParam ''x'', exampleParam ''y'']
                     else if s = 1 then exampleOverload [exampleParam ''x'']
                     else builtinTypeSymbol ''int''),
      lookupCallee = (\<lambda>p name. if name = ''f'' then Some (FunctionHolder 0 [1]) else None),
      positionInExtendedRange = (\<lambda>r n p.
         \<not> positionLess p (locStart (linkedLocation (rangeStart r)))
         \<and> \<not> positionLess (locEnd (linkedLocation (forward n (rangeEnd r)))) p),
      isLessThan = positionLess,
      stringifyTranslated = (\<lambda>hint t. ''int''),
      getDocumentCommentOfSymbol = (\<lambda>s. [])\<rparr>"

section \<open>Properties of the resolver's rescheduling\<close>

text \<open>
  Claim C6. Whenever the resolver reschedules its delayed task, the wait time is 10 ms if
  the direct tier is non-empty, else 100 ms if the indirect tier is non-empty, else
  500 ms if the lazy-indirect tier is non-empty; with all three tiers empty no task is
  scheduled: the resolver is left as it is. This holds in particular after a new
  request (which always finds the direct tier non-empty) and after the pop made by the
  timer's callback (which then leaves nothing pending when all tiers are empty).
\<close>

theorem rescheduleAnalyze_wait_time:
  fixes r :: "('r \<times> bool) AnalysisResolver"
  shows "(directQueue (analysisQueue r) \<noteq> [] \<longrightarrow>
            rescheduleAnalyze r = r\<lparr>analyzerTask := Some 10\<rparr>)
       \<and> (directQueue (analysisQueue r) = [] \<and> indirectQueue (analysisQueue r) \<noteq> [] \<longrightarrow>
            rescheduleAnalyze r = r\<lparr>analyzerTask := Some 100\<rparr>)
       \<and> (directQueue (analysisQueue r) = [] \<and> indirectQueue (analysisQueue r) = []
            \<and> lazyIndirectQueue (analysisQueue r) \<noteq> [] \<longrightarrow>
            rescheduleAnalyze r = r\<lparr>analyzerTask := Some 500\<rparr>)
       \<and> (directQueue (analysisQueue r) = [] \<and> indirectQueue (analysisQueue r) = []
            \<and> lazyIndirectQueue (analysisQueue r) = [] \<longrightarrow>
            rescheduleAnalyze r = r)
       \<and> analyzerTask (request rcd r) = Some 10
       \<and> analyzerTask (handleAnalyze popAndAnalyze r) =
           (let q = popAndAnalyze (analysisQueue r)
            in if directQueue q \<noteq> [] then Some 10
               else if indirectQueue q \<noteq> [] then Some 100
               else if lazyIndirectQueue q \<noteq> [] then Some 500
               else None)"
  by (simp add: rescheduleAnalyze_def reschedule_def request_def handleAnalyze_def
      hasDirect_def hasIndirect_def hasLazyIndirect_def pushDirect_def
      veryShortWaitTime_def shortWaitTime_def mediumWaitTime_def Let_def)

theorem rescheduleAnalyze_wait_time_witness:
  "directQueue (analysisQueue \<lparr>analysisQueue = \<lparr>directQueue = [], indirectQueue = [(''a.as'', False)],
        lazyIndirectQueue = [(''b.as'', False)]\<rparr>, analyzerTask = None\<rparr>) = []
   \<and> indirectQueue (analysisQueue \<lparr>analysisQueue = \<lparr>directQueue = [], indirectQueue = [(''a.as'', False)],
        lazyIndirectQueue = [(''b.as'', False)]\<rparr>, analyzerTask = None\<rparr>) \<noteq> []
   \<and> rescheduleAnalyze \<lparr>analysisQueue = \<lparr>directQueue = [], indirectQueue = [(''a.as'', False)],
        lazyIndirectQueue = [(''b.as'', False)]\<rparr>, analyzerTask = None\<rparr>
     = \<lparr>analysisQueue = \<lparr>directQueue = [], indirectQueue = [(''a.as'', False)],
        lazyIndirectQueue = [(''b.as'', False)]\<rparr>, analyzerTask = Some 100\<rparr>"
  using rescheduleAnalyze_wait_time
    [where r = "\<lparr>analysisQueue = \<lparr>directQueue = [], indirectQueue = [(''a.as'', False)],
        lazyIndirectQueue = [(''b.as'', False)]\<rparr>, analyzerTask = None\<rparr>"
       and rcd = "''a.as''" and popAndAnalyze = "\<lambda>q. q"]
  by simp

section \<open>Properties of the scope trees\<close>

lemma selectors_setOwnerNode [simp]:
  "ownerNode (setOwnerNode n s) = n" "key (setOwnerNode n s) = key s"
  "childScopes (setOwnerNode n s) = childScopes s" "symbolMap (setOwnerNode n s) = symbolMap s"
  by (simp_all add: setOwnerNode_def)

lemma setOwnerNode_same: "ownerNode c = n \<Longrightarrow> setOwnerNode n c = c"
  by (cases c) (simp add: setOwnerNode_def)

lemma childScopes_setChildScope [simp]:
  "map_of (childScopes (setChildScope k c s)) = (map_of (childScopes s))(k \<mapsto> c)"
  by (simp add: setChildScope_def update_conv')

text \<open>
  Claim C5. \<open>findScopeShallowlyOrInsert\<close> always returns the child scope that the
  (updated) parent holds under the identifier. When no child existed, the returned scope
  is a new one carrying the supplied owner node, inserted into the parent, and no
  diagnostic is added. When a child existed without owner node, the supplied owner node
  is adopted onto it and no diagnostic is added. When a child existed with an owner node,
  it is returned as it is and the parent is unchanged. A diagnostic (at the identifier
  token's location) is added exactly when an owner node is supplied and the child found
  already had a different owner node.
\<close>

theorem findScopeShallowlyOrInsert_cases:
  assumes "findScopeShallowlyOrInsert owner scope tok ds = (scope', found, ds')"
  shows "map_of (childScopes scope') (tokenText tok) = Some found
    \<and> (map_of (childScopes scope) (tokenText tok) = None \<longrightarrow>
         found = createSymbolScope owner (tokenText tok)
         \<and> scope' = setChildScope (tokenText tok) found scope \<and> ds' = ds)
    \<and> (\<forall>c. map_of (childScopes scope) (tokenText tok) = Some c \<and> ownerNode c = None \<longrightarrow>
         found = setOwnerNode owner c \<and> ds' = ds)
    \<and> (\<forall>c. map_of (childScopes scope) (tokenText tok) = Some c \<and> ownerNode c \<noteq> None \<longrightarrow>
         found = c \<and> scope' = scope)
    \<and> ds' = (if owner \<noteq> None \<and> (\<exists>c. map_of (childScopes scope) (tokenText tok) = Some c
                   \<and> ownerNode c \<noteq> None \<and> ownerNode c \<noteq> owner)
             then ds @ [(location tok, alreadyDefinedMessage (tokenText tok))] else ds)"
  using assms
  by (auto simp: findScopeShallowlyOrInsert_def findScopeShallowlyThenInsertByIdentifier_def
      createSymbolScopeAndInsert_def createSymbolScope_def addError_def Let_def setOwnerNode_same
      split: option.splits if_splits prod.splits)

theorem findScopeShallowlyOrInsert_cases_witness:
  "findScopeShallowlyOrInsert (Some (1::nat))
      (SymbolScope None ''g'' [(''f'', SymbolScope (Some 2) ''f'' [] [])] [])
      \<lparr>tokenText = ''f'', location = \<lparr>path = ''a.as'', locStart = (3, 0), locEnd = (3, 1)\<rparr>\<rparr> []
    = (SymbolScope None ''g'' [(''f'', SymbolScope (Some 2) ''f'' [] [])] [],
       SymbolScope (Some 2) ''f'' [] [],
       [(\<lparr>path = ''a.as'', locStart = (3, 0), locEnd = (3, 1)\<rparr>, alreadyDefinedMessage ''f'')])
   \<and> map_of (childScopes (SymbolScope None ''g'' [(''f'', SymbolScope (Some (2::nat)) ''f'' [] [])] []))
        ''f'' = Some (SymbolScope (Some 2) ''f'' [] [])"
proof -
  have h: "findScopeShallowlyOrInsert (Some (1::nat))
      (SymbolScope None ''g'' [(''f'', SymbolScope (Some 2) ''f'' [] [])] [])
      \<lparr>tokenText = ''f'', location = \<lparr>path = ''a.as'', locStart = (3, 0), locEnd = (3, 1)\<rparr>\<rparr> []
    = (SymbolScope None ''g'' [(''f'', SymbolScope (Some 2) ''f'' [] [])] [],
       SymbolScope (Some 2) ''f'' [] [],
       [(\<lparr>path = ''a.as'', locStart = (3, 0), locEnd = (3, 1)\<rparr>, alreadyDefinedMessage ''f'')])"
    by (simp add: findScopeShallowlyOrInsert_def findScopeShallowlyThenInsertByIdentifier_def
        addError_def)
  from findScopeShallowlyOrInsert_cases[OF h] h show ?thesis by simp
qed

lemma set_snd_update: "snd ` set (AList.update k v al) \<subseteq> insert v (snd ` set al)"
  by (induction al) auto

lemma allSymbols_unfold:
  "set (allSymbols s) = snd ` set (symbolMap s) \<union> (\<Union>c \<in> snd ` set (childScopes s). set (allSymbols c))"
  by (cases s) auto

lemma allSymbols_setSymbol: "set (allSymbols (setSymbol k v s)) \<subseteq> insert v (set (allSymbols s))"
  using set_snd_update[of k v "symbolMap s"]
  by (auto simp: allSymbols_unfold[of "setSymbol k v s"] allSymbols_unfold[of s] setSymbol_def)

lemma UN_snd_update:
  "(\<Union>c \<in> snd ` set (AList.update k v al). f c) \<subseteq> f v \<union> (\<Union>c \<in> snd ` set al. f c)"
  using set_snd_update[of k v al] by blast

lemma allSymbols_setChildScope:
  "set (allSymbols (setChildScope k c s)) \<subseteq> set (allSymbols c) \<union> set (allSymbols s)"
proof -
  have "set (allSymbols (setChildScope k c s))
        = snd ` set (symbolMap s) \<union> (\<Union>x \<in> snd ` set (AList.update k c (childScopes s)). set (allSymbols x))"
    by (simp add: allSymbols_unfold[of "setChildScope k c s"] setChildScope_def)
  then show ?thesis
    using UN_snd_update[where k = k and v = c and al = "childScopes s" and f = "\<lambda>x. set (allSymbols x)"] allSymbols_unfold[of s]
    by blast
qed

lemma allSymbols_child:
  "map_of (childScopes s) k = Some c \<Longrightarrow> set (allSymbols c) \<subseteq> set (allSymbols s)"
  by (force simp: allSymbols_unfold[of s] dest: map_of_SomeD)

lemma allSymbols_setOwnerNode [simp]: "allSymbols (setOwnerNode n s) = allSymbols s"
  by (cases s) (simp add: setOwnerNode_def)

lemma allSymbols_findScope:
  assumes "findScopeShallowlyThenInsertByIdentifier owner d k = (d', found)"
  shows "set (allSymbols d') \<subseteq> set (allSymbols d) \<and> set (allSymbols found) \<subseteq> set (allSymbols d)"
proof (cases "map_of (childScopes d) k")
  case None
  with assms have "found = createSymbolScope owner k" "d' = setChildScope k found d"
    by (auto simp: findScopeShallowlyThenInsertByIdentifier_def createSymbolScopeAndInsert_def Let_def)
  moreover have "allSymbols (createSymbolScope owner k) = []"
    by (simp add: createSymbolScope_def)
  ultimately show ?thesis
    using allSymbols_setChildScope[of k found d] by auto
next
  case (Some c)
  note sub = allSymbols_child[OF Some]
  from assms Some have "(d' = d \<and> found = c) \<or> (found = setOwnerNode owner c \<and> d' = setChildScope k found d)"
    by (auto simp: findScopeShallowlyThenInsertByIdentifier_def Let_def split: if_splits)
  then show ?thesis
  proof
    assume "d' = d \<and> found = c"
    then show ?thesis using sub by simp
  next
    assume h: "found = setOwnerNode owner c \<and> d' = setChildScope k found d"
    then have "set (allSymbols found) = set (allSymbols c)" by simp
    then show ?thesis
      using h sub allSymbols_setChildScope[of k found d] by blast
  qed
qed

lemma allSymbols_copySymbolEntries:
  "set (allSymbols (copySymbolEntries option entries d))
     \<subseteq> set (allSymbols d) \<union> {s \<in> snd ` set entries. canCopy option s}"
proof (induction entries arbitrary: d)
  case Nil
  then show ?case by simp
next
  case (Cons e entries)
  obtain k v where e: "e = (k, v)" by (cases e)
  show ?case
    using Cons.IH[of "if canCopy option v then setSymbol k v d else d"] allSymbols_setSymbol[of k v d]
    by (auto simp: e split: if_splits)
qed

lemma allSymbols_copySymbolsInScope:
  "set (allSymbols (copySymbolsInScope gp option src d))
     \<subseteq> set (allSymbols d) \<union> {s \<in> set (allSymbols src). canCopy option s}"
  and allSymbols_copyChildScopes:
  "set (allSymbols (copyChildScopes gp option children d))
     \<subseteq> set (allSymbols d) \<union> {s \<in> (\<Union>c \<in> snd ` set children. set (allSymbols c)). canCopy option s}"
proof (induction gp option src d and gp option children d
       rule: copySymbolsInScope_copyChildScopes.induct)
  case (1 gp option owner k children symbols d)
  show ?case
    using "1.IH"[of ] allSymbols_copySymbolEntries[of option symbols d]
    by auto
next
  case (2 gp option d)
  show ?case by simp
next
  case (3 gp option k child rest d)
  show ?case
  proof (cases "skipChildScope option (gp child)")
    case True
    then have eq: "copyChildScopes gp option ((k, child) # rest) d = copyChildScopes gp option rest d"
      by simp
    have U: "(\<Union>c \<in> snd ` set ((k, child) # rest). set (allSymbols c))
             = set (allSymbols child) \<union> (\<Union>c \<in> snd ` set rest. set (allSymbols c))"
      by simp
    show ?thesis unfolding eq U using "3.IH"(1)[OF True] by blast
  next
    case False
    obtain d' destChild where f: "findScopeShallowlyThenInsertByIdentifier (ownerNode child) d k = (d', destChild)"
      by (cases "findScopeShallowlyThenInsertByIdentifier (ownerNode child) d k")
    note ih2 = "3.IH"(2)[OF False f[symmetric] refl]
    note ih3 = "3.IH"(3)[OF False f[symmetric] refl refl]
    note fs = allSymbols_findScope[OF f]
    note sc = allSymbols_setChildScope[of k "copySymbolsInScope gp option child destChild" d']
    have eq: "copyChildScopes gp option ((k, child) # rest) d
          = copyChildScopes gp option rest (setChildScope k (copySymbolsInScope gp option child destChild) d')"
      using False f by simp
    have U: "(\<Union>c \<in> snd ` set ((k, child) # rest). set (allSymbols c))
             = set (allSymbols child) \<union> (\<Union>c \<in> snd ` set rest. set (allSymbols c))"
      by simp
    show ?thesis unfolding eq U using ih2 ih3 fs sc by blast
  qed
qed

text \<open>
  Claim C10. The \<open>pureScope\<close> getter of an \<open>AnalyzedScope\<close> (as its constructor builds it,
  with an empty buffer) is memoized: the first read stores the scope it returns in
  \<open>pureBuffer\<close>; every later read returns that same stored scope and leaves the object as
  it is, whatever the full scope has become in the meantime, so no second copy is made.
  Every symbol anywhere in the pure scope's symbol tables is a symbol of the full scope
  whose declared place lies in the \<open>AnalyzedScope\<close>'s own file.
\<close>

theorem pureScope_memoized_and_pure:
  assumes "pureScope gp (newAnalyzedScope p full) = (a1, p1)"
  shows "(\<forall>s \<in> set (allSymbols p1). path (location (declaredPlace s)) = p \<and> s \<in> set (allSymbols full))
       \<and> pureBuffer a1 = Some p1
       \<and> pureScope gp a1 = (a1, p1)
       \<and> (\<forall>gp' full'. pureScope gp' (a1\<lparr>fullScope := full'\<rparr>) = (a1\<lparr>fullScope := full'\<rparr>, p1))"
proof -
  let ?opt = "\<lparr>targetSrcPath = Some p, excludeSrcPath = None\<rparr>"
  let ?buf = "createSymbolScope (ownerNode full) (key full)"
  from assms have p1: "p1 = copySymbolsInScope gp ?opt full ?buf"
    and a1: "a1 = (newAnalyzedScope p full)\<lparr>pureBuffer := Some p1\<rparr>"
    by (auto simp: pureScope_def newAnalyzedScope_def Let_def)
  have "allSymbols ?buf = []" by (simp add: createSymbolScope_def)
  with allSymbols_copySymbolsInScope[of gp ?opt full ?buf]
  have "set (allSymbols p1) \<subseteq> {s \<in> set (allSymbols full). canCopy ?opt s}"
    by (simp add: p1)
  moreover have "\<And>s. canCopy ?opt s \<Longrightarrow> path (location (declaredPlace s)) = p"
    by (simp add: canCopy_def)
  ultimately have "\<forall>s \<in> set (allSymbols p1). path (location (declaredPlace s)) = p \<and> s \<in> set (allSymbols full)"
    by blast
  moreover have "pureBuffer a1 = Some p1" by (simp add: a1)
  moreover have "pureScope gp a1 = (a1, p1)" by (simp add: pureScope_def a1)
  moreover have "\<forall>gp' full'. pureScope gp' (a1\<lparr>fullScope := full'\<rparr>) = (a1\<lparr>fullScope := full'\<rparr>, p1)"
    by (simp add: pureScope_def a1)
  ultimately show ?thesis by blast
qed

theorem pureScope_memoized_and_pure_witness:
  "pureScope (\<lambda>_. None) (newAnalyzedScope ''a.as''
      (SymbolScope (None :: nat option) ''a.as''
        [(''N'', SymbolScope None ''N'' []
            [(''y'', \<lparr>declaredPlace = \<lparr>tokenText = ''y'',
                location = \<lparr>path = ''a.as'', locStart = (1, 0), locEnd = (1, 1)\<rparr>\<rparr>\<rparr>)])]
        [(''x'', \<lparr>declaredPlace = \<lparr>tokenText = ''x'',
                location = \<lparr>path = ''b.as'', locStart = (0, 0), locEnd = (0, 1)\<rparr>\<rparr>\<rparr>)]))
    = (\<lparr>filePath = ''a.as'',
        fullScope = SymbolScope None ''a.as''
        [(''N'', SymbolScope None ''N'' []
            [(''y'', \<lparr>declaredPlace = \<lparr>tokenText = ''y'',
                location = \<lparr>path = ''a.as'', locStart = (1, 0), locEnd = (1, 1)\<rparr>\<rparr>\<rparr>)])]
        [(''x'', \<lparr>declaredPlace = \<lparr>tokenText = ''x'',
                location = \<lparr>path = ''b.as'', locStart = (0, 0), locEnd = (0, 1)\<rparr>\<rparr>\<rparr>)],
        pureBuffer = Some (SymbolScope None ''a.as''
        [(''N'', SymbolScope None ''N'' []
            [(''y'', \<lparr>declaredPlace = \<lparr>tokenText = ''y'',
                location = \<lparr>path = ''a.as'', locStart = (1, 0), locEnd = (1, 1)\<rparr>\<rparr>\<rparr>)])] [])\<rparr>,
       SymbolScope None ''a.as''
        [(''N'', SymbolScope None ''N'' []
            [(''y'', \<lparr>declaredPlace = \<lparr>tokenText = ''y'',
                location = \<lparr>path = ''a.as'', locStart = (1, 0), locEnd = (1, 1)\<rparr>\<rparr>\<rparr>)])] [])
   \<and> list_all (\<lambda>s. path (location (declaredPlace s)) = ''a.as'')
        (allSymbols (SymbolScope (None :: nat option) ''a.as''
        [(''N'', SymbolScope None ''N'' []
            [(''y'', \<lparr>declaredPlace = \<lparr>tokenText = ''y'',
                location = \<lparr>path = ''a.as'', locStart = (1, 0), locEnd = (1, 1)\<rparr>\<rparr>\<rparr>)])] []))"
proof -
  have h: "pureScope (\<lambda>_. None) (newAnalyzedScope ''a.as''
      (SymbolScope (None :: nat option) ''a.as''
        [(''N'', SymbolScope None ''N'' []
            [(''y'', \<lparr>declaredPlace = \<lparr>tokenText = ''y'',
                location = \<lparr>path = ''a.as'', locStart = (1, 0), locEnd = (1, 1)\<rparr>\<rparr>\<rparr>)])]
        [(''x'', \<lparr>declaredPlace = \<lparr>tokenText = ''x'',
                location = \<lparr>path = ''b.as'', locStart = (0, 0), locEnd = (0, 1)\<rparr>\<rparr>\<rparr>)]))
    = (\<lparr>filePath = ''a.as'',
        fullScope = SymbolScope None ''a.as''
        [(''N'', SymbolScope None ''N'' []
            [(''y'', \<lparr>declaredPlace = \<lparr>tokenText = ''y'',
                location = \<lparr>path = ''a.as'', locStart = (1, 0), locEnd = (1, 1)\<rparr>\<rparr>\<rparr>)])]
        [(''x'', \<lparr>declaredPlace = \<lparr>tokenText = ''x'',
                location = \<lparr>path = ''b.as'', locStart = (0, 0), locEnd = (0, 1)\<rparr>\<rparr>\<rparr>)],
        pureBuffer = Some (SymbolScope None ''a.as''
        [(''N'', SymbolScope None ''N'' []
            [(''y'', \<lparr>declaredPlace = \<lparr>tokenText = ''y'',
                location = \<lparr>path = ''a.as'', locStart = (1, 0), locEnd = (1, 1)\<rparr>\<rparr>\<rparr>)])] [])\<rparr>,
       SymbolScope None ''a.as''
        [(''N'', SymbolScope None ''N'' []
            [(''y'', \<lparr>declaredPlace = \<lparr>tokenText = ''y'',
                location = \<lparr>path = ''a.as'', locStart = (1, 0), locEnd = (1, 1)\<rparr>\<rparr>\<rparr>)])] [])"
    by (simp add: pureScope_def newAnalyzedScope_def createSymbolScope_def canCopy_def
        skipChildScope_def findScopeShallowlyThenInsertByIdentifier_def
        createSymbolScopeAndInsert_def setChildScope_def setSymbol_def Let_def)
  from pureScope_memoized_and_pure[OF h] h show ?thesis
    by (simp add: list_all_iff)
qed

section \<open>Properties of the anonymous identifiers\<close>

declare showNat.simps [simp del]

lemma of_char_digitChar: "d < 10 \<Longrightarrow> (of_char (digitChar d) :: nat) = 48 + d"
  by (simp add: digitChar_def)

lemma readNat_showNat: "readNat (showNat n) = n"
proof (induction n rule: showNat.induct)
  case (1 n)
  show ?case
  proof (cases "n < 10")
    case True
    then show ?thesis
      by (subst showNat.simps) (simp add: readNat_def of_char_digitChar)
  next
    case False
    have "n mod 10 < 10" by simp
    then have d: "(of_char (digitChar (n mod 10)) :: nat) = 48 + n mod 10"
      by (rule of_char_digitChar)
    have "readNat (showNat n) = 10 * readNat (showNat (n div 10)) + n mod 10"
      using False by (subst showNat.simps) (simp add: readNat_def d)
    then show ?thesis using "1.IH"[OF False] by simp
  qed
qed

lemma showNat_inj: "showNat m = showNat n \<Longrightarrow> m = n"
  by (metis readNat_showNat)

lemma showNat_digits: "c \<in> set (showNat n) \<Longrightarrow> 48 \<le> (of_char c :: nat)"
proof (induction n rule: showNat.induct)
  case (1 n)
  show ?case
  proof (cases "n < 10")
    case True
    with "1.prems" have "c = digitChar n" by (subst (asm) showNat.simps) simp
    then show ?thesis using True by (simp add: of_char_digitChar)
  next
    case False
    with "1.prems" have "c \<in> set (showNat (n div 10)) \<or> c = digitChar (n mod 10)"
      by (subst (asm) showNat.simps) auto
    then show ?thesis
      using "1.IH"[OF False] of_char_digitChar[of "n mod 10"] by auto
  qed
qed

lemma showNat_nonempty: "showNat n \<noteq> []"
  by (subst showNat.simps) simp

lemma showNat_no_minus: "showNat n \<noteq> CHR ''-'' # s"
proof
  assume "showNat n = CHR ''-'' # s"
  then have "CHR ''-'' \<in> set (showNat n)" by simp
  from showNat_digits[OF this] show False by simp
qed

lemma numberToString_inj: "numberToString i = numberToString j \<Longrightarrow> i = j"
  using showNat_inj[of "nat i" "nat j"] showNat_inj[of "nat (- i)" "nat (- j)"]
    showNat_no_minus[of "nat i"] showNat_no_minus[of "nat j"]
  by (auto simp: numberToString_def split: if_splits) (metis)+

lemma createAnonymousIdentifier_below:
  "c < maxExactInteger \<Longrightarrow>
     createAnonymousIdentifier c = (CHR ''~'' # numberToString (c + 1), c + 1)"
  by (simp add: createAnonymousIdentifier_def increment_def Let_def)

lemma anonymousIdentifiers_range:
  "c + int k \<le> maxExactInteger \<Longrightarrow> s \<in> set (anonymousIdentifiers k c) \<Longrightarrow>
     \<exists>i. c < i \<and> i \<le> c + int k \<and> s = CHR ''~'' # numberToString i"
proof (induction k arbitrary: c)
  case 0
  then show ?case by simp
next
  case (Suc k)
  from Suc.prems(1) have b: "c < maxExactInteger" and b': "(c + 1) + int k \<le> maxExactInteger"
    by simp_all
  from Suc.prems(2) have "s = CHR ''~'' # numberToString (c + 1) \<or> s \<in> set (anonymousIdentifiers k (c + 1))"
    by (auto simp: createAnonymousIdentifier_below[OF b])
  then show ?case
  proof
    assume "s = CHR ''~'' # numberToString (c + 1)"
    then show ?thesis by (intro exI[of _ "c + 1"]) simp
  next
    assume "s \<in> set (anonymousIdentifiers k (c + 1))"
    from Suc.IH[OF b' this] obtain i where "c + 1 < i" "i \<le> c + 1 + int k" "s = CHR ''~'' # numberToString i"
      by blast
    then show ?thesis by (intro exI[of _ i]) simp
  qed
qed

lemma anonymousIdentifiers_distinct:
  "c + int k \<le> maxExactInteger \<Longrightarrow> distinct (anonymousIdentifiers k c)"
proof (induction k arbitrary: c)
  case 0
  then show ?case by simp
next
  case (Suc k)
  from Suc.prems have b: "c < maxExactInteger" and b': "(c + 1) + int k \<le> maxExactInteger"
    by simp_all
  have "CHR ''~'' # numberToString (c + 1) \<notin> set (anonymousIdentifiers k (c + 1))"
  proof
    assume "CHR ''~'' # numberToString (c + 1) \<in> set (anonymousIdentifiers k (c + 1))"
    from anonymousIdentifiers_range[OF b' this] obtain i
      where "c + 1 < i" "numberToString (c + 1) = numberToString i" by auto
    then show False using numberToString_inj by blast
  qed
  then show ?case
    using Suc.IH[OF b'] by (simp add: createAnonymousIdentifier_below[OF b])
qed

lemma isAnonymousIdentifier_created: "isAnonymousIdentifier (fst (createAnonymousIdentifier c))"
  by (simp add: createAnonymousIdentifier_def isAnonymousIdentifier_def startsWith_def Let_def)

lemma isAnonymousIdentifier_range:
  "s \<in> set (anonymousIdentifiers k c) \<Longrightarrow> isAnonymousIdentifier s"
proof (induction k arbitrary: c)
  case 0
  then show ?case by simp
next
  case (Suc k)
  then show ?case
    using isAnonymousIdentifier_created[of c]
    by (auto simp: split_def Let_def)
qed

text \<open>
  An insertion under a holder scope that has no child of the given name creates the
  child, at the end of the holder's child table.
\<close>

lemma insertScope_new:
  assumes "a \<notin> set (childScopeTable (scopeStore st holder))"
  shows "fst (insertScope holder a node st) = holder @ [a]"
    and "childScopeTable (scopeStore (snd (insertScope holder a node st)) holder)
           = childScopeTable (scopeStore st holder) @ [a]"
    and "uniqueIdentifier (snd (insertScope holder a node st)) = uniqueIdentifier st"
  using assms by (simp_all add: insertScope_def Let_def putScope_def)

lemma nextAnonymousIdentifier_below:
  assumes "uniqueIdentifier st < maxExactInteger"
  shows "fst (nextAnonymousIdentifier st) = CHR ''~'' # numberToString (uniqueIdentifier st + 1)"
    and "scopeStore (snd (nextAnonymousIdentifier st)) = scopeStore st"
    and "uniqueIdentifier (snd (nextAnonymousIdentifier st)) = uniqueIdentifier st + 1"
  using assms by (simp_all add: nextAnonymousIdentifier_def createAnonymousIdentifier_below)

lemma insertAnonymousScopes_effect:
  assumes "uniqueIdentifier st + int (length nodes) \<le> maxExactInteger"
    and "set (childScopeTable (scopeStore st holder))
           \<inter> set (anonymousIdentifiers (length nodes) (uniqueIdentifier st)) = {}"
  shows "fst (insertAnonymousScopes holder nodes st)
           = map (\<lambda>a. holder @ [a]) (anonymousIdentifiers (length nodes) (uniqueIdentifier st))
       \<and> childScopeTable (scopeStore (snd (insertAnonymousScopes holder nodes st)) holder)
           = childScopeTable (scopeStore st holder)
               @ anonymousIdentifiers (length nodes) (uniqueIdentifier st)"
  using assms
proof (induction nodes arbitrary: st)
  case Nil
  then show ?case by simp
next
  case (Cons node nodes)
  let ?c = "uniqueIdentifier st"
  let ?a = "CHR ''~'' # numberToString (?c + 1)"
  from Cons.prems(1) have b: "?c < maxExactInteger"
    and b': "(?c + 1) + int (length nodes) \<le> maxExactInteger" by simp_all
  have ids: "anonymousIdentifiers (length (node # nodes)) ?c
               = ?a # anonymousIdentifiers (length nodes) (?c + 1)"
    by (simp add: createAnonymousIdentifier_below[OF b])
  have d: "distinct (?a # anonymousIdentifiers (length nodes) (?c + 1))"
    using anonymousIdentifiers_distinct[OF Cons.prems(1)] unfolding ids .
  obtain x st1 where e1: "nextAnonymousIdentifier st = (x, st1)"
    by (cases "nextAnonymousIdentifier st")
  note n1 = nextAnonymousIdentifier_below[OF b, unfolded e1 fst_conv snd_conv]
  obtain f st2 where e2: "insertScope holder x node st1 = (f, st2)"
    by (cases "insertScope holder x node st1")
  have new: "x \<notin> set (childScopeTable (scopeStore st1 holder))"
    using Cons.prems(2) n1 unfolding ids by auto
  note n2 = insertScope_new[OF new, of node, unfolded e2 fst_conv snd_conv]
  have c2: "uniqueIdentifier st2 = ?c + 1" using n1 n2 by simp
  have t2: "childScopeTable (scopeStore st2 holder) = childScopeTable (scopeStore st holder) @ [?a]"
    using n1 n2 by simp
  have p1: "uniqueIdentifier st2 + int (length nodes) \<le> maxExactInteger" using b' c2 by simp
  have p2: "set (childScopeTable (scopeStore st2 holder))
              \<inter> set (anonymousIdentifiers (length nodes) (uniqueIdentifier st2)) = {}"
    using Cons.prems(2) d unfolding ids t2 c2 by auto
  note ih = Cons.IH[OF p1 p2, unfolded c2 t2]
  have eq: "insertAnonymousScopes holder (node # nodes) st
              = (f # fst (insertAnonymousScopes holder nodes st2),
                 snd (insertAnonymousScopes holder nodes st2))"
    by (simp add: e1 e2 split_def Let_def)
  show ?case
    unfolding eq fst_conv snd_conv ids using ih n1 n2 by simp
qed

text \<open>
  Claim C9. Every identifier that \<open>createAnonymousIdentifier\<close> returns starts with \<open>~\<close>,
  so \<open>isAnonymousIdentifier\<close> accepts it, and the call increases the counter as long as
  the counter is below \<open>2^53\<close>, where a JavaScript number counts exactly. The identifiers
  of \<open>k\<close> successive calls are pairwise distinct when the counter does not pass \<open>2^53\<close>
  during them. Hence anonymous scopes that are inserted one after another under a holder
  scope, none of whose children has one of the coming identifiers as its name, do not
  collide: every insertion creates a new child scope, named by its identifier, at the
  end of the holder's child table.
\<close>

theorem createAnonymousIdentifier_fresh:
  "isAnonymousIdentifier (fst (createAnonymousIdentifier c))
   \<and> (c < maxExactInteger \<longrightarrow> c < snd (createAnonymousIdentifier c))
   \<and> (\<forall>s \<in> set (anonymousIdentifiers k c). isAnonymousIdentifier s)
   \<and> (c + int k \<le> maxExactInteger \<longrightarrow> distinct (anonymousIdentifiers k c))
   \<and> (uniqueIdentifier st + int (length nodes) \<le> maxExactInteger
       \<and> set (childScopeTable (scopeStore st holder))
             \<inter> set (anonymousIdentifiers (length nodes) (uniqueIdentifier st)) = {}
       \<longrightarrow>
         fst (insertAnonymousScopes holder nodes st)
           = map (\<lambda>a. holder @ [a]) (anonymousIdentifiers (length nodes) (uniqueIdentifier st))
         \<and> distinct (fst (insertAnonymousScopes holder nodes st))
         \<and> childScopeTable (scopeStore (snd (insertAnonymousScopes holder nodes st)) holder)
             = childScopeTable (scopeStore st holder)
                 @ anonymousIdentifiers (length nodes) (uniqueIdentifier st))"
proof (intro conjI impI ballI)
  show "isAnonymousIdentifier (fst (createAnonymousIdentifier c))"
    by (rule isAnonymousIdentifier_created)
next
  assume "c < maxExactInteger"
  then show "c < snd (createAnonymousIdentifier c)"
    by (simp add: createAnonymousIdentifier_below)
next
  fix s assume "s \<in> set (anonymousIdentifiers k c)"
  then show "isAnonymousIdentifier s" by (rule isAnonymousIdentifier_range)
next
  assume "c + int k \<le> maxExactInteger"
  then show "distinct (anonymousIdentifiers k c)" by (rule anonymousIdentifiers_distinct)
next
  assume a: "uniqueIdentifier st + int (length nodes) \<le> maxExactInteger
       \<and> set (childScopeTable (scopeStore st holder))
             \<inter> set (anonymousIdentifiers (length nodes) (uniqueIdentifier st)) = {}"
  note e = insertAnonymousScopes_effect[OF conjunct1[OF a] conjunct2[OF a]]
  show "fst (insertAnonymousScopes holder nodes st)
           = map (\<lambda>a. holder @ [a]) (anonymousIdentifiers (length nodes) (uniqueIdentifier st))"
    using e by blast
  show "childScopeTable (scopeStore (snd (insertAnonymousScopes holder nodes st)) holder)
             = childScopeTable (scopeStore st holder)
                 @ anonymousIdentifiers (length nodes) (uniqueIdentifier st)"
    using e by blast
  have "inj (\<lambda>a. holder @ [a])" by (simp add: inj_def)
  then show "distinct (fst (insertAnonymousScopes holder nodes st))"
    using e anonymousIdentifiers_distinct[OF conjunct1[OF a]] by (simp add: distinct_map inj_on_def)
qed

theorem createAnonymousIdentifier_fresh_witness:
  "anonymousIdentifiers 3 initialUniqueIdentifier = [''~0'', ''~1'', ''~2'']
   \<and> initialUniqueIdentifier < snd (createAnonymousIdentifier initialUniqueIdentifier)
   \<and> isAnonymousIdentifier ''~1''
   \<and> distinct (anonymousIdentifiers 3 initialUniqueIdentifier)
   \<and> childScopeTable (scopeStore (startHoist exampleGlobalScope) [''f'']) = []
   \<and> fst (insertAnonymousScopes [''f''] [None, None] (startHoist exampleGlobalScope))
       = [[''f'', ''~0''], [''f'', ''~1'']]
   \<and> childScopeTable (scopeStore (snd (insertAnonymousScopes [''f''] [None, None]
          (startHoist exampleGlobalScope))) [''f'']) = [''~0'', ''~1'']"
proof -
  let ?st = "startHoist exampleGlobalScope"
  note T = createAnonymousIdentifier_fresh[of initialUniqueIdentifier 3 ?st "[None, None]" "[''f'']"]
  have ids: "anonymousIdentifiers 3 initialUniqueIdentifier = [''~0'', ''~1'', ''~2'']"
    by code_simp
  have ids2: "anonymousIdentifiers 2 (uniqueIdentifier ?st) = [''~0'', ''~1'']"
    by code_simp
  have b: "initialUniqueIdentifier < maxExactInteger" by code_simp
  have b3: "initialUniqueIdentifier + int 3 \<le> maxExactInteger" by code_simp
  have u: "uniqueIdentifier ?st + int (length [None :: LinkedNode option, None]) \<le> maxExactInteger"
    by code_simp
  have ch: "childScopeTable (scopeStore ?st [''f'']) = []" by code_simp
  have inc: "initialUniqueIdentifier < snd (createAnonymousIdentifier initialUniqueIdentifier)"
    using T[THEN conjunct2, THEN conjunct1] b by (rule mp)
  have "''~1'' \<in> set (anonymousIdentifiers 3 initialUniqueIdentifier)" unfolding ids by simp
  with T[THEN conjunct2, THEN conjunct2, THEN conjunct1] have an: "isAnonymousIdentifier ''~1''"
    by (rule bspec)
  have di: "distinct (anonymousIdentifiers 3 initialUniqueIdentifier)"
    using T[THEN conjunct2, THEN conjunct2, THEN conjunct2, THEN conjunct1] b3 by (rule mp)
  have pre: "uniqueIdentifier ?st + int (length [None :: LinkedNode option, None]) \<le> maxExactInteger
       \<and> set (childScopeTable (scopeStore ?st [''f'']))
             \<inter> set (anonymousIdentifiers (length [None :: LinkedNode option, None]) (uniqueIdentifier ?st)) = {}"
    using u ch by simp
  note R = T[THEN conjunct2, THEN conjunct2, THEN conjunct2, THEN conjunct2, THEN mp, OF pre]
  have len: "length [None :: LinkedNode option, None] = 2" by simp
  have r1: "fst (insertAnonymousScopes [''f''] [None, None] ?st) = [[''f'', ''~0''], [''f'', ''~1'']]"
    using R[THEN conjunct1] unfolding len ids2 by simp
  have r2: "childScopeTable (scopeStore (snd (insertAnonymousScopes [''f''] [None, None] ?st)) [''f''])
              = [''~0'', ''~1'']"
    using R[THEN conjunct2, THEN conjunct2] unfolding len ids2 ch by simp
  show ?thesis using ids inc an di ch r1 r2 by blast
qed

section \<open>Properties of the base-member copy\<close>

lemma tableChangeOnly_refl [simp]: "tableChangeOnly scope st st"
  by (simp add: tableChangeOnly_def)


lemma set_concat_toList_append:
  "set (concat (map (\<lambda>e. toList (snd e)) (table @ [(k, h)])))
     = set (concat (map (\<lambda>e. toList (snd e)) table)) \<union> set (toList h)"
  by simp

lemma set_concat_toList_update:
  "map_of table k = Some h \<Longrightarrow>
   set (concat (map (\<lambda>e. toList (snd e)) (AList.update k h' table)))
     \<subseteq> set (concat (map (\<lambda>e. toList (snd e)) table)) \<union> set (toList h')"
  by (induction table) (auto split: if_splits)

lemma set_concat_toList_update_sup:
  "map_of table k = Some h \<Longrightarrow> set (toList h) \<subseteq> set (toList h') \<Longrightarrow>
   set (concat (map (\<lambda>e. toList (snd e)) table)) \<union> set (toList h')
     \<subseteq> set (concat (map (\<lambda>e. toList (snd e)) (AList.update k h' table)))"
  by (induction table) (auto split: if_splits)

lemma toList_pushOverload:
  "isFunctionHolder h \<Longrightarrow> set (toList (pushOverload s h)) = insert s (set (toList h))"
  by (cases h) auto

lemma map_of_concat_toList:
  "map_of table k = Some h \<Longrightarrow> set (toList h) \<subseteq> set (concat (map (\<lambda>e. toList (snd e)) table))"
  by (induction table) (auto split: if_splits)

lemma scopeStore_setSymbolTable [simp]:
  "scopeStore (setSymbolTable p table st) q
     = (if q = p then (scopeStore st p)\<lparr>symbolTable := table\<rparr> else scopeStore st q)"
  by (simp add: setSymbolTable_def putScope_def)

lemma fields_setSymbolTable [simp]:
  "symbolStore (setSymbolTable p table st) = symbolStore st"
  "nextSymbol (setSymbolTable p table st) = nextSymbol st"
  "diagnostics (setSymbolTable p table st) = diagnostics st"
  "referenceList (setSymbolTable p table st) = referenceList st"
  "uniqueIdentifier (setSymbolTable p table st) = uniqueIdentifier st"
  by (simp_all add: setSymbolTable_def putScope_def)

text \<open>The effect of \<open>insertSymbol\<close> on the symbols of the scope.\<close>

lemma insertSymbol_effect:
  assumes "insertSymbol p s st = (r, st')"
  shows "tableChangeOnly p st st'"
    and "diagnostics st' = diagnostics st"
    and "r = None \<Longrightarrow> set (scopeSymbols st' p) = insert s (set (scopeSymbols st p))"
    and "r \<noteq> None \<Longrightarrow> st' = st"
proof -
  let ?name = "tokenText (identifierToken (symbolStore st s))"
  let ?table = "symbolTable (scopeStore st p)"
  show d: "diagnostics st' = diagnostics st"
    using assms by (auto simp: insertSymbol_def Let_def split: option.splits if_splits)
  show r2: "r \<noteq> None \<Longrightarrow> st' = st"
    using assms by (auto simp: insertSymbol_def Let_def split: option.splits if_splits)
  have r1: "set (scopeSymbols st' p) = insert s (set (scopeSymbols st p))" if "r = None"
  proof (cases "map_of ?table ?name")
    case None
    with assms have "st' = setSymbolTable p (?table @ [(?name, toHolder (symbolStore st s) s)]) st"
      by (simp add: insertSymbol_def Let_def)
    then show ?thesis
      by (auto simp: scopeSymbols_def toHolder_def)
  next
    case (Some h)
    with assms that have f: "isFunctionHolder h"
      and st': "st' = setSymbolTable p (AList.update ?name (pushOverload s h) ?table) st"
      by (auto simp: insertSymbol_def Let_def split: if_splits)
    have "set (toList (pushOverload s h)) = insert s (set (toList h))"
      using f by (rule toList_pushOverload)
    then show ?thesis
      using set_concat_toList_update[OF Some, of "pushOverload s h"]
        set_concat_toList_update_sup[OF Some, of "pushOverload s h"]
        map_of_concat_toList[OF Some]
      by (auto simp: st' scopeSymbols_def)
  qed
  then show "r = None \<Longrightarrow> set (scopeSymbols st' p) = insert s (set (scopeSymbols st p))" .
  show "tableChangeOnly p st st'"
  proof (cases r)
    case None
    have "symbolStore st' = symbolStore st \<and> nextSymbol st' = nextSymbol st
          \<and> (\<forall>q. q \<noteq> p \<longrightarrow> scopeStore st' q = scopeStore st q)
          \<and> childScopeTable (scopeStore st' p) = childScopeTable (scopeStore st p)"
      using assms by (auto simp: insertSymbol_def Let_def split: option.splits if_splits)
    then show ?thesis
      using r1[OF None] d by (auto simp: tableChangeOnly_def)
  next
    case (Some a)
    then show ?thesis using r2 by simp
  qed
qed



















section \<open>Properties of \<open>hoistFunc\<close>\<close>

text \<open>What the basic operations do to the symbol store and to the diagnostics.\<close>

lemma fields_pushTask [simp]:
  "scopeStore (pushTask q t st) = scopeStore st"
  "symbolStore (pushTask q t st) = symbolStore st"
  "nextSymbol (pushTask q t st) = nextSymbol st"
  "diagnostics (pushTask q t st) = diagnostics st"
  by (cases q; simp add: pushTask_def)+

lemma fields_analyzerError [simp]:
  "scopeStore (analyzerError loc msg st) = scopeStore st"
  "symbolStore (analyzerError loc msg st) = symbolStore st"
  "nextSymbol (analyzerError loc msg st) = nextSymbol st"
  "diagnostics (analyzerError loc msg st) = diagnostics st @ [(loc, msg)]"
  by (simp_all add: analyzerError_def addError_def)

lemma fields_mutateSymbol [simp]:
  "scopeStore (mutateSymbol s f st) = scopeStore st"
  "symbolStore (mutateSymbol s f st) = (symbolStore st)(s := f (symbolStore st s))"
  "nextSymbol (mutateSymbol s f st) = nextSymbol st"
  "diagnostics (mutateSymbol s f st) = diagnostics st"
  by (simp_all add: mutateSymbol_def putSymbol_def)

lemma newSymbol_eq:
  "newSymbol symbol st = (s, st') \<Longrightarrow>
     s = nextSymbol st \<and> symbolStore st' = (symbolStore st)(s := symbol)
     \<and> nextSymbol st' = Suc (nextSymbol st) \<and> scopeStore st' = scopeStore st
     \<and> diagnostics st' = diagnostics st"
  by (auto simp: newSymbol_def)

lemma insertScope_store_eq:
  "insertScope p i node st = (c, st') \<Longrightarrow>
     symbolStore st' = symbolStore st \<and> nextSymbol st' = nextSymbol st
     \<and> diagnostics st' = diagnostics st"
  by (auto simp: insertScope_def Let_def putScope_def split: if_splits)

lemma nextAnonymousIdentifier_store_eq:
  "nextAnonymousIdentifier st = (a, st') \<Longrightarrow>
     symbolStore st' = symbolStore st \<and> nextSymbol st' = nextSymbol st
     \<and> diagnostics st' = diagnostics st \<and> scopeStore st' = scopeStore st"
  by (auto simp: nextAnonymousIdentifier_def Let_def split: prod.splits)

lemma callAnalyzeType_store_eq:
  "callAnalyzeType env p t st = (r, st') \<Longrightarrow>
     symbolStore st' = symbolStore st \<and> nextSymbol st' = nextSymbol st
     \<and> scopeStore st' = scopeStore st"
  by (auto simp: callAnalyzeType_def Let_def split: prod.splits)

lemma insertSymbol_store_eq:
  "insertSymbol p s st = (r, st') \<Longrightarrow>
     symbolStore st' = symbolStore st \<and> nextSymbol st' = nextSymbol st
     \<and> diagnostics st' = diagnostics st"
  using insertSymbol_effect(1,2)[of p s st r st'] by (simp add: tableChangeOnly_def)

lemma insertSymbolAndCheck_store_eq:
  "insertSymbolAndCheck p s st = (ok, st') \<Longrightarrow>
     symbolStore st' = symbolStore st \<and> nextSymbol st' = nextSymbol st"
  by (auto simp: insertSymbolAndCheck_def split: prod.splits option.splits
           dest!: insertSymbol_store_eq)

lemma hoistTemplateTypeList_store:
  "hoistTemplateTypeList scope types st = (ts, st') \<Longrightarrow>
     nextSymbol st \<le> nextSymbol st' \<and> (\<forall>s < nextSymbol st. symbolStore st' s = symbolStore st s)"
proof (induction types arbitrary: st ts st')
  case Nil
  then show ?case by simp
next
  case (Cons t types)
  obtain s st1 where e1: "newSymbol (SymbolType (getIdentifierInNodeType t) scope None None None None True) st
      = (s, st1)" by (cases "newSymbol (SymbolType (getIdentifierInNodeType t) scope None None None None True) st")
  obtain ok st2 where e2: "insertSymbolAndCheck scope s st1 = (ok, st2)"
    by (cases "insertSymbolAndCheck scope s st1")
  obtain ts' st3 where e3: "hoistTemplateTypeList scope types st2 = (ts', st3)"
    by (cases "hoistTemplateTypeList scope types st2")
  from Cons.prems have st': "st' = st3" by (simp add: e1 e2 e3)
  note a = newSymbol_eq[OF e1] and b = insertSymbolAndCheck_store_eq[OF e2] and c = Cons.IH[OF e3]
  show ?case unfolding st' using a b c by auto
qed

lemma hoistClassTemplateTypes_store:
  "hoistClassTemplateTypes scope types st = (ts, st') \<Longrightarrow>
     nextSymbol st \<le> nextSymbol st' \<and> (\<forall>s < nextSymbol st. symbolStore st' s = symbolStore st s)"
  unfolding hoistClassTemplateTypes_def by (rule hoistTemplateTypeList_store)

lemma assign_selectors [simp]:
  "isFunction (assignReturnType r symbol) = isFunction symbol"
  "isFunction (assignTemplateTypes ts symbol) = isFunction symbol"
  "isFunction symbol \<Longrightarrow> returnType (assignReturnType r symbol) = r"
  "isFunction symbol \<Longrightarrow> isInstanceMember (assignReturnType r symbol) = isInstanceMember symbol"
  "isFunction symbol \<Longrightarrow> isInstanceMember (assignTemplateTypes ts symbol) = isInstanceMember symbol"
  "isFunction symbol \<Longrightarrow> accessRestriction (assignReturnType r symbol) = accessRestriction symbol"
  "isFunction symbol \<Longrightarrow> accessRestriction (assignTemplateTypes ts symbol) = accessRestriction symbol"
  "isFunction symbol \<Longrightarrow> identifierToken (assignReturnType r symbol) = identifierToken symbol"
  "isFunction symbol \<Longrightarrow> identifierToken (assignTemplateTypes ts symbol) = identifierToken symbol"
  by (case_tac [!] symbol) simp_all

text \<open>
  The function symbol that \<open>hoistFuncSymbol\<close> creates: it carries the node's identifier,
  the resolved return type, the instance flag and the node's access restriction.
\<close>

lemma hoistFuncSymbol_symbol:
  assumes "hoistFuncSymbol env parentScope nodeFunc inst st = ((symbol, functionScope, rt, ok), st9)"
  shows "symbol < nextSymbol st9 \<and> isFunction (symbolStore st9 symbol)
       \<and> returnType (symbolStore st9 symbol) = rt
       \<and> isInstanceMember (symbolStore st9 symbol) = inst
       \<and> accessRestriction (symbolStore st9 symbol) = funcAccessor nodeFunc
       \<and> identifierToken (symbolStore st9 symbol) = funcIdentifier nodeFunc"
proof -
  obtain h st1 where e1: "insertScope parentScope (tokenText (funcIdentifier nodeFunc)) None st = (h, st1)"
    by (cases "insertScope parentScope (tokenText (funcIdentifier nodeFunc)) None st")
  obtain a st2 where e2: "nextAnonymousIdentifier st1 = (a, st2)"
    by (cases "nextAnonymousIdentifier st1")
  obtain fs st3 where e3: "insertScope h a (Some (LinkedFunc nodeFunc)) st2 = (fs, st3)"
    by (cases "insertScope h a (Some (LinkedFunc nodeFunc)) st2")
  let ?obj = "SymbolFunction (funcIdentifier nodeFunc) parentScope None []
                (Some (LinkedFunc nodeFunc)) (Some fs) inst (funcAccessor nodeFunc) None"
  obtain s st4 where e4: "newSymbol ?obj st3 = (s, st4)"
    by (cases "newSymbol ?obj st3")
  obtain ts st5 where e5: "hoistClassTemplateTypes fs (funcTypeTemplates nodeFunc) st4 = (ts, st5)"
    by (cases "hoistClassTemplateTypes fs (funcTypeTemplates nodeFunc) st4")
  let ?st6 = "(if length ts > 0 then mutateSymbol s (assignTemplateTypes ts) st5 else st5)"
  obtain r st7 where e7: "(case head nodeFunc of
               FuncHeadReturnValue t \<Rightarrow> callAnalyzeType env fs t ?st6
             | _ \<Rightarrow> (None, ?st6)) = (r, st7)"
    by (cases "(case head nodeFunc of
               FuncHeadReturnValue t \<Rightarrow> callAnalyzeType env fs t ?st6
             | _ \<Rightarrow> (None, ?st6))")
  let ?st8 = "mutateSymbol s (assignReturnType r) st7"
  obtain k st9' where e9: "insertSymbolAndCheck parentScope s ?st8 = (k, st9')"
    by (cases "insertSymbolAndCheck parentScope s ?st8")
  have "hoistFuncSymbol env parentScope nodeFunc inst st = ((s, fs, r, k), st9')"
    unfolding hoistFuncSymbol_def Let_def e1 prod.case e2 e3 e4 e5 e7 e9 ..
  with assms have res: "symbol = s" "functionScope = fs" "rt = r" "ok = k" "st9 = st9'"
    by simp_all
  note n4 = newSymbol_eq[OF e4]
  note n5 = hoistClassTemplateTypes_store[OF e5]
  have s5: "symbolStore st5 s = ?obj" "s < nextSymbol st5"
    using n4 n5 by auto
  have s6: "isFunction (symbolStore ?st6 s)" "isInstanceMember (symbolStore ?st6 s) = inst"
    "accessRestriction (symbolStore ?st6 s) = funcAccessor nodeFunc"
    "identifierToken (symbolStore ?st6 s) = funcIdentifier nodeFunc" "nextSymbol ?st6 = nextSymbol st5"
    using s5 by auto
  have s7: "symbolStore st7 = symbolStore ?st6 \<and> nextSymbol st7 = nextSymbol ?st6"
    using e7 by (cases "head nodeFunc") (auto dest!: callAnalyzeType_store_eq)
  have s8: "isFunction (symbolStore ?st8 s)" "isInstanceMember (symbolStore ?st8 s) = inst"
    "accessRestriction (symbolStore ?st8 s) = funcAccessor nodeFunc"
    "identifierToken (symbolStore ?st8 s) = funcIdentifier nodeFunc"
    "returnType (symbolStore ?st8 s) = r" "nextSymbol ?st8 = nextSymbol st5"
    using s6 s7 by auto
  note n9 = insertSymbolAndCheck_store_eq[OF e9]
  show ?thesis unfolding res using s8 n9 s5(2) by simp
qed

lemma lookupSymbol_pushTask [simp]: "lookupSymbol (pushTask q t st) = lookupSymbol st"
  by (cases q) (simp_all add: pushTask_def lookupSymbol_def fun_eq_iff)

lemma tokenText_createVirtual [simp]: "tokenText (createVirtual t r) = t"
  by (simp add: createVirtual_def)

text \<open>
  Inserting a symbol that is not a function: it is installed when no holder has its name,
  and otherwise nothing changes.
\<close>

lemma insertSymbol_variable:
  assumes "\<not> isFunction (symbolStore st s)"
  shows "lookupSymbol st p (tokenText (identifierToken (symbolStore st s))) = None \<Longrightarrow>
           fst (insertSymbol p s st) = None
           \<and> lookupSymbol (snd (insertSymbol p s st)) p (tokenText (identifierToken (symbolStore st s)))
               = Some (SingleSymbol s)"
    and "lookupSymbol st p (tokenText (identifierToken (symbolStore st s))) \<noteq> None \<Longrightarrow>
           snd (insertSymbol p s st) = st"
  using assms
  by (auto simp: insertSymbol_def lookupSymbol_def Let_def toHolder_def map_add_def split: option.splits)

lemma hoistPropertyAccessor_effect:
  fixes env parentScope nodeFunc rt inst st
  defines "name \<equiv> drop 4 (tokenText (funcIdentifier nodeFunc))"
  defines "accessorNamed \<equiv> startsWith (tokenText (funcIdentifier nodeFunc)) ''get_''
                            \<or> startsWith (tokenText (funcIdentifier nodeFunc)) ''set_''"
  defines "enabled \<equiv> hasPropertyAttr nodeFunc \<or> \<not> explicitPropertyAccessor env"
  defines "st' \<equiv> hoistPropertyAccessor env parentScope nodeFunc rt inst st"
  shows "accessorNamed \<Longrightarrow> enabled \<Longrightarrow> lookupSymbol st parentScope name = None \<Longrightarrow>
           lookupSymbol st' parentScope name = Some (SingleSymbol (nextSymbol st))
           \<and> symbolStore st' = (symbolStore st)(nextSymbol st :=
                 SymbolVariable (createVirtual name (funcIdentifier nodeFunc, funcIdentifier nodeFunc))
                   parentScope rt inst (funcAccessor nodeFunc))
           \<and> diagnostics st' = diagnostics st"
    and "accessorNamed \<Longrightarrow> enabled \<Longrightarrow> lookupSymbol st parentScope name \<noteq> None \<Longrightarrow>
           scopeStore st' = scopeStore st \<and> diagnostics st' = diagnostics st
           \<and> (\<forall>s < nextSymbol st. symbolStore st' s = symbolStore st s)"
    and "accessorNamed \<Longrightarrow> \<not> enabled \<Longrightarrow> st' = st"
    and "\<not> accessorNamed \<Longrightarrow> hasPropertyAttr nodeFunc \<Longrightarrow>
           st' = analyzerError (location (funcIdentifier nodeFunc)) propertyAccessorMessage st"
    and "\<not> accessorNamed \<Longrightarrow> \<not> hasPropertyAttr nodeFunc \<Longrightarrow> st' = st"
proof -
  let ?v = "SymbolVariable (createVirtual name (funcIdentifier nodeFunc, funcIdentifier nodeFunc))
              parentScope rt inst (funcAccessor nodeFunc)"
  obtain s sa where e: "newSymbol ?v st = (s, sa)" by (cases "newSymbol ?v st")
  note n = newSymbol_eq[OF e]
  have sym: "symbolStore sa s = ?v" using n by simp
  have look: "lookupSymbol sa parentScope name = lookupSymbol st parentScope name"
    using n by (simp add: lookupSymbol_def)
  have st'1: "st' = snd (insertSymbol parentScope s sa)" if "accessorNamed" "enabled"
    using that e unfolding st'_def hoistPropertyAccessor_def accessorNamed_def enabled_def name_def Let_def
    by (auto split: prod.splits)
  have nf: "\<not> isFunction (symbolStore sa s)" and nm: "tokenText (identifierToken (symbolStore sa s)) = name"
    using sym by simp_all
  note ins = insertSymbol_variable[OF nf, of parentScope, unfolded nm look]
  obtain r sb where e2: "insertSymbol parentScope s sa = (r, sb)"
    by (cases "insertSymbol parentScope s sa")
  note store = insertSymbol_store_eq[OF e2]
  show "accessorNamed \<Longrightarrow> enabled \<Longrightarrow> lookupSymbol st parentScope name = None \<Longrightarrow>
           lookupSymbol st' parentScope name = Some (SingleSymbol (nextSymbol st))
           \<and> symbolStore st' = (symbolStore st)(nextSymbol st := ?v)
           \<and> diagnostics st' = diagnostics st"
    using st'1 ins(1) store n e2 by auto
  show "accessorNamed \<Longrightarrow> enabled \<Longrightarrow> lookupSymbol st parentScope name \<noteq> None \<Longrightarrow>
           scopeStore st' = scopeStore st \<and> diagnostics st' = diagnostics st
           \<and> (\<forall>s < nextSymbol st. symbolStore st' s = symbolStore st s)"
    using st'1 ins(2) n by auto
  show "accessorNamed \<Longrightarrow> \<not> enabled \<Longrightarrow> st' = st"
    unfolding st'_def hoistPropertyAccessor_def accessorNamed_def enabled_def by auto
  show "\<not> accessorNamed \<Longrightarrow> hasPropertyAttr nodeFunc \<Longrightarrow>
           st' = analyzerError (location (funcIdentifier nodeFunc)) propertyAccessorMessage st"
    unfolding st'_def hoistPropertyAccessor_def accessorNamed_def by auto
  show "\<not> accessorNamed \<Longrightarrow> \<not> hasPropertyAttr nodeFunc \<Longrightarrow> st' = st"
    unfolding st'_def hoistPropertyAccessor_def accessorNamed_def by auto
qed

text \<open>
  Claim C3, amended. A destructor is passed over, and so is everything after the insertion
  of the function symbol when that insertion collides. For any other hoisted function
  node, whose function symbol carries the resolved return type, the instance flag and the
  node's access restriction: if its identifier starts with \<open>get_\<close> or \<open>set_\<close> and the
  node carries the property attribute or \<open>explicitPropertyAccessor\<close> is off, then, when
  the parent scope has no symbol named like the identifier without its first four
  characters, \<open>hoistFunc\<close> inserts there a variable symbol of that name, of the function's
  return type, instance flag and access restriction; when the parent scope already has a
  symbol of that name, its scopes stay as they are; no diagnostic is added in either case.
  If the node carries the property attribute and its identifier starts with neither
  prefix, one diagnostic is added, at the identifier's location, and no symbol is created
  or inserted.
\<close>

theorem hoistFunc_property_accessor:
  fixes env parentScope nodeFunc aq hq inst st
  defines "name \<equiv> drop 4 (tokenText (funcIdentifier nodeFunc))"
  defines "accessorNamed \<equiv> startsWith (tokenText (funcIdentifier nodeFunc)) ''get_''
                            \<or> startsWith (tokenText (funcIdentifier nodeFunc)) ''set_''"
  defines "enabled \<equiv> hasPropertyAttr nodeFunc \<or> \<not> explicitPropertyAccessor env"
  defines "st' \<equiv> hoistFunc env parentScope nodeFunc aq hq inst st"
  shows "(head nodeFunc = funcHeadDestructor \<longrightarrow> st' = st)
    \<and> (\<forall>symbol functionScope rt st9.
          head nodeFunc \<noteq> funcHeadDestructor
          \<and> hoistFuncSymbol env parentScope nodeFunc inst st = ((symbol, functionScope, rt, False), st9)
          \<longrightarrow> st' = st9)
    \<and> (\<forall>symbol functionScope rt st9.
          head nodeFunc \<noteq> funcHeadDestructor
          \<and> hoistFuncSymbol env parentScope nodeFunc inst st = ((symbol, functionScope, rt, True), st9)
          \<longrightarrow>
            isFunction (symbolStore st' symbol) \<and> returnType (symbolStore st' symbol) = rt
            \<and> isInstanceMember (symbolStore st' symbol) = inst
            \<and> accessRestriction (symbolStore st' symbol) = funcAccessor nodeFunc
            \<and> (accessorNamed \<and> enabled \<and> lookupSymbol st9 parentScope name = None \<longrightarrow>
                  (\<exists>v. lookupSymbol st' parentScope name = Some (SingleSymbol v)
                      \<and> symbolStore st' v =
                          SymbolVariable (createVirtual name (funcIdentifier nodeFunc, funcIdentifier nodeFunc))
                            parentScope rt inst (funcAccessor nodeFunc))
                  \<and> diagnostics st' = diagnostics st9)
            \<and> (accessorNamed \<and> enabled \<and> lookupSymbol st9 parentScope name \<noteq> None \<longrightarrow>
                  scopeStore st' = scopeStore st9 \<and> diagnostics st' = diagnostics st9)
            \<and> (\<not> accessorNamed \<and> hasPropertyAttr nodeFunc \<longrightarrow>
                  diagnostics st' =
                    diagnostics st9 @ [(location (funcIdentifier nodeFunc), propertyAccessorMessage)]
                  \<and> scopeStore st' = scopeStore st9 \<and> symbolStore st' = symbolStore st9
                  \<and> nextSymbol st' = nextSymbol st9))"
proof (intro conjI allI impI)
  assume "head nodeFunc = funcHeadDestructor"
  then show "st' = st" by (simp add: st'_def hoistFunc_def)
next
  fix symbol functionScope rt st9
  assume "head nodeFunc \<noteq> funcHeadDestructor
          \<and> hoistFuncSymbol env parentScope nodeFunc inst st = ((symbol, functionScope, rt, False), st9)"
  then show "st' = st9" by (simp add: st'_def hoistFunc_def)
next
  fix symbol functionScope rt st9
  assume a: "head nodeFunc \<noteq> funcHeadDestructor
          \<and> hoistFuncSymbol env parentScope nodeFunc inst st = ((symbol, functionScope, rt, True), st9)"
  let ?st10 = "hoistPropertyAccessor env parentScope nodeFunc rt inst st9"
  have st': "st' = pushTask aq (TaskAnalyze (TaskAnalyzeFunc functionScope nodeFunc))
                     (pushTask hq (TaskAssignParameterTypes symbol functionScope (funcParamList nodeFunc)) ?st10)"
    using a by (simp add: st'_def hoistFunc_def Let_def)
  have f: "scopeStore st' = scopeStore ?st10" "symbolStore st' = symbolStore ?st10"
    "nextSymbol st' = nextSymbol ?st10" "diagnostics st' = diagnostics ?st10"
    "lookupSymbol st' = lookupSymbol ?st10"
    by (simp_all add: st')
  from a have sy: "symbol < nextSymbol st9 \<and> isFunction (symbolStore st9 symbol)
       \<and> returnType (symbolStore st9 symbol) = rt
       \<and> isInstanceMember (symbolStore st9 symbol) = inst
       \<and> accessRestriction (symbolStore st9 symbol) = funcAccessor nodeFunc
       \<and> identifierToken (symbolStore st9 symbol) = funcIdentifier nodeFunc"
    using hoistFuncSymbol_symbol by blast
  note eff = hoistPropertyAccessor_effect[where nodeFunc = nodeFunc and env = env
      and parentScope = parentScope and rt = rt and inst = inst and st = st9,
      folded name_def accessorNamed_def enabled_def]
  have keep: "symbolStore ?st10 symbol = symbolStore st9 symbol"
  proof (cases accessorNamed)
    case True
    show ?thesis
    proof (cases enabled)
      case e: True
      show ?thesis
      proof (cases "lookupSymbol st9 parentScope name = None")
        case True
        then show ?thesis using eff(1)[OF \<open>accessorNamed\<close> e] sy by simp
      next
        case False
        then show ?thesis using eff(2)[OF \<open>accessorNamed\<close> e] sy by simp
      qed
    next
      case False
      then show ?thesis using eff(3)[OF True] by simp
    qed
  next
    case False
    then show ?thesis using eff(4,5) by (cases "hasPropertyAttr nodeFunc") simp_all
  qed
  show "isFunction (symbolStore st' symbol)" "returnType (symbolStore st' symbol) = rt"
    "isInstanceMember (symbolStore st' symbol) = inst"
    "accessRestriction (symbolStore st' symbol) = funcAccessor nodeFunc"
    using sy keep f by simp_all
  {
    assume c: "accessorNamed \<and> enabled \<and> lookupSymbol st9 parentScope name = None"
    then have e1: "lookupSymbol ?st10 parentScope name = Some (SingleSymbol (nextSymbol st9))
           \<and> symbolStore ?st10 = (symbolStore st9)(nextSymbol st9 :=
                 SymbolVariable (createVirtual name (funcIdentifier nodeFunc, funcIdentifier nodeFunc))
                   parentScope rt inst (funcAccessor nodeFunc))
           \<and> diagnostics ?st10 = diagnostics st9"
      using eff(1) by blast
    then show "\<exists>v. lookupSymbol st' parentScope name = Some (SingleSymbol v)
                      \<and> symbolStore st' v =
                          SymbolVariable (createVirtual name (funcIdentifier nodeFunc, funcIdentifier nodeFunc))
                            parentScope rt inst (funcAccessor nodeFunc)"
      using f by (intro exI[of _ "nextSymbol st9"]) simp
    show "diagnostics st' = diagnostics st9" using e1 f by simp
  }
  {
    assume c: "accessorNamed \<and> enabled \<and> lookupSymbol st9 parentScope name \<noteq> None"
    then have e2: "scopeStore ?st10 = scopeStore st9 \<and> diagnostics ?st10 = diagnostics st9"
      using eff(2) by blast
    then show "scopeStore st' = scopeStore st9" "diagnostics st' = diagnostics st9"
      using f by simp_all
  }
  {
    assume c: "\<not> accessorNamed \<and> hasPropertyAttr nodeFunc"
    then have e4: "?st10 = analyzerError (location (funcIdentifier nodeFunc)) propertyAccessorMessage st9"
      using eff(4) by blast
    show "diagnostics st' =
            diagnostics st9 @ [(location (funcIdentifier nodeFunc), propertyAccessorMessage)]"
      "scopeStore st' = scopeStore st9" "symbolStore st' = symbolStore st9"
      "nextSymbol st' = nextSymbol st9"
      using f by (simp_all add: e4)
  }
qed

theorem hoistFunc_property_accessor_witness:
  "head (exampleFunc ''int'' ''get_v'' 1 False) \<noteq> funcHeadDestructor
   \<and> fst (hoistFuncSymbol (exampleEnv False) [] (exampleFunc ''int'' ''get_v'' 1 False) False
            (startHoist exampleGlobalScope))
       = (2, [''get_v'', ''~0''], Some (ResolvedType 0), True)
   \<and> startsWith (tokenText (funcIdentifier (exampleFunc ''int'' ''get_v'' 1 False))) ''get_''
   \<and> \<not> explicitPropertyAccessor (exampleEnv False)
   \<and> lookupSymbol (snd (hoistFuncSymbol (exampleEnv False) [] (exampleFunc ''int'' ''get_v'' 1 False) False
            (startHoist exampleGlobalScope))) [] ''v'' = None
   \<and> (\<exists>v. lookupSymbol stateAfterGetter [] ''v'' = Some (SingleSymbol v)
          \<and> symbolStore stateAfterGetter v =
               SymbolVariable (createVirtual ''v'' (tokenAt ''get_v'' 1, tokenAt ''get_v'' 1))
                 [] (Some (ResolvedType 0)) False None)"
proof -
  let ?f = "exampleFunc ''int'' ''get_v'' 1 False"
  let ?s = "startHoist exampleGlobalScope"
  let ?r = "hoistFuncSymbol (exampleEnv False) [] ?f False ?s"
  have h: "head ?f \<noteq> funcHeadDestructor" by (simp add: exampleFunc_def)
  have r: "fst ?r = (2, [''get_v'', ''~0''], Some (ResolvedType 0), True)" by code_simp
  have n: "startsWith (tokenText (funcIdentifier ?f)) ''get_''" by code_simp
  have x: "\<not> explicitPropertyAccessor (exampleEnv False)" by (simp add: exampleEnv_def)
  have l: "lookupSymbol (snd ?r) [] ''v'' = None" by code_simp
  have d: "drop 4 (tokenText (funcIdentifier ?f)) = ''v''" "funcIdentifier ?f = tokenAt ''get_v'' 1"
    "funcAccessor ?f = None"
    by (simp_all add: exampleFunc_def tokenAt_def)
  have e: "?r = ((2, [''get_v'', ''~0''], Some (ResolvedType 0), True), snd ?r)"
    using r by (metis prod.collapse)
  note T = hoistFunc_property_accessor[where nodeFunc = ?f and env = "exampleEnv False"
      and parentScope = "[]" and aq = AnalyzeArray and hq = HoistArray and inst = False and st = ?s]
  note T3 = T[THEN conjunct2, THEN conjunct2, THEN spec, THEN spec, THEN spec, THEN spec, THEN mp,
      OF conjI[OF h e]]
  note T4 = T3[THEN conjunct2, THEN conjunct2, THEN conjunct2, THEN conjunct2, THEN conjunct1,
      THEN mp, THEN conjunct1]
  have p: "(startsWith (tokenText (funcIdentifier ?f)) ''get_''
             \<or> startsWith (tokenText (funcIdentifier ?f)) ''set_'')
           \<and> (hasPropertyAttr ?f \<or> \<not> explicitPropertyAccessor (exampleEnv False))
           \<and> lookupSymbol (snd ?r) [] (drop 4 (tokenText (funcIdentifier ?f))) = None"
    using n x l d by simp
  have "\<exists>v. lookupSymbol stateAfterGetter [] ''v'' = Some (SingleSymbol v)
          \<and> symbolStore stateAfterGetter v =
               SymbolVariable (createVirtual ''v'' (tokenAt ''get_v'' 1, tokenAt ''get_v'' 1))
                 [] (Some (ResolvedType 0)) False None"
    using T4[OF p] by (simp add: exampleFunc_def tokenAt_def stateAfterGetter_def)
  then show ?thesis using h r n x l by blast
qed

text \<open>
  The claim as it stands fails where \<open>hoistFunc\<close> returns early or finds the name taken.
  After \<open>int v;\<close>, hoisting the setter \<open>void set_v()\<close> inserts the function but no variable:
  the scope keeps the variable \<open>v\<close> of type \<open>int\<close>, although the setter's return type is
  \<open>void\<close>. A destructor whose identifier starts with \<open>get_\<close> inserts nothing.
\<close>

theorem hoistFunc_property_accessor_counterexample:
  "startsWith (tokenText (funcIdentifier (exampleFunc ''void'' ''set_v'' 2 False))) ''set_''
   \<and> \<not> explicitPropertyAccessor (exampleEnv False)
   \<and> lookupSymbol stateAfterSetter [] ''set_v'' = Some (FunctionHolder 3 [])
   \<and> returnType (symbolStore stateAfterSetter 3) = Some (ResolvedType 1)
   \<and> lookupSymbol stateAfterSetter [] ''v'' = Some (SingleSymbol 2)
   \<and> variableType (symbolStore stateAfterSetter 2) = Some (ResolvedType 0)
   \<and> scopeSymbols stateAfterSetter [] = [0, 1, 2, 3]
   \<and> startsWith (tokenText (funcIdentifier exampleDestructor)) ''get_''
   \<and> lookupSymbol (hoistFunc (exampleEnv False) [] exampleDestructor AnalyzeArray HoistArray False
                     (startHoist exampleGlobalScope)) [] ''x'' = None"
  by code_simp

section \<open>Properties of the deferred base-copy step of a class\<close>

lemma cloneAsSuper_props [simp]:
  "tokenText (identifierToken (cloneAsSuper symbol)) = ''super''"
  "isFunction (cloneAsSuper symbol) = isFunction symbol"
  by (cases symbol; simp)+

lemma cloneAsSuper_function:
  "isFunction symbol \<Longrightarrow>
     cloneAsSuper symbol =
       SymbolFunction (createVirtual ''super'' (identifierToken symbol, identifierToken symbol))
         (scopePath symbol) (returnType symbol) (parameterTypes symbol) (linkedNode symbol)
         (functionScopePath symbol) (isInstanceMember symbol) (Some Private) (templateTypes symbol)"
  by (cases symbol) simp_all

text \<open>
  Inserting a function symbol where its name is free or held by a function holder: it
  becomes the last overload of the holder of that name.
\<close>

lemma insertSymbol_function:
  assumes f: "isFunction (symbolStore st s)"
    and n: "tokenText (identifierToken (symbolStore st s)) = name"
    and free: "lookupSymbol st p name = None
               \<or> (\<exists>h. lookupSymbol st p name = Some h \<and> isFunctionHolder h)"
  shows "\<exists>h'. lookupSymbol (snd (insertSymbol p s st)) p name = Some h' \<and> isFunctionHolder h'
           \<and> toList h' = (case lookupSymbol st p name of None \<Rightarrow> [] | Some h \<Rightarrow> toList h) @ [s]"
proof (cases "lookupSymbol st p name")
  case None
  then show ?thesis
    using f n
    by (auto simp: insertSymbol_def lookupSymbol_def Let_def toHolder_def map_add_def)
next
  case (Some h)
  with free have fh: "isFunctionHolder h" by simp
  then obtain c cs where h: "h = FunctionHolder c cs" by (cases h) auto
  show ?thesis
    using f n Some
    by (auto simp: insertSymbol_def lookupSymbol_def Let_def h update_conv')
qed

lemma insertSymbol_blocked:
  assumes "tokenText (identifierToken (symbolStore st s)) = name"
    and "lookupSymbol st p name = Some h" and "\<not> isFunctionHolder h"
  shows "snd (insertSymbol p s st) = st"
  using assms by (auto simp: insertSymbol_def lookupSymbol_def Let_def)

lemma lookupSymbol_newSymbol:
  "newSymbol symbol st = (s, st') \<Longrightarrow> lookupSymbol st' = lookupSymbol st"
  by (auto simp: newSymbol_def lookupSymbol_def fun_eq_iff)

lemma insertSuperConstructors_effect:
  assumes "\<forall>x \<in> set cs. x < nextSymbol st \<and> isFunction (symbolStore st x)"
    and "lookupSymbol st scope ''super'' = None
         \<or> (\<exists>h. lookupSymbol st scope ''super'' = Some h \<and> isFunctionHolder h)"
  shows "superOverloads (insertSuperConstructors scope cs st) scope
           = superOverloads st scope @ [nextSymbol st ..< nextSymbol st + length cs]
       \<and> nextSymbol (insertSuperConstructors scope cs st) = nextSymbol st + length cs
       \<and> (\<forall>i < length cs. symbolStore (insertSuperConstructors scope cs st) (nextSymbol st + i)
                             = cloneAsSuper (symbolStore st (cs ! i)))
       \<and> (\<forall>x < nextSymbol st. symbolStore (insertSuperConstructors scope cs st) x = symbolStore st x)
       \<and> diagnostics (insertSuperConstructors scope cs st) = diagnostics st"
  using assms
proof (induction cs arbitrary: st)
  case Nil
  then show ?case by simp
next
  case (Cons c cs)
  let ?clone = "cloneAsSuper (symbolStore st c)"
  obtain s st1 where e1: "newSymbol ?clone st = (s, st1)" by (cases "newSymbol ?clone st")
  obtain r st2 where e2: "insertSymbol scope s st1 = (r, st2)" by (cases "insertSymbol scope s st1")
  note n1 = newSymbol_eq[OF e1]
  have s: "s = nextSymbol st" using n1 by simp
  have cf: "isFunction (symbolStore st c)" "c < nextSymbol st" using Cons.prems(1) by simp_all
  have f1: "isFunction (symbolStore st1 s)" and nm: "tokenText (identifierToken (symbolStore st1 s)) = ''super''"
    using n1 cf by simp_all
  have l1: "lookupSymbol st1 = lookupSymbol st" using e1 by (rule lookupSymbol_newSymbol)
  have free1: "lookupSymbol st1 scope ''super'' = None
               \<or> (\<exists>h. lookupSymbol st1 scope ''super'' = Some h \<and> isFunctionHolder h)"
    using Cons.prems(2) l1 by simp
  from insertSymbol_function[OF f1 nm free1] e2 obtain h'
    where h': "lookupSymbol st2 scope ''super'' = Some h'" "isFunctionHolder h'"
      "toList h' = superOverloads st scope @ [s]"
    by (auto simp: superOverloads_def l1)
  note n2 = insertSymbol_store_eq[OF e2]
  have store2: "symbolStore st2 = (symbolStore st)(s := ?clone)" "nextSymbol st2 = Suc (nextSymbol st)"
    "diagnostics st2 = diagnostics st"
    using n1 n2 by simp_all
  have pre: "\<forall>x \<in> set cs. x < nextSymbol st2 \<and> isFunction (symbolStore st2 x)"
    using Cons.prems(1) store2 s by auto
  have free2: "lookupSymbol st2 scope ''super'' = None
               \<or> (\<exists>h. lookupSymbol st2 scope ''super'' = Some h \<and> isFunctionHolder h)"
    using h' by simp
  note ih = Cons.IH[OF pre free2]
  have eq: "insertSuperConstructors scope (c # cs) st = insertSuperConstructors scope cs st2"
    by (simp add: e1 e2)
  have so2: "superOverloads st2 scope = superOverloads st scope @ [s]"
    using h' by (simp add: superOverloads_def)
  have up: "[nextSymbol st ..< nextSymbol st + length (c # cs)]
              = nextSymbol st # [Suc (nextSymbol st) ..< Suc (nextSymbol st) + length cs]"
    by (subst upt_rec) simp
  have a: "superOverloads (insertSuperConstructors scope cs st2) scope
           = superOverloads st scope @ [nextSymbol st ..< nextSymbol st + length (c # cs)]"
    using ih so2 store2(2) s unfolding up by simp
  have b: "nextSymbol (insertSuperConstructors scope cs st2) = nextSymbol st + length (c # cs)"
    using ih store2(2) by simp
  have c: "\<forall>i < length (c # cs). symbolStore (insertSuperConstructors scope cs st2) (nextSymbol st + i)
                             = cloneAsSuper (symbolStore st ((c # cs) ! i))"
  proof (intro allI impI)
    fix i assume i: "i < length (c # cs)"
    show "symbolStore (insertSuperConstructors scope cs st2) (nextSymbol st + i)
            = cloneAsSuper (symbolStore st ((c # cs) ! i))"
    proof (cases i)
      case 0
      have "symbolStore (insertSuperConstructors scope cs st2) (nextSymbol st) = symbolStore st2 (nextSymbol st)"
        using ih store2(2) by simp
      then show ?thesis using 0 store2(1) s by simp
    next
      case (Suc j)
      then have j: "j < length cs" using i by simp
      then have "cs ! j \<in> set cs" by simp
      then have "cs ! j < nextSymbol st" using Cons.prems(1) by simp
      then have "symbolStore st2 (cs ! j) = symbolStore st (cs ! j)" using store2(1) s by simp
      moreover have "symbolStore (insertSuperConstructors scope cs st2) (nextSymbol st2 + j)
            = cloneAsSuper (symbolStore st2 (cs ! j))"
        using ih j by blast
      ultimately show ?thesis using Suc store2(2) by simp
    qed
  qed
  have d: "\<forall>x < nextSymbol st. symbolStore (insertSuperConstructors scope cs st2) x = symbolStore st x"
    using ih store2 s by auto
  have e: "diagnostics (insertSuperConstructors scope cs st2) = diagnostics st"
    using ih store2(3) by simp
  show ?case unfolding eq using a b c d e by blast
qed

lemma insertSuperConstructors_blocked:
  assumes "lookupSymbol st scope ''super'' = Some h" and "\<not> isFunctionHolder h"
  shows "scopeStore (insertSuperConstructors scope cs st) = scopeStore st
       \<and> diagnostics (insertSuperConstructors scope cs st) = diagnostics st"
  using assms
proof (induction cs arbitrary: st)
  case Nil
  then show ?case by simp
next
  case (Cons c cs)
  let ?clone = "cloneAsSuper (symbolStore st c)"
  obtain s st1 where e1: "newSymbol ?clone st = (s, st1)" by (cases "newSymbol ?clone st")
  note n1 = newSymbol_eq[OF e1]
  have l1: "lookupSymbol st1 = lookupSymbol st" using e1 by (rule lookupSymbol_newSymbol)
  have nm: "tokenText (identifierToken (symbolStore st1 s)) = ''super''" using n1 by simp
  have b: "snd (insertSymbol scope s st1) = st1"
    using insertSymbol_blocked[OF nm _ Cons.prems(2)] Cons.prems(1) l1 by simp
  have eq: "insertSuperConstructors scope (c # cs) st = insertSuperConstructors scope cs st1"
    using b by (cases "insertSymbol scope s st1") (simp add: e1)
  have "lookupSymbol st1 scope ''super'' = Some h" using Cons.prems(1) l1 by simp
  from Cons.IH[OF this Cons.prems(2)] show ?case unfolding eq using n1 by simp
qed

text \<open>
  Claim C4, amended. The second deferred step does nothing when the class has no base
  list. Otherwise it copies the base members and asks for the constructors of the first
  base. When that yields no function holder, it does nothing more. When it yields a
  function holder and the member scope has, after the copy, no symbol named \<open>super\<close> or a
  function holder of that name, the step appends one new function symbol per constructor
  to the overloads that the scope holds under \<open>super\<close>, in order, each the clone of its
  constructor (renamed to \<open>super\<close>, made private). When the scope already has a symbol
  named \<open>super\<close> that is not a function holder, its scopes stay as the copy left them: no
  \<open>super\<close> constructor is inserted.
\<close>

theorem copyBaseAndSuper_super_constructors:
  fixes env scope symbol st
  defines "st' \<equiv> copyBaseAndSuper env scope symbol st"
  shows "(baseListOf (symbolStore st symbol) = None \<longrightarrow> st' = st)
    \<and> (\<forall>bases st1 ctors.
          baseListOf (symbolStore st symbol) = Some bases
          \<and> st1 = copyBaseMembers scope bases st
          \<and> ctors = findConstructorOfType env (AnalyzerData.truncate st1)
                      (if length bases \<ge> 1 then bases ! 0 else None)
          \<longrightarrow>
            ((ctors = None \<or> (\<exists>x. ctors = Some (SingleSymbol x))) \<longrightarrow> st' = st1)
            \<and> (\<forall>c cs. ctors = Some (FunctionHolder c cs) \<longrightarrow>
                  ((\<forall>x \<in> set (c # cs). x < nextSymbol st1 \<and> isFunction (symbolStore st1 x))
                   \<and> (lookupSymbol st1 scope ''super'' = None
                       \<or> (\<exists>h. lookupSymbol st1 scope ''super'' = Some h \<and> isFunctionHolder h))
                   \<longrightarrow>
                     superOverloads st' scope
                       = superOverloads st1 scope @ [nextSymbol st1 ..< nextSymbol st1 + length (c # cs)]
                     \<and> (\<forall>i < length (c # cs).
                           symbolStore st' (nextSymbol st1 + i)
                             = cloneAsSuper (symbolStore st1 ((c # cs) ! i))
                           \<and> isFunction (symbolStore st' (nextSymbol st1 + i))
                           \<and> tokenText (identifierToken (symbolStore st' (nextSymbol st1 + i))) = ''super''))
                  \<and> ((\<exists>v. lookupSymbol st1 scope ''super'' = Some (SingleSymbol v)) \<longrightarrow>
                        scopeStore st' = scopeStore st1 \<and> diagnostics st' = diagnostics st1)))"
proof (intro conjI allI impI)
  assume "baseListOf (symbolStore st symbol) = None"
  then show "st' = st" by (simp add: st'_def copyBaseAndSuper_def)
next
  fix bases st1 ctors
  assume a: "baseListOf (symbolStore st symbol) = Some bases
          \<and> st1 = copyBaseMembers scope bases st
          \<and> ctors = findConstructorOfType env (AnalyzerData.truncate st1)
                      (if length bases \<ge> 1 then bases ! 0 else None)"
  assume "ctors = None \<or> (\<exists>x. ctors = Some (SingleSymbol x))"
  then show "st' = st1"
    using a by (auto simp: st'_def copyBaseAndSuper_def Let_def)
next
  fix bases st1 ctors c cs
  assume a: "baseListOf (symbolStore st symbol) = Some bases
          \<and> st1 = copyBaseMembers scope bases st
          \<and> ctors = findConstructorOfType env (AnalyzerData.truncate st1)
                      (if length bases \<ge> 1 then bases ! 0 else None)"
    and h: "ctors = Some (FunctionHolder c cs)"
  from a have a1: "baseListOf (symbolStore st symbol) = Some bases"
    and a2: "st1 = copyBaseMembers scope bases st"
    and a3: "ctors = findConstructorOfType env (AnalyzerData.truncate st1)
                      (if length bases \<ge> 1 then bases ! 0 else None)"
    by blast+
  have fc: "findConstructorOfType env (AnalyzerData.truncate st1)
              (if length bases \<ge> 1 then bases ! 0 else None) = Some (FunctionHolder c cs)"
    using a3[symmetric] h by (rule trans)
  have st': "st' = insertSuperConstructors scope (c # cs) st1"
    unfolding st'_def copyBaseAndSuper_def Let_def a1 option.case a2[symmetric] fc by simp
  {
    assume p: "(\<forall>x \<in> set (c # cs). x < nextSymbol st1 \<and> isFunction (symbolStore st1 x))
                   \<and> (lookupSymbol st1 scope ''super'' = None
                       \<or> (\<exists>h. lookupSymbol st1 scope ''super'' = Some h \<and> isFunctionHolder h))"
    note eff = insertSuperConstructors_effect[OF conjunct1[OF p] conjunct2[OF p], folded st']
    show "superOverloads st' scope
            = superOverloads st1 scope @ [nextSymbol st1 ..< nextSymbol st1 + length (c # cs)]"
      using eff by blast
    fix i assume i: "i < length (c # cs)"
    then have cl: "symbolStore st' (nextSymbol st1 + i) = cloneAsSuper (symbolStore st1 ((c # cs) ! i))"
      using eff by blast
    have "(c # cs) ! i \<in> set (c # cs)" using i by (rule nth_mem)
    then have "isFunction (symbolStore st1 ((c # cs) ! i))" using p by blast
    then show "symbolStore st' (nextSymbol st1 + i) = cloneAsSuper (symbolStore st1 ((c # cs) ! i))"
      "isFunction (symbolStore st' (nextSymbol st1 + i))"
      "tokenText (identifierToken (symbolStore st' (nextSymbol st1 + i))) = ''super''"
      using cl by simp_all
  }
  {
    assume "\<exists>v. lookupSymbol st1 scope ''super'' = Some (SingleSymbol v)"
    then obtain v where v: "lookupSymbol st1 scope ''super'' = Some (SingleSymbol v)" by blast
    have "\<not> isFunctionHolder (SingleSymbol v)" by simp
    from insertSuperConstructors_blocked[OF v this, of "c # cs"]
    show "scopeStore st' = scopeStore st1" "diagnostics st' = diagnostics st1"
      unfolding st' by simp_all
  }
qed

theorem copyBaseAndSuper_super_constructors_witness:
  "baseListOf (symbolStore (stateBeforeBaseCopy False) 7) = Some [Some (ResolvedType 2)]
   \<and> findConstructorOfType (exampleEnv True)
        (AnalyzerData.truncate (copyBaseMembers [''D''] [Some (ResolvedType 2)] (stateBeforeBaseCopy False)))
        (Some (ResolvedType 2)) = Some (FunctionHolder 4 [])
   \<and> nextSymbol (copyBaseMembers [''D''] [Some (ResolvedType 2)] (stateBeforeBaseCopy False)) = 9
   \<and> isFunction (symbolStore (copyBaseMembers [''D''] [Some (ResolvedType 2)] (stateBeforeBaseCopy False)) 4)
   \<and> lookupSymbol (copyBaseMembers [''D''] [Some (ResolvedType 2)] (stateBeforeBaseCopy False)) [''D''] ''super''
       = None
   \<and> superOverloads (copyBaseAndSuper (exampleEnv True) [''D''] 7 (stateBeforeBaseCopy False)) [''D''] = [9]"
proof -
  let ?st = "stateBeforeBaseCopy False"
  let ?bases = "[Some (ResolvedType 2)]"
  define st1 where "st1 = copyBaseMembers [''D''] ?bases ?st"
  define st' where "st' = copyBaseAndSuper (exampleEnv True) [''D''] 7 ?st"
  have b: "baseListOf (symbolStore ?st 7) = Some ?bases" by code_simp
  have c: "findConstructorOfType (exampleEnv True) (AnalyzerData.truncate st1) (Some (ResolvedType 2))
             = Some (FunctionHolder 4 [])" unfolding st1_def by code_simp
  have n: "nextSymbol st1 = 9" unfolding st1_def by code_simp
  have f: "isFunction (symbolStore st1 4)" unfolding st1_def by code_simp
  have l: "lookupSymbol st1 [''D''] ''super'' = None" unfolding st1_def by code_simp
  note T = copyBaseAndSuper_super_constructors[where env = "exampleEnv True" and scope = "[''D'']"
      and symbol = 7 and st = ?st]
  note T2 = T[THEN conjunct2, THEN spec, THEN spec, THEN spec, THEN mp,
      OF conjI[OF b conjI[OF st1_def refl]],
      THEN conjunct2, THEN spec, THEN spec, THEN mp, THEN conjunct1, THEN mp, THEN conjunct1,
      folded st'_def]
  have c': "findConstructorOfType (exampleEnv True) (AnalyzerData.truncate st1)
              (if 1 \<le> length ?bases then ?bases ! 0 else None) = Some (FunctionHolder 4 [])"
    using c by simp
  have p: "(\<forall>x \<in> set [4]. x < nextSymbol st1 \<and> isFunction (symbolStore st1 x))
           \<and> (lookupSymbol st1 [''D''] ''super'' = None
               \<or> (\<exists>h. lookupSymbol st1 [''D''] ''super'' = Some h \<and> isFunctionHolder h))"
    using n f l by simp
  have "superOverloads st' [''D''] = superOverloads st1 [''D''] @ [nextSymbol st1 ..< nextSymbol st1 + length [4::nat]]"
    using T2[OF c' p] .
  then have "superOverloads st' [''D''] = [9]"
    by (simp add: superOverloads_def l n)
  then show ?thesis using b c n f l unfolding st1_def st'_def by blast
qed

text \<open>
  The claim as it stands fails when the name \<open>super\<close> is taken: with the variable \<open>super\<close>
  in the member scope of \<open>D\<close>, the first base \<open>B\<close> has a constructor, and yet the step
  inserts no function named \<open>super\<close>; the scope gains the copied public members of \<open>B\<close>
  only.
\<close>

theorem copyBaseAndSuper_super_constructors_counterexample:
  "baseListOf (symbolStore (stateBeforeBaseCopy True) 7) = Some [Some (ResolvedType 2)]
   \<and> findConstructorOfType (exampleEnv True)
        (AnalyzerData.truncate (copyBaseMembers [''D''] [Some (ResolvedType 2)] (stateBeforeBaseCopy True)))
        (Some (ResolvedType 2)) = Some (FunctionHolder 4 [])
   \<and> lookupSymbol (copyBaseAndSuper (exampleEnv True) [''D''] 7 (stateBeforeBaseCopy True)) [''D''] ''super''
       = Some (SingleSymbol 9)
   \<and> isVariable (symbolStore (copyBaseAndSuper (exampleEnv True) [''D''] 7 (stateBeforeBaseCopy True)) 9)
   \<and> scopeSymbols (copyBaseAndSuper (exampleEnv True) [''D''] 7 (stateBeforeBaseCopy True)) [''D'']
       = [8, 9, 4, 6]"
  by code_simp

section \<open>Properties of the hoist pass and its two queues\<close>

declare drainHoistQueue.simps [simp del]

text \<open>
  The drain of the hoist queue ends with an empty hoist queue, whatever the drained
  steps enqueue, and so does \<open>hoistAfterParsed\<close>.
\<close>

lemma drainHoistQueue_empties: "hoistArray (drainHoistQueue env st) = []"
proof (induction env st rule: drainHoistQueue.induct)
  case (1 env st)
  show ?case
  proof (cases "hoistArray st")
    case Nil
    then show ?thesis by (subst drainHoistQueue.simps) simp
  next
    case (Cons t rest)
    then show ?thesis using 1[OF Cons] by (subst drainHoistQueue.simps) simp
  qed
qed

lemma hoistAfterParsed_hoist_queue_empty: "hoistArray (hoistAfterParsed env ast globalScope) = []"
  by (simp add: hoistAfterParsed_def drainHoistQueue_empties)

text \<open>
  When the step that hoists the members of a class was queued with the analyze queue in
  both roles, running it queues the base-copy step on the analyze queue, behind the
  analyze tasks that the member hoisting queued.
\<close>

lemma runTask_class_members_on_analyze_queue:
  "analyzeArray (runTask env (TaskHoistClassMembers scope nodeClass AnalyzeArray AnalyzeArray symbol) st)
     = analyzeArray (hoistClassMembers env scope nodeClass AnalyzeArray AnalyzeArray st)
         @ [TaskCopyBaseAndSuper scope symbol]"
  by (simp add: pushTask_def)

text \<open>
  Claim C1. The hoist is not complete when \<open>hoistAfterParsed\<close> returns: \<open>hoistNamespace\<close>
  hands the analyze queue to the nested walk as its hoist queue too, so the deferred
  hoist steps of the declarations inside a namespace land on the analyze queue. For
  \<open>namespace N { class C { void g() {} } }\<close> the hoist queue is empty at the end, and
  the analyze queue holds the step that hoists the members of \<open>C\<close>: the member \<open>g\<close> is
  not in the scope of \<open>C\<close> yet, and is hoisted only when the analyze queue is run. For the
  same class at the top level, \<open>g\<close> is in the scope of \<open>C\<close> when the pass returns.
\<close>

theorem hoistAfterParsed_namespace_defers_hoist_steps:
  "hoistArray (hoistAfterParsed (exampleEnv True) scriptNamespacedClass exampleGlobalScope) = []
   \<and> analyzeArray (hoistAfterParsed (exampleEnv True) scriptNamespacedClass exampleGlobalScope)
       = [TaskHoistClassMembers [''N'', ''C'']
            (exampleClass ''C'' 1 [] [MemberFunc (exampleFunc ''void'' ''g'' 2 False)])
            AnalyzeArray AnalyzeArray 2]
   \<and> lookupSymbol (hoistAfterParsed (exampleEnv True) scriptNamespacedClass exampleGlobalScope)
         [''N'', ''C''] ''g'' = None
   \<and> lookupSymbol (hoistAfterParsed (exampleEnv True) scriptTopLevelClass exampleGlobalScope)
         [''C''] ''g'' = Some (FunctionHolder 4 [])"
  by code_simp

section \<open>Properties of the reading state and the parser\<close>

text \<open>
  On a non-empty token array \<open>next\<close> always finds a token: the one at the position, or
  the last one when the position is at or past the end.
\<close>

lemma nextToken_nonempty:
  "tokens reading \<noteq> [] \<Longrightarrow>
     nextToken reading = Some (if pos reading \<ge> length (tokens reading) then last (tokens reading)
                               else tokens reading ! pos reading)"
  by (cases "tokens reading" rule: rev_cases)
     (auto simp: nextToken_def nextIndex_def arrayAt_def nth_append)

lemma nextToken_some: "tokens reading \<noteq> [] \<Longrightarrow> \<exists>t. nextToken reading = Some t"
  by (simp add: nextToken_nonempty)

named_theorems safe_intros

lemma safe_result [safe_intros]: "safe (result x)"
  by (simp add: safe_def result_def nonEmptyAfter_def)

lemma safe_outOfFuel [safe_intros]: "safe outOfFuel"
  by (simp add: safe_def outOfFuel_def nonEmptyAfter_def)

lemma safe_andThen [safe_intros]:
  assumes "safe m" and "\<And>x. safe (f x)"
  shows "safe (andThen m f)"
  unfolding safe_def
proof (intro allI impI)
  fix s :: ParserState
  assume s: "tokens s \<noteq> []"
  with assms(1) have m: "nonEmptyAfter (m s)" by (simp add: safe_def)
  show "nonEmptyAfter (andThen m f s)"
  proof (cases "m s")
    case (Done x s')
    with m have "tokens s' \<noteq> []" by (simp add: nonEmptyAfter_def)
    with assms(2)[of x] have "nonEmptyAfter (f x s')" by (simp add: safe_def)
    then show ?thesis using Done by (simp add: andThen_def)
  next
    case OutOfRange
    with m show ?thesis by (simp add: nonEmptyAfter_def)
  next
    case OutOfFuel
    then show ?thesis by (simp add: andThen_def nonEmptyAfter_def)
  qed
qed

lemma safe_if [safe_intros]: "safe a \<Longrightarrow> safe b \<Longrightarrow> safe (if c then a else b)"
  by simp

lemma safe_case_option [safe_intros]:
  "safe a \<Longrightarrow> (\<And>x. safe (b x)) \<Longrightarrow> safe (case v of None \<Rightarrow> a | Some x \<Rightarrow> b x)"
  by (cases v) simp_all

lemma safe_case_TriedParse [safe_intros]:
  "safe a \<Longrightarrow> safe b \<Longrightarrow> (\<And>x. safe (c x)) \<Longrightarrow>
     safe (case v of Mismatch \<Rightarrow> a | Pending \<Rightarrow> b | Parsed x \<Rightarrow> c x)"
  by (cases v) simp_all

lemma safe_readIsEnd [safe_intros]: "safe readIsEnd"
  by (simp add: safe_def readIsEnd_def nonEmptyAfter_def)

lemma safe_readStep [safe_intros]: "safe readStep"
  by (simp add: safe_def readStep_def step_def nonEmptyAfter_def)

lemma safe_readNext [safe_intros]: "safe readNext"
  unfolding safe_def
proof (intro allI impI)
  fix s :: ParserState
  assume "tokens s \<noteq> []"
  then obtain t where "nextToken s = Some t" using nextToken_some by blast
  then show "nonEmptyAfter (readNext s)"
    using \<open>tokens s \<noteq> []\<close> by (simp add: readNext_def nonEmptyAfter_def)
qed

lemma safe_confirm [safe_intros]: "safe (confirm analyzeToken analyzedModifier)"
  unfolding safe_def
proof (intro allI impI)
  fix s :: ParserState
  assume "tokens s \<noteq> []"
  then obtain t where "nextToken s = Some t" using nextToken_some by blast
  then show "nonEmptyAfter (confirm analyzeToken analyzedModifier s)"
    using \<open>tokens s \<noteq> []\<close> by (simp add: confirm_def step_def nonEmptyAfter_def)
qed

lemma safe_addError:
  "safe (\<lambda>s. Done () (s\<lparr>parserDiagnostics := addError loc message (parserDiagnostics s)\<rparr>))"
  by (simp add: safe_def nonEmptyAfter_def)

lemma safe_reportError [safe_intros]: "safe (reportError message)"
  unfolding reportError_def by (intro safe_andThen safe_readNext safe_addError)

lemma safe_expect [safe_intros]: "safe (expect word analyzeToken analyzedModifier)"
  unfolding expect_def by (intro safe_intros)

lemma safe_parseDATATYPE: "safe parseDATATYPE"
  unfolding parseDATATYPE_def by (intro safe_intros)

lemma safe_parseTYPE: "safe parseTYPE"
  unfolding parseTYPE_def by (intro safe_intros safe_parseDATATYPE)

lemma safe_parseEXPRVALUE: "safe parseEXPRVALUE"
  unfolding parseEXPRVALUE_def by (intro safe_intros)

lemma safe_parseEXPRTERM2: "safe parseEXPRTERM2"
  unfolding parseEXPRTERM2_def by (intro safe_intros safe_parseEXPRVALUE)

lemma safe_parseEXPRTERM: "safe parseEXPRTERM"
  unfolding parseEXPRTERM_def by (intro safe_intros safe_parseEXPRTERM2)

lemma safe_parseEXPROP: "safe parseEXPROP"
  unfolding parseEXPROP_def by (intro safe_intros)

lemma safe_parseASSIGNOP: "safe parseASSIGNOP"
  unfolding parseASSIGNOP_def by (intro safe_intros)

lemma safe_parseEXPR: "safe (parseEXPR fuel)"
proof (induction fuel)
  case 0
  show ?case by (simp add: safe_outOfFuel)
next
  case (Suc fuel)
  show ?case
    unfolding parseEXPR.simps
    by (intro safe_intros safe_parseEXPRTERM safe_parseEXPROP Suc.IH)
qed

lemma safe_parseCONDITION: "safe (parseCONDITION fuel)"
  unfolding parseCONDITION_def by (intro safe_intros safe_parseEXPR)

lemma safe_parseASSIGN: "safe (parseASSIGN fuel)"
proof (induction fuel)
  case 0
  show ?case by (simp add: safe_outOfFuel)
next
  case (Suc fuel)
  show ?case
    unfolding parseASSIGN.simps
    by (intro safe_intros safe_parseCONDITION safe_parseASSIGNOP Suc.IH)
qed

lemma safe_parseVAR: "safe (parseVAR fuel)"
  unfolding parseVAR_def by (intro safe_intros safe_parseTYPE safe_parseEXPR)

lemma safe_parsePARAMLIST_loop: "safe (parsePARAMLIST_loop fuel params)"
proof (induction fuel arbitrary: params)
  case 0
  show ?case by (simp add: safe_outOfFuel)
next
  case (Suc fuel)
  show ?case
    unfolding parsePARAMLIST_loop.simps
    by (intro safe_intros safe_parseTYPE Suc.IH)
qed

lemma safe_parsePARAMLIST: "safe (parsePARAMLIST fuel)"
  unfolding parsePARAMLIST_def by (intro safe_intros safe_parsePARAMLIST_loop)

lemma safe_parseBREAK: "safe parseBREAK"
  unfolding parseBREAK_def by (intro safe_intros)

lemma safe_parseCONTINUE: "safe parseCONTINUE"
  unfolding parseCONTINUE_def by (intro safe_intros)

lemma safe_parseEXPRSTAT: "safe (parseEXPRSTAT fuel)"
  unfolding parseEXPRSTAT_def by (intro safe_intros safe_parseASSIGN)

lemma safe_parseRETURN: "safe (parseRETURN fuel)"
  unfolding parseRETURN_def by (intro safe_intros safe_parseASSIGN)

lemma safe_parseFOR_increments: "safe (parseFOR_increments fuel increments)"
proof (induction fuel arbitrary: increments)
  case 0
  show ?case by (simp add: safe_outOfFuel)
next
  case (Suc fuel)
  show ?case
    unfolding parseFOR_increments.simps
    by (intro safe_intros safe_parseASSIGN Suc.IH)
qed

lemmas safe_simple =
  safe_parseTYPE safe_parseEXPR safe_parseASSIGN safe_parseVAR safe_parseBREAK safe_parseCONTINUE
  safe_parseEXPRSTAT safe_parseRETURN safe_parseFOR_increments

lemma safe_statements:
  "safe (parseSTATBLOCK fuel) \<and> (\<forall>statements. safe (parseSTATBLOCK_loop fuel statements))
   \<and> safe (parseSTATEMENT fuel)
   \<and> safe (parseSWITCH fuel) \<and> (\<forall>cases. safe (parseSWITCH_loop fuel cases))
   \<and> safe (parseFOR fuel) \<and> safe (parseWHILE fuel) \<and> safe (parseDOWHILE fuel)
   \<and> safe (parseIF fuel)
   \<and> safe (parseCASE fuel) \<and> (\<forall>statements. safe (parseCASE_loop fuel statements))"
proof (induction fuel)
  case 0
  show ?case by (simp add: safe_outOfFuel)
next
  case (Suc fuel)
  then have ih: "safe (parseSTATBLOCK fuel)" "\<And>statements. safe (parseSTATBLOCK_loop fuel statements)"
    "safe (parseSTATEMENT fuel)"
    "safe (parseSWITCH fuel)" "\<And>cases. safe (parseSWITCH_loop fuel cases)"
    "safe (parseFOR fuel)" "safe (parseWHILE fuel)" "safe (parseDOWHILE fuel)"
    "safe (parseIF fuel)"
    "safe (parseCASE fuel)" "\<And>statements. safe (parseCASE_loop fuel statements)"
    by blast+
  have 1: "safe (parseSTATBLOCK (Suc fuel))"
    unfolding parseSTATBLOCK.simps by (intro safe_intros safe_simple ih)
  have 2: "safe (parseSTATBLOCK_loop (Suc fuel) statements)" for statements
    unfolding parseSTATBLOCK_loop.simps by (intro safe_intros safe_simple ih)
  have 3: "safe (parseSTATEMENT (Suc fuel))"
    unfolding parseSTATEMENT.simps by (intro safe_intros safe_simple ih)
  have 4: "safe (parseSWITCH (Suc fuel))"
    unfolding parseSWITCH.simps by (intro safe_intros safe_simple ih)
  have 5: "safe (parseSWITCH_loop (Suc fuel) cases)" for cases
    unfolding parseSWITCH_loop.simps by (intro safe_intros safe_simple ih)
  have 6: "safe (parseFOR (Suc fuel))"
    unfolding parseFOR.simps by (intro safe_intros safe_simple ih)
  have 7: "safe (parseWHILE (Suc fuel))"
    unfolding parseWHILE.simps by (intro safe_intros safe_simple ih)
  have 8: "safe (parseDOWHILE (Suc fuel))"
    unfolding parseDOWHILE.simps by (intro safe_intros safe_simple ih)
  have 9: "safe (parseIF (Suc fuel))"
    unfolding parseIF.simps by (intro safe_intros safe_simple ih)
  have 10: "safe (parseCASE (Suc fuel))"
    unfolding parseCASE.simps by (intro safe_intros safe_simple ih)
  have 11: "safe (parseCASE_loop (Suc fuel) statements)" for statements
    unfolding parseCASE_loop.simps by (intro safe_intros safe_simple ih)
  show ?case using 1 2 3 4 5 6 7 8 9 10 11 by blast
qed

lemma safe_parseFUNC: "safe (parseFUNC fuel)"
  unfolding parseFUNC_def
  by (intro safe_intros safe_parseTYPE safe_parsePARAMLIST conjunct1[OF safe_statements])

lemma safe_parseSCRIPT_loop: "safe (parseSCRIPT_loop fuel funcs)"
proof (induction fuel arbitrary: funcs)
  case 0
  show ?case by (simp add: safe_outOfFuel)
next
  case (Suc fuel)
  show ?case
    unfolding parseSCRIPT_loop.simps
    by (intro safe_intros safe_parseFUNC Suc.IH)
qed

lemma safe_parseSCRIPT: "safe (parseSCRIPT fuel)"
  unfolding parseSCRIPT_def by (intro safe_intros safe_parseSCRIPT_loop)

text \<open>On an empty token array \<open>parseSCRIPT\<close> finds the end at once and reads no token.\<close>

lemma parseSCRIPT_empty:
  "tokens s = [] \<Longrightarrow> inRange (parseSCRIPT fuel s)"
  by (cases fuel)
     (simp_all add: parseSCRIPT_def andThen_def outOfFuel_def readIsEnd_def isEnd_def result_def
        inRange_def)

lemma nonEmptyAfter_inRange: "nonEmptyAfter r \<Longrightarrow> inRange r"
  by (cases r) (simp_all add: nonEmptyAfter_def inRange_def)

text \<open>
  Claim C8. On a non-empty token array \<open>next\<close> returns a token, whatever the position:
  the token at the position, or the final token when the position is at or past the end.
  So every parse function, started on a non-empty array, reads no token outside of the
  array, however far the run gets, and leaves the array non-empty; and
  \<open>parseFromTokens\<close>, on any token array, performs no out-of-range token access (on an
  empty array it reads no token at all).
\<close>

theorem parseFromTokens_in_range:
  "(tokens reading \<noteq> [] \<longrightarrow>
      nextToken reading = Some (if pos reading \<ge> length (tokens reading)
                                then last (tokens reading) else tokens reading ! pos reading))
   \<and> inRange (parseFromTokens fuel tokenList diagnosticsBefore)
   \<and> safe (parseSCRIPT fuel) \<and> safe (parseFUNC fuel) \<and> safe (parseVAR fuel)
   \<and> safe (parseSTATBLOCK fuel) \<and> safe (parsePARAMLIST fuel) \<and> safe parseTYPE
   \<and> safe parseDATATYPE \<and> safe (parseSTATEMENT fuel) \<and> safe (parseSWITCH fuel)
   \<and> safe parseBREAK \<and> safe (parseFOR fuel) \<and> safe (parseWHILE fuel)
   \<and> safe (parseDOWHILE fuel) \<and> safe (parseIF fuel) \<and> safe parseCONTINUE
   \<and> safe (parseEXPRSTAT fuel) \<and> safe (parseRETURN fuel) \<and> safe (parseCASE fuel)
   \<and> safe (parseEXPR fuel) \<and> safe parseEXPRTERM \<and> safe parseEXPRTERM2
   \<and> safe parseEXPRVALUE \<and> safe (parseASSIGN fuel) \<and> safe (parseCONDITION fuel)
   \<and> safe parseEXPROP \<and> safe parseASSIGNOP"
proof -
  have n: "tokens reading \<noteq> [] \<longrightarrow>
      nextToken reading = Some (if pos reading \<ge> length (tokens reading)
                                then last (tokens reading) else tokens reading ! pos reading)"
    using nextToken_nonempty by blast
  have p: "inRange (parseFromTokens fuel tokenList diagnosticsBefore)"
  proof (cases "tokenList = []")
    case True
    then show ?thesis unfolding parseFromTokens_def by (intro parseSCRIPT_empty) simp
  next
    case False
    then have "nonEmptyAfter (parseFromTokens fuel tokenList diagnosticsBefore)"
      using safe_parseSCRIPT[of fuel] unfolding parseFromTokens_def safe_def by simp
    then show ?thesis by (rule nonEmptyAfter_inRange)
  qed
  note s = safe_statements[of fuel]
  show ?thesis
    using n p s safe_parseSCRIPT safe_parseFUNC safe_parseVAR safe_parsePARAMLIST safe_parseTYPE
      safe_parseDATATYPE safe_parseBREAK safe_parseCONTINUE safe_parseEXPRSTAT safe_parseRETURN
      safe_parseEXPR safe_parseEXPRTERM safe_parseEXPRTERM2 safe_parseEXPRVALUE safe_parseASSIGN
      safe_parseCONDITION safe_parseEXPROP safe_parseASSIGNOP
    by blast
qed

theorem parseFromTokens_in_range_witness:
  "nextToken \<lparr>tokens = exampleTokens, pos = 9\<rparr> = Some (exampleToken ''reserved'' ''return'' 11)
   \<and> inRange (parseFromTokens 40 exampleTokens [])
   \<and> nonEmptyAfter (parseSTATEMENT 10 \<lparr>tokens = exampleTokens, pos = 5, parserDiagnostics = []\<rparr>)"
proof -
  note T = parseFromTokens_in_range[of "\<lparr>tokens = exampleTokens, pos = 9\<rparr>" 10 exampleTokens "[]"]
  have ne: "tokens \<lparr>tokens = exampleTokens, pos = 9\<rparr> \<noteq> []" by (simp add: exampleTokens_def)
  have 1: "nextToken \<lparr>tokens = exampleTokens, pos = 9\<rparr> = Some (exampleToken ''reserved'' ''return'' 11)"
    using T[THEN conjunct1, THEN mp, OF ne] by (simp add: exampleTokens_def)
  have 2: "inRange (parseFromTokens 40 exampleTokens [])"
    using parseFromTokens_in_range[of "\<lparr>tokens = exampleTokens, pos = 9\<rparr>" 40 exampleTokens "[]"]
    by blast
  have "safe (parseSTATEMENT 10)" using T by blast
  then have 3: "nonEmptyAfter (parseSTATEMENT 10 \<lparr>tokens = exampleTokens, pos = 5, parserDiagnostics = []\<rparr>)"
    unfolding safe_def by (simp add: exampleTokens_def)
  show ?thesis using 1 2 3 by blast
qed

section \<open>Properties of the signature help\<close>

lemma startedArguments_Suc:
  "startedArguments env hint caret (Suc n)
     = startedArguments env hint caret n
         @ (if n < length (argList (callerArgumentsNode hint))
               \<and> \<not> isLessThan env caret (argumentStart hint n)
            then [n] else [])"
proof (cases "n < length (argList (callerArgumentsNode hint))")
  case True
  then have "min (Suc n) (length (argList (callerArgumentsNode hint))) = Suc n"
    and "min n (length (argList (callerArgumentsNode hint))) = n" by simp_all
  then show ?thesis using True by (simp add: startedArguments_def)
next
  case False
  then have "min (Suc n) (length (argList (callerArgumentsNode hint)))
               = min n (length (argList (callerArgumentsNode hint)))" by simp
  then show ?thesis using False by (simp add: startedArguments_def)
qed

lemma activeParameterFor_Suc:
  "activeParameterFor env hint caret (Suc n)
     = (if n < length (argList (callerArgumentsNode hint))
           \<and> \<not> isLessThan env caret (argumentStart hint n)
        then (if commaFollows hint n then n + 1 else n)
        else activeParameterFor env hint caret n)"
  by (simp add: activeParameterFor_def startedArguments_Suc)

lemma activeParameterFor_le:
  "activeParameterFor env hint caret n \<le> min n (length (argList (callerArgumentsNode hint)))"
proof (cases "rev (startedArguments env hint caret n)")
  case Nil
  then show ?thesis by (simp add: activeParameterFor_def)
next
  case (Cons j others)
  then have "j \<in> set (startedArguments env hint caret n)"
    by (metis list.set_intros(1) set_rev)
  then have "j < min n (length (argList (callerArgumentsNode hint)))"
    by (simp add: startedArguments_def)
  then show ?thesis using Cons by (simp add: activeParameterFor_def)
qed

lemma foldl_signatureStep_active:
  "snd (snd (foldl (signatureStep env hint callee paramList caret) (l, [], 0) [0..<n]))
     = activeParameterFor env hint caret n"
proof (induction n)
  case 0
  show ?case by (simp add: activeParameterFor_def startedArguments_def)
next
  case (Suc n)
  obtain l1 ps a where st: "foldl (signatureStep env hint callee paramList caret) (l, [], 0) [0..<n] = (l1, ps, a)"
    by (cases "foldl (signatureStep env hint callee paramList caret) (l, [], 0) [0..<n]") auto
  with Suc.IH have a: "a = activeParameterFor env hint caret n" by simp
  have "foldl (signatureStep env hint callee paramList caret) (l, [], 0) [0..<Suc n]
          = signatureStep env hint callee paramList caret (l1, ps, a) n"
    by (simp add: st)
  moreover have "snd (snd (signatureStep env hint callee paramList caret (l1, ps, a) n))
          = activeParameterFor env hint caret (Suc n)"
    by (simp add: a signatureStep_def Let_def activeParameterFor_Suc)
  ultimately show ?case by simp
qed

lemma getFunctionSignature_active:
  assumes "functionNode callee \<noteq> None"
  shows "\<exists>signature. getFunctionSignature env hint callee caret = Returned signature
           \<and> activeParameter signature = activeParameterFor env hint caret (parameterCount callee)"
proof -
  from assms obtain tok paramList where n: "functionNode callee = Some (tok, paramList)"
    by (cases "functionNode callee") auto
  obtain l1 ps a where st:
    "foldl (signatureStep env hint callee paramList caret) (tokenText tok @ ''('', [], 0)
       [0..<length paramList] = (l1, ps, a)"
    by (cases "foldl (signatureStep env hint callee paramList caret) (tokenText tok @ ''('', [], 0)
                 [0..<length paramList]") auto
  have "a = activeParameterFor env hint caret (length paramList)"
    using foldl_signatureStep_active[of env hint callee paramList caret "tokenText tok @ ''(''"
        "length paramList"] st by simp
  then show ?thesis
    by (simp add: getFunctionSignature_def n st parameterCount_def)
qed

lemma collect_map:
  assumes "\<forall>x \<in> set xs. \<exists>y. f x = Returned y \<and> P x y"
  shows "\<exists>ys. collect (map f xs) = Returned ys \<and> length ys = length xs
           \<and> (\<forall>k < length xs. P (xs ! k) (ys ! k))"
  using assms
proof (induction xs)
  case Nil
  then show ?case by simp
next
  case (Cons x xs)
  then obtain y where y: "f x = Returned y" "P x y" by auto
  from Cons obtain ys where ys: "collect (map f xs) = Returned ys" "length ys = length xs"
    "\<forall>k < length xs. P (xs ! k) (ys ! k)" by auto
  have "\<forall>k < length (x # xs). P ((x # xs) ! k) ((y # ys) ! k)"
  proof (intro allI impI)
    fix k assume "k < length (x # xs)"
    then show "P ((x # xs) ! k) ((y # ys) ! k)"
      using y(2) ys(3) by (cases k) simp_all
  qed
  then show ?case using y(1) ys(1,2) by simp
qed

lemma provideSignatureHelp_passedOver:
  "\<forall>x \<in> set before. passedOver env caret x \<Longrightarrow>
     provideSignatureHelp env (before @ rest) caret = provideSignatureHelp env rest caret"
proof (induction before)
  case Nil
  show ?case by simp
next
  case (Cons x before)
  then have ih: "provideSignatureHelp env (before @ rest) caret = provideSignatureHelp env rest caret"
    by simp
  from Cons.prems have p: "passedOver env caret x" by simp
  show ?case
  proof (cases x)
    case OtherComplement
    then show ?thesis using ih by simp
  next
    case (FunctionCall hint)
    with p show ?thesis using ih
      by (auto simp: passedOver_def split: option.splits)
  qed
qed

text \<open>
  What the code computes. The signatures come from the first hint that is not passed
  over: when the hints before a \<open>FunctionCall\<close> hint are of another kind, are not at the
  caret or have a callee that resolves to no function holder, the caller location of the
  hint is at the caret, its callee resolves to a function holder and every overload of
  that holder links to a function node, then \<open>provideSignatureHelp\<close> returns one signature
  per overload of that holder, in order, and the active parameter of each is the value
  of \<open>activeParameterFor\<close>, which can reach the number of parameters of the overload.
\<close>

lemma provideSignatureHelp_first_hint_at_caret:
  assumes "completionHints = before @ FunctionCall hint # after"
    and "\<forall>x \<in> set before. passedOver env caret x"
    and "coversCaret env caret hint"
    and "expectedCalleeOf env hint = Some holder"
    and "isFunctionHolder holder"
    and "\<forall>s \<in> set (toList holder). functionNode (symbols env s) \<noteq> None"
  shows "\<exists>signatures.
           provideSignatureHelp env completionHints caret = Returned signatures
           \<and> length signatures = length (toList holder)
           \<and> (\<forall>k < length (toList holder).
                 activeParameter (signatures ! k)
                   = activeParameterFor env hint caret (parameterCount (symbols env (toList holder ! k)))
                 \<and> activeParameter (signatures ! k)
                     \<le> min (parameterCount (symbols env (toList holder ! k)))
                          (length (argList (callerArgumentsNode hint))))"
proof -
  have run: "provideSignatureHelp env completionHints caret
               = collect (map (\<lambda>callee. getFunctionSignature env hint (symbols env callee) caret)
                            (toList holder))"
    unfolding assms(1) provideSignatureHelp_passedOver[OF assms(2)]
    using assms(3,4,5) by simp
  have each: "\<forall>s \<in> set (toList holder).
          \<exists>signature. getFunctionSignature env hint (symbols env s) caret = Returned signature
             \<and> activeParameter signature
                 = activeParameterFor env hint caret (parameterCount (symbols env s))"
    using assms(6) getFunctionSignature_active by blast
  from collect_map[where f = "\<lambda>callee. getFunctionSignature env hint (symbols env callee) caret"
      and P = "\<lambda>s signature. activeParameter signature
                 = activeParameterFor env hint caret (parameterCount (symbols env s))", OF each]
  obtain signatures where s: "collect (map (\<lambda>callee. getFunctionSignature env hint (symbols env callee) caret)
                            (toList holder)) = Returned signatures"
    "length signatures = length (toList holder)"
    "\<forall>k < length (toList holder). activeParameter (signatures ! k)
         = activeParameterFor env hint caret (parameterCount (symbols env (toList holder ! k)))"
    by blast
  have "\<forall>k < length (toList holder).
          activeParameter (signatures ! k)
            = activeParameterFor env hint caret (parameterCount (symbols env (toList holder ! k)))
          \<and> activeParameter (signatures ! k)
              \<le> min (parameterCount (symbols env (toList holder ! k)))
                   (length (argList (callerArgumentsNode hint)))"
    using s(3) activeParameterFor_le by metis
  then show ?thesis using run s(1,2) by auto
qed

lemma provideSignatureHelp_first_hint_at_caret_example:
  "coversCaret exampleSignatureEnv (0, 5) exampleCall
   \<and> expectedCalleeOf exampleSignatureEnv exampleCall = Some (FunctionHolder 0 [1])
   \<and> (\<exists>signatures.
         provideSignatureHelp exampleSignatureEnv [FunctionCall exampleCall] (0, 5) = Returned signatures
         \<and> length signatures = 2
         \<and> activeParameter (signatures ! 0) = 1)"
proof -
  have h: "[FunctionCall exampleCall] = [] @ FunctionCall exampleCall # []" by simp
  have b: "\<forall>x \<in> set []. passedOver exampleSignatureEnv (0, 5) x" by simp
  have c: "coversCaret exampleSignatureEnv (0, 5) exampleCall" by code_simp
  have e: "expectedCalleeOf exampleSignatureEnv exampleCall = Some (FunctionHolder 0 [1])" by code_simp
  have f: "isFunctionHolder (FunctionHolder 0 [1])" by simp
  have n: "\<forall>s \<in> set (toList (FunctionHolder 0 [1])). functionNode (symbols exampleSignatureEnv s) \<noteq> None"
    by code_simp
  have a: "activeParameterFor exampleSignatureEnv exampleCall (0, 5)
             (parameterCount (symbols exampleSignatureEnv (toList (FunctionHolder 0 [1]) ! 0))) = 1"
    by code_simp
  from provideSignatureHelp_first_hint_at_caret[OF h b c e f n]
  obtain signatures where s:
    "provideSignatureHelp exampleSignatureEnv [FunctionCall exampleCall] (0, 5) = Returned signatures"
    "length signatures = length (toList (FunctionHolder 0 [1]))"
    "\<forall>k < length (toList (FunctionHolder 0 [1])).
        activeParameter (signatures ! k)
          = activeParameterFor exampleSignatureEnv exampleCall (0, 5)
              (parameterCount (symbols exampleSignatureEnv (toList (FunctionHolder 0 [1]) ! k)))
        \<and> activeParameter (signatures ! k)
            \<le> min (parameterCount (symbols exampleSignatureEnv (toList (FunctionHolder 0 [1]) ! k)))
                 (length (argList (callerArgumentsNode exampleCall)))"
    by blast
  have "(0::nat) < length (toList (FunctionHolder 0 [1]))" by simp
  with s(3) have "activeParameter (signatures ! 0)
          = activeParameterFor exampleSignatureEnv exampleCall (0, 5)
              (parameterCount (symbols exampleSignatureEnv (toList (FunctionHolder 0 [1]) ! 0)))"
    by blast
  then have "activeParameter (signatures ! 0) = 1" using a by simp
  moreover have "length signatures = 2" using s(2) by simp
  ultimately show ?thesis using c e s(1) by blast
qed

text \<open>
  Claim C7. The active parameter is not the number of commas before the caret, and it is
  not kept within the parameters of the callee: \<open>getFunctionSignature\<close> adds one for a
  comma that follows an argument without comparing that comma with the caret, and never
  saturates. In the call \<open>f(a, b)\<close>, whose callee resolves to a function holder with the
  overloads \<open>f(int x, int y)\<close> and \<open>f(int x)\<close>, the caller location holds the caret at the
  start of \<open>a\<close> (character 2) and behind the comma (character 4). At character 2 no comma
  lies before the caret, and yet both signatures have the active parameter 1. At
  character 4 one comma lies before the caret and both signatures have the active
  parameter 1, which for the overload with one parameter is past the index 0 of its last
  parameter.
\<close>

theorem provideSignatureHelp_active_parameter_before_comma:
  "coversCaret exampleSignatureEnv (0, 2) exampleCall
   \<and> coversCaret exampleSignatureEnv (0, 4) exampleCall
   \<and> expectedCalleeOf exampleSignatureEnv exampleCall = Some (FunctionHolder 0 [1])
   \<and> parameterCount (symbols exampleSignatureEnv 0) = 2
   \<and> parameterCount (symbols exampleSignatureEnv 1) = 1
   \<and> commasBeforeCaret exampleSignatureEnv exampleCall (0, 2) = 0
   \<and> (case provideSignatureHelp exampleSignatureEnv [FunctionCall exampleCall] (0, 2) of
         Returned signatures \<Rightarrow> map activeParameter signatures
       | TypeError \<Rightarrow> []) = [1, 1]
   \<and> commasBeforeCaret exampleSignatureEnv exampleCall (0, 4) = 1
   \<and> (case provideSignatureHelp exampleSignatureEnv [FunctionCall exampleCall] (0, 4) of
         Returned signatures \<Rightarrow> map activeParameter signatures
       | TypeError \<Rightarrow> []) = [1, 1]"
  by code_simp

end
